(* ===== verification/Prelude.thy ===== *)
theory Prelude
  imports Main "HOL-Library.Word" "HOL-Library.Monad_Syntax" "HOL-Library.Multiset"
    "HOL-Library.Signed_Division"
begin

text \<open>
  Shared vocabulary of the development: the fixed-width integer types of the C++ sources, the
  little-endian byte encoding a host load or store uses, and a two-mode outcome predicate for
  computations of type 'a option, where None stands for a host-level fault (a wild, freed or
  protected access, or arithmetic whose behaviour the language leaves undefined).
\<close>

unbundle bit_operations_syntax

type_synonym u8 = "8 word"
type_synonym u16 = "16 word"
type_synonym u32 = "32 word"
type_synonym u64 = "64 word"

named_theorems runs_intros \<open>outcome rules of the model's operations\<close>
named_theorems flag_defs \<open>the numeric constants of the sources\<close>

subsection \<open>Outcomes\<close>

text \<open>
  In strict mode a computation has to return and its result satisfies Q. In lenient mode it may
  fault, and Q holds of every result it returns.
\<close>

definition runs :: "bool \<Rightarrow> 'a option \<Rightarrow> ('a \<Rightarrow> bool) \<Rightarrow> bool" where
  "runs strict m Q = (case m of None \<Rightarrow> \<not> strict | Some x \<Rightarrow> Q x)"

lemma runs_Some [simp]: "runs st (Some x) Q = Q x"
  by (simp add: runs_def)

lemma runs_None [simp]: "runs st None Q = (\<not> st)"
  by (simp add: runs_def)

lemma runs_strictD: "runs True m Q \<Longrightarrow> \<exists>x. m = Some x \<and> Q x"
  by (cases m) (auto simp: runs_def)

lemma runs_result: "\<lbrakk>runs st m Q; m = Some x\<rbrakk> \<Longrightarrow> Q x"
  by (simp add: runs_def)

lemma runs_mono: "\<lbrakk>runs st m Q; \<And>x. Q x \<Longrightarrow> R x\<rbrakk> \<Longrightarrow> runs st m R"
  by (cases m) (auto simp: runs_def)

lemma runs_bind:
  "\<lbrakk>runs st m Q; \<And>x. Q x \<Longrightarrow> runs st (f x) R\<rbrakk> \<Longrightarrow> runs st (m \<bind> f) R"
  by (cases m) (auto simp: runs_def)

lemma runs_prod:
  "runs st (case p of (a, b) \<Rightarrow> f a b) Q = (case p of (a, b) \<Rightarrow> runs st (f a b) Q)"
  by (cases p) simp

lemma runs_if:
  "\<lbrakk>b \<Longrightarrow> runs st x Q; \<not> b \<Longrightarrow> runs st y Q\<rbrakk> \<Longrightarrow> runs st (if b then x else y) Q"
  by simp

lemma runs_option:
  "\<lbrakk>p = None \<Longrightarrow> runs st x Q; \<And>a. p = Some a \<Longrightarrow> runs st (f a) Q\<rbrakk>
   \<Longrightarrow> runs st (case p of None \<Rightarrow> x | Some a \<Rightarrow> f a) Q"
  by (cases p) simp_all

subsection \<open>Little-endian bytes\<close>

primrec le_bytes :: "nat \<Rightarrow> int \<Rightarrow> u8 list" where
  "le_bytes 0 x = []"
| "le_bytes (Suc n) x = word_of_int x # le_bytes n (x div 256)"

primrec le_val :: "u8 list \<Rightarrow> int" where
  "le_val [] = 0"
| "le_val (b # bs) = uint b + 256 * le_val bs"

lemma length_le_bytes [simp]: "length (le_bytes n x) = n"
  by (induction n arbitrary: x) simp_all

lemma le_val_bytes: "le_val (le_bytes n x) = x mod 256 ^ n"
proof (induction n arbitrary: x)
  case (Suc n)
  have "le_val (le_bytes (Suc n) x) = x mod 256 + 256 * ((x div 256) mod 256 ^ n)"
    by (simp add: Suc unsigned_of_int take_bit_eq_mod)
  then show ?case
    by (simp add: mod_mult2_eq' mod_mult2_eq zmod_zmult2_eq)
qed simp

lemma le_bytes_val: "le_bytes (length bs) (le_val bs) = bs"
proof (induction bs)
  case (Cons b bs)
  have "uint b < 256"
    using uint_lt2p [of b] by simp
  then have "(uint b + 256 * le_val bs) div 256 = le_val bs"
    by simp
  moreover have "(word_of_int (uint b + 256 * le_val bs) :: u8) = word_of_int (uint b)"
    by (subst word_of_int_eq_iff) (simp add: take_bit_eq_mod)
  ultimately show ?case
    using Cons by (simp del: of_int_add of_int_mult)
qed simp

lemma le_val_nonneg [simp]: "0 \<le> le_val bs"
  by (induction bs) simp_all

lemma le_val_bound: "le_val bs < 256 ^ length bs"
proof (induction bs)
  case (Cons b bs)
  have "uint b < 256" using uint_lt2p [of b] by simp
  then show ?case using Cons by simp
qed simp

lemma le_word64 [simp]: "word_of_int (le_val (le_bytes 8 (uint (w :: u64)))) = w"
  using uint_lt2p [of w] by (simp add: le_val_bytes)

end
