(* ===== verification/Host_Mem.thy ===== *)
theory Host_Mem
  imports Prelude
begin

text \<open>
  The host side of guest memory: page-granular host mappings as mmap, munmap and mprotect of the
  operating system leave them, byte loads and stores that fault on an unmapped or protected page,
  the control blocks of std::shared_ptr that carry copy-on-write ownership, and the record of
  struct memmap (src/elf_loader.h) with its destructor. Whether a call of mmap or mprotect
  succeeds is not decided here: the host carries two functions from the number of the call to
  its success.
\<close>

subsection \<open>Host state\<close>

text \<open>A host pointer is a mapping block and a byte offset into it; blocks are page aligned.\<close>

datatype hptr = Ptr (hp_blk: nat) (hp_off: nat)

datatype hpage = Page (pg_blk: nat) (pg_no: nat)

record cowblk =
  cb_ptr :: hptr
  cb_size :: nat
  cb_owned :: bool
  cb_refs :: nat

record host =
  hpages :: "hpage \<Rightarrow> (bool \<times> bool) option"
  hval :: "hptr \<Rightarrow> u8"
  hcow :: "nat \<Rightarrow> cowblk option"
  hblk :: nat
  hcid :: nat
  os_calls :: nat
  os_mmap_ok :: "nat \<Rightarrow> bool"
  os_mprotect_ok :: "nat \<Rightarrow> bool"

abbreviation (input) PAGE :: nat where "PAGE \<equiv> 4096"

definition hadd :: "hptr \<Rightarrow> nat \<Rightarrow> hptr" where
  "hadd p n = Ptr (hp_blk p) (hp_off p + n)"

definition page_of :: "hptr \<Rightarrow> hpage" where
  "page_of p = Page (hp_blk p) (hp_off p div PAGE)"

definition in_pages :: "hptr \<Rightarrow> nat \<Rightarrow> hpage \<Rightarrow> bool" where
  "in_pages p n q \<longleftrightarrow> 0 < n \<and> pg_blk q = hp_blk p \<and> hp_off p div PAGE \<le> pg_no q \<and> pg_no q * PAGE < hp_off p + n"

definition can_read :: "host \<Rightarrow> hptr \<Rightarrow> bool" where
  "can_read h p = (case hpages h (page_of p) of None \<Rightarrow> False | Some (r, w) \<Rightarrow> r)"

definition can_write :: "host \<Rightarrow> hptr \<Rightarrow> bool" where
  "can_write h p = (case hpages h (page_of p) of None \<Rightarrow> False | Some (r, w) \<Rightarrow> w)"

text \<open>Reads and writes through a host pointer; None is a host fault.\<close>

definition host_load :: "host \<Rightarrow> hptr \<Rightarrow> nat \<Rightarrow> u8 list option" where
  "host_load h p n =
     (if list_all (\<lambda>i. can_read h (hadd p i)) [0..<n]
      then Some (map (\<lambda>i. hval h (hadd p i)) [0..<n]) else None)"

definition put_bytes :: "hptr \<Rightarrow> u8 list \<Rightarrow> (hptr \<Rightarrow> u8) \<Rightarrow> hptr \<Rightarrow> u8" where
  "put_bytes p bs f q =
     (if hp_blk q = hp_blk p \<and> hp_off p \<le> hp_off q \<and> hp_off q < hp_off p + length bs
      then bs ! (hp_off q - hp_off p) else f q)"

definition host_store :: "host \<Rightarrow> hptr \<Rightarrow> u8 list \<Rightarrow> host option" where
  "host_store h p bs =
     (if list_all (\<lambda>i. can_write h (hadd p i)) [0..<length bs]
      then Some (h\<lparr>hval := put_bytes p bs (hval h)\<rparr>) else None)"

subsection \<open>Operating system calls on mappings\<close>

abbreviation (input) PROT_NONE :: u32 where "PROT_NONE \<equiv> 0"
abbreviation (input) PROT_READ :: u32 where "PROT_READ \<equiv> 1"
abbreviation (input) PROT_WRITE :: u32 where "PROT_WRITE \<equiv> 2"
abbreviation (input) PROT_EXEC :: u32 where "PROT_EXEC \<equiv> 4"

text \<open>A writable page is readable too, as on the x86-64 and AArch64 hosts bpfvm runs on.\<close>

definition page_prot :: "u32 \<Rightarrow> bool \<times> bool" where
  "page_prot prot = (bit prot 0 \<or> bit prot 1, bit prot 1)"

text \<open>A fresh block holding the given contents (zero for an anonymous mapping).\<close>

definition host_mmap :: "host \<Rightarrow> nat \<Rightarrow> u32 \<Rightarrow> (nat \<Rightarrow> u8) \<Rightarrow> hptr option \<times> host" where
  "host_mmap h n prot cont =
     (let h1 = h\<lparr>os_calls := Suc (os_calls h)\<rparr> in
      if n = 0 \<or> \<not> os_mmap_ok h (os_calls h) then (None, h1)
      else (Some (Ptr (hblk h) 0),
            h1\<lparr>hblk := Suc (hblk h),
               hpages := (\<lambda>q. if in_pages (Ptr (hblk h) 0) n q then Some (page_prot prot) else hpages h q),
               hval := (\<lambda>p. if hp_blk p = hblk h then cont (hp_off p) else hval h p)\<rparr>))"

definition host_munmap :: "hptr \<Rightarrow> nat \<Rightarrow> host \<Rightarrow> host" where
  "host_munmap p n h =
     (if hp_off p mod PAGE \<noteq> 0 then h
      else h\<lparr>hpages := (\<lambda>q. if in_pages p n q then None else hpages h q)\<rparr>)"

definition host_mprotect :: "hptr \<Rightarrow> nat \<Rightarrow> u32 \<Rightarrow> host \<Rightarrow> bool \<times> host" where
  "host_mprotect p n prot h =
     (let h1 = h\<lparr>os_calls := Suc (os_calls h)\<rparr> in
      if hp_off p mod PAGE \<noteq> 0 \<or> \<not> os_mprotect_ok h (os_calls h)
         \<or> \<not> list_all (\<lambda>k. hpages h (Page (hp_blk p) k) \<noteq> None)
               [hp_off p div PAGE..<(hp_off p + n + (PAGE - 1)) div PAGE]
      then (False, h1)
      else (True, h1\<lparr>hpages := (\<lambda>q. if in_pages p n q then Some (page_prot prot) else hpages h q)\<rparr>))"

subsection \<open>Copy-on-write control blocks\<close>

definition cow_new :: "hptr \<Rightarrow> nat \<Rightarrow> host \<Rightarrow> nat \<times> host" where
  "cow_new p n h =
     (hcid h, h\<lparr>hcid := Suc (hcid h),
                hcow := (hcow h)(hcid h \<mapsto>
                  \<lparr>cb_ptr = p, cb_size = n, cb_owned = True, cb_refs = 1\<rparr>)\<rparr>)"

definition cow_copy :: "nat \<Rightarrow> host \<Rightarrow> host" where
  "cow_copy i h = (case hcow h i of None \<Rightarrow> h
     | Some cb \<Rightarrow> h\<lparr>hcow := (hcow h)(i \<mapsto> cb\<lparr>cb_refs := Suc (cb_refs cb)\<rparr>)\<rparr>)"

definition cow_reset :: "nat \<Rightarrow> host \<Rightarrow> host" where
  "cow_reset i h = (case hcow h i of None \<Rightarrow> h
     | Some cb \<Rightarrow>
        if cb_refs cb \<le> 1
        then (let h1 = h\<lparr>hcow := (hcow h)(i := None)\<rparr> in
              if cb_owned cb then host_munmap (cb_ptr cb) (cb_size cb) h1 else h1)
        else h\<lparr>hcow := (hcow h)(i \<mapsto> cb\<lparr>cb_refs := cb_refs cb - 1\<rparr>)\<rparr>)"

definition cow_use_count :: "host \<Rightarrow> nat \<Rightarrow> nat" where
  "cow_use_count h i = (case hcow h i of None \<Rightarrow> 0 | Some cb \<Rightarrow> cb_refs cb)"

definition cow_disown :: "nat \<Rightarrow> host \<Rightarrow> host" where
  "cow_disown i h = (case hcow h i of None \<Rightarrow> h
     | Some cb \<Rightarrow> h\<lparr>hcow := (hcow h)(i \<mapsto> cb\<lparr>cb_owned := False\<rparr>)\<rparr>)"

subsection \<open>Guest mappings\<close>

abbreviation (input) PF_X :: nat where "PF_X \<equiv> 0"
abbreviation (input) PF_W :: nat where "PF_W \<equiv> 1"
abbreviation (input) PF_R :: nat where "PF_R \<equiv> 2"

text \<open>PF_X, PF_W and PF_R are given by the number of their bit in the flags word.\<close>

record memmap =
  m_data :: hptr
  m_dsize :: u64
  m_owned :: bool
  m_size :: u64
  m_paddr :: u64
  m_flags :: u32
  m_cow :: "nat option"
  m_path :: string

definition DataDeleter :: "memmap \<Rightarrow> host \<Rightarrow> host" where
  "DataDeleter m h = (if m_owned m then host_munmap (m_data m) (unat (m_dsize m)) h else h)"

text \<open>Members are destroyed in reverse order of declaration: first cow_data, then data.\<close>

definition memmap_destroy :: "memmap \<Rightarrow> host \<Rightarrow> host" where
  "memmap_destroy m h =
     DataDeleter m (case m_cow m of None \<Rightarrow> h | Some i \<Rightarrow> cow_reset i h)"

definition set_data :: "hptr \<Rightarrow> u64 \<Rightarrow> bool \<Rightarrow> memmap \<Rightarrow> memmap" where
  "set_data p sz own m = m\<lparr>m_data := p, m_dsize := sz, m_owned := own\<rparr>"

definition static_map :: "hptr \<Rightarrow> u64 \<Rightarrow> u64 \<Rightarrow> string \<Rightarrow> memmap" where
  "static_map addr sz paddr path =
     \<lparr>m_data = addr, m_dsize = sz, m_owned = False, m_size = sz, m_paddr = paddr,
      m_flags = 4, m_cow = None, m_path = path\<rparr>"

definition m_off :: "memmap \<Rightarrow> u64 \<Rightarrow> hptr" where
  "m_off m a = hadd (m_data m) (unat (a - m_paddr m))"

text \<open>Moves the host pages of an owning mapping into a control block, as fork and the splitters do.\<close>

definition share_data :: "memmap \<Rightarrow> host \<Rightarrow> memmap \<times> host" where
  "share_data m h =
     (if m_cow m = None \<and> m_owned m
      then (let (i, h1) = cow_new (m_data m) (unat (m_dsize m)) h
            in (m\<lparr>m_cow := Some i, m_owned := False\<rparr>, h1))
      else (m, h))"

end
