(* ===== verification/Ownership.thy ===== *)
theory Ownership
  imports Host_Mem
begin

text \<open>
  The ownership discipline of host pages. The memmaps of all address spaces form one multiset;
  each host page is released by at most one owner, an owning memmap or a control block, and a
  control block counts exactly the memmaps that refer to it. Every operation of the sources that
  creates, shares, splits, steals or drops a memmap keeps this invariant.
\<close>

definition m_pages :: "memmap \<Rightarrow> hpage \<Rightarrow> bool" where
  "m_pages m q = in_pages (m_data m) (unat (m_size m)) q"

definition cb_pages :: "cowblk \<Rightarrow> hpage \<Rightarrow> bool" where
  "cb_pages cb q = in_pages (cb_ptr cb) (cb_size cb) q"

definition own_count :: "memmap multiset \<Rightarrow> hpage \<Rightarrow> nat" where
  "own_count M q = size {# m \<in># M. m_owned m \<and> m_pages m q #}"

definition cow_refs :: "memmap multiset \<Rightarrow> nat \<Rightarrow> nat" where
  "cow_refs M i = size {# m \<in># M. m_cow m = Some i #}"

definition inside :: "memmap \<Rightarrow> hptr \<Rightarrow> nat \<Rightarrow> bool" where
  "inside m p n \<longleftrightarrow> hp_blk (m_data m) = hp_blk p \<and> hp_off p \<le> hp_off (m_data m)
     \<and> hp_off (m_data m) + unat (m_size m) \<le> hp_off p + n"

definition fresh_ids :: "host \<Rightarrow> bool" where
  "fresh_ids h \<longleftrightarrow> (\<forall>b k. hblk h \<le> b \<longrightarrow> hpages h (Page b k) = None) \<and> (\<forall>i. hcid h \<le> i \<longrightarrow> hcow h i = None)"

definition managed :: "memmap \<Rightarrow> bool" where
  "managed m \<longleftrightarrow> m_dsize m = m_size m \<and> (m_owned m \<longleftrightarrow> m_cow m = None)"

definition cow_map_ok :: "host \<Rightarrow> memmap \<Rightarrow> bool" where
  "cow_map_ok h m \<longleftrightarrow> (\<forall>i. m_cow m = Some i \<longrightarrow>
     (\<exists>cb. hcow h i = Some cb \<and> inside m (cb_ptr cb) (cb_size cb)))"

definition cow_blk_ok :: "host \<Rightarrow> memmap multiset \<Rightarrow> nat \<Rightarrow> cowblk \<Rightarrow> bool" where
  "cow_blk_ok h M i cb \<longleftrightarrow> cb_owned cb \<and> cb_refs cb = cow_refs M i \<and> 0 < cow_refs M i
     \<and> (\<forall>q. cb_pages cb q \<longrightarrow> hpages h q \<noteq> None \<and> own_count M q = 0)"

definition own_inv :: "host \<Rightarrow> memmap multiset \<Rightarrow> bool" where
  "own_inv h M \<longleftrightarrow>
     (\<forall>q. own_count M q \<le> 1)
     \<and> (\<forall>m \<in># M. managed m \<and> cow_map_ok h m \<and> (m_owned m \<longrightarrow> (\<forall>q. m_pages m q \<longrightarrow> hpages h q \<noteq> None)))
     \<and> (\<forall>i cb. hcow h i = Some cb \<longrightarrow> cow_blk_ok h M i cb)
     \<and> (\<forall>i j cb cb' q. i \<noteq> j \<longrightarrow> hcow h i = Some cb \<longrightarrow> hcow h j = Some cb' \<longrightarrow> cb_pages cb q \<longrightarrow> \<not> cb_pages cb' q)
     \<and> fresh_ids h"

subsection \<open>Pages\<close>

lemma in_pages_byte: "i < n \<Longrightarrow> in_pages p n (page_of (hadd p i))"
  by (auto simp: in_pages_def page_of_def hadd_def div_le_mono
        intro: le_less_trans [OF div_times_less_eq_dividend])

lemma page_of_fst [simp]: "pg_blk (page_of p) = hp_blk p"
  by (simp add: page_of_def)

lemma hadd_simps [simp]: "hp_blk (hadd p n) = hp_blk p" "hp_off (hadd p n) = hp_off p + n"
  "hadd (hadd p n) k = hadd p (n + k)" "hadd p 0 = p"
  by (simp_all add: hadd_def add.assoc)

lemma in_pages_mono:
  assumes "hp_blk p' = hp_blk p" "hp_off p \<le> hp_off p'" "hp_off p' + n' \<le> hp_off p + n" "in_pages p' n' q"
  shows "in_pages p n q"
  using assms div_le_mono [of "hp_off p" "hp_off p'" PAGE] by (auto simp: in_pages_def)

lemma inside_pages: "\<lbrakk>inside m p n; m_pages m q\<rbrakk> \<Longrightarrow> in_pages p n q"
  unfolding inside_def m_pages_def using in_pages_mono [of "m_data m" p] by auto

lemma inside_self [simp]: "inside m (m_data m) (unat (m_size m))"
  by (simp add: inside_def)

lemma m_pages_byte: "i < unat (m_size m) \<Longrightarrow> m_pages m (page_of (hadd (m_data m) i))"
  unfolding m_pages_def by (rule in_pages_byte)

subsection \<open>Counting\<close>

lemma own_count_add [simp]:
  "own_count (add_mset m M) q = (if m_owned m \<and> m_pages m q then Suc (own_count M q) else own_count M q)"
  by (simp add: own_count_def)

lemma cow_refs_add [simp]:
  "cow_refs (add_mset m M) i = (if m_cow m = Some i then Suc (cow_refs M i) else cow_refs M i)"
  by (simp add: cow_refs_def)

lemma own_count_empty [simp]: "own_count {#} q = 0"
  by (simp add: own_count_def)

lemma cow_refs_empty [simp]: "cow_refs {#} i = 0"
  by (simp add: cow_refs_def)

lemma cow_refs_0: "cow_refs M i = 0 \<longleftrightarrow> (\<forall>m \<in># M. m_cow m \<noteq> Some i)"
  by (induction M) auto

lemma own_count_0: "own_count M q = 0 \<longleftrightarrow> (\<forall>m \<in># M. m_owned m \<longrightarrow> \<not> m_pages m q)"
  by (induction M) auto

subsection \<open>Consequences\<close>

lemma own_invD:
  assumes "own_inv h M"
  shows "own_count M q \<le> 1" "m \<in># M \<Longrightarrow> managed m" "m \<in># M \<Longrightarrow> cow_map_ok h m"
    "hcow h i = Some cb \<Longrightarrow> cow_blk_ok h M i cb" "fresh_ids h"
  using assms by (auto simp: own_inv_def)

lemma own_inv_live:
  assumes inv: "own_inv h M" and m: "m \<in># M" and q: "m_pages m q"
  shows "hpages h q \<noteq> None"
proof (cases "m_cow m")
  case None
  then show ?thesis using inv m q by (auto simp: own_inv_def managed_def)
next
  case (Some i)
  then obtain cb where "hcow h i = Some cb" "inside m (cb_ptr cb) (cb_size cb)"
    using own_invD(3) [OF inv m] by (auto simp: cow_map_ok_def)
  then show ?thesis
    using own_invD(4) [OF inv] inside_pages q by (fastforce simp: cow_blk_ok_def cb_pages_def)
qed

text \<open>The pages of an owning memmap belong to no other memmap.\<close>

lemma own_inv_exclusive:
  assumes inv: "own_inv h (add_mset m M)" and own: "m_owned m" and q: "m_pages m q" and m': "m' \<in># M"
  shows "\<not> m_pages m' q"
proof
  assume q': "m_pages m' q"
  have cnt: "own_count M q = 0"
    using own_invD(1) [OF inv, of q] own q by simp
  then have "\<not> m_owned m'" using m' q' by (auto simp: own_count_0)
  then obtain i where i: "m_cow m' = Some i"
    using own_invD(2) [OF inv, of m'] m' by (auto simp: managed_def)
  then obtain cb where cb: "hcow h i = Some cb" "inside m' (cb_ptr cb) (cb_size cb)"
    using own_invD(3) [OF inv, of m'] m' by (auto simp: cow_map_ok_def)
  then have "own_count (add_mset m M) q = 0"
    using own_invD(4) [OF inv cb(1)] inside_pages [OF cb(2) q'] by (auto simp: cow_blk_ok_def cb_pages_def)
  then show False using own q by simp
qed

text \<open>Only the set of mapped pages, the control blocks and the counters matter.\<close>

lemma own_inv_cong:
  assumes "own_inv h M" "\<And>q. (hpages h' q = None) = (hpages h q = None)" "hcow h' = hcow h"
    "hblk h' = hblk h" "hcid h' = hcid h"
  shows "own_inv h' M"
  using assms(1) unfolding own_inv_def cow_map_ok_def cow_blk_ok_def fresh_ids_def assms(2-5) .

lemma own_inv_calls [simp]: "own_inv (h\<lparr>os_calls := c\<rparr>) M = own_inv h M"
  by (simp add: own_inv_def cow_map_ok_def cow_blk_ok_def fresh_ids_def)

lemma own_inv_hval [simp]: "own_inv (h\<lparr>hval := f\<rparr>) M = own_inv h M"
  by (simp add: own_inv_def cow_map_ok_def cow_blk_ok_def fresh_ids_def)

text \<open>Flags and guest addresses play no part in ownership.\<close>

lemma own_inv_relabel:
  assumes "own_inv h (add_mset m M)" "m_data m' = m_data m" "m_dsize m' = m_dsize m"
    "m_owned m' = m_owned m" "m_size m' = m_size m" "m_cow m' = m_cow m"
  shows "own_inv h (add_mset m' M)"
proof -
  have p: "m_pages m' = m_pages m" using assms by (simp add: m_pages_def fun_eq_iff)
  have c: "own_count (add_mset m' M) = own_count (add_mset m M)" "cow_refs (add_mset m' M) = cow_refs (add_mset m M)"
    using assms p by (simp_all add: fun_eq_iff)
  have m: "managed m' = managed m" "cow_map_ok h m' = cow_map_ok h m"
    using assms by (simp_all add: managed_def cow_map_ok_def inside_def)
  show ?thesis
    using assms(1) unfolding own_inv_def cow_blk_ok_def c
    by (simp add: p m assms del: own_count_add cow_refs_add)
qed

subsection \<open>Creating, releasing and sharing pages\<close>

lemma host_mmap_fresh:
  assumes "host_mmap h n prot cont = (r, h')"
  shows "r = None \<Longrightarrow> h' = h\<lparr>os_calls := Suc (os_calls h)\<rparr>"
    and "r = Some p \<Longrightarrow> p = Ptr (hblk h) 0 \<and> 0 < n \<and> hcow h' = hcow h \<and> hcid h' = hcid h \<and> hblk h' = Suc (hblk h)
      \<and> hpages h' = (\<lambda>q. if in_pages (Ptr (hblk h) 0) n q then Some (page_prot prot) else hpages h q)
      \<and> hval h' = (\<lambda>p. if hp_blk p = hblk h then cont (hp_off p) else hval h p)
      \<and> os_mprotect_ok h' = os_mprotect_ok h"
  using assms by (auto simp: host_mmap_def Let_def split: if_splits)

lemma fresh_block_unused:
  assumes "own_inv h M" "pg_blk q = hblk h"
  shows "own_count M q = 0" "hcow h i = Some cb \<Longrightarrow> \<not> cb_pages cb q" "m \<in># M \<Longrightarrow> \<not> m_pages m q"
proof -
  have none: "hpages h q = None"
    using assms by (cases q) (auto simp: own_inv_def fresh_ids_def)
  show m: "\<not> m_pages m q" if "m \<in># M" for m
    using own_inv_live [OF assms(1) that] none by blast
  show "own_count M q = 0" using m by (auto simp: own_count_0)
  show "\<not> cb_pages cb q" if "hcow h i = Some cb"
    using own_invD(4) [OF assms(1) that] none by (auto simp: cow_blk_ok_def)
qed

lemma own_inv_mmap:
  assumes inv: "own_inv h M" and mm: "host_mmap h (unat (m_size m)) prot cont = (Some p, h')"
    and m: "m_data m = p" "m_owned m" "m_dsize m = m_size m" "m_cow m = None"
  shows "own_inv h' (add_mset m M)"
proof -
  note h' = host_mmap_fresh(2) [OF mm refl]
  have blk: "pg_blk q = hblk h" if "m_pages m q" for q
    using that m h' by (simp add: m_pages_def in_pages_def)
  note un = fresh_block_unused [OF inv blk]
  have pg: "hpages h' q = (if m_pages m q then Some (page_prot prot) else hpages h q)" for q
    using h' m by (simp add: m_pages_def)
  show ?thesis
    unfolding own_inv_def
  proof (intro conjI)
    show "\<forall>q. own_count (add_mset m M) q \<le> 1"
      using own_invD(1) [OF inv] un(1) by simp
    show "\<forall>m'\<in>#add_mset m M. managed m' \<and> cow_map_ok h' m' \<and> (m_owned m' \<longrightarrow> (\<forall>q. m_pages m' q \<longrightarrow> hpages h' q \<noteq> None))"
      using inv m h' pg by (auto simp: own_inv_def managed_def cow_map_ok_def)
    show "\<forall>i cb. hcow h' i = Some cb \<longrightarrow> cow_blk_ok h' (add_mset m M) i cb"
      using own_invD(4) [OF inv] h' m pg un(2) by (auto simp: cow_blk_ok_def)
    show "\<forall>i j cb cb' q. i \<noteq> j \<longrightarrow> hcow h' i = Some cb \<longrightarrow> hcow h' j = Some cb' \<longrightarrow> cb_pages cb q \<longrightarrow> \<not> cb_pages cb' q"
      using inv h' by (simp add: own_inv_def)
    show "fresh_ids h'"
      using own_invD(5) [OF inv] h' by (auto simp: fresh_ids_def in_pages_def)
  qed
qed

lemma host_munmap_simps [simp]:
  "hcow (host_munmap p n h) = hcow h" "hcid (host_munmap p n h) = hcid h" "hblk (host_munmap p n h) = hblk h"
  "hval (host_munmap p n h) = hval h" "os_mprotect_ok (host_munmap p n h) = os_mprotect_ok h"
  by (simp_all add: host_munmap_def)

lemma host_munmap_other: "\<not> in_pages p n q \<Longrightarrow> hpages (host_munmap p n h) q = hpages h q"
  by (simp add: host_munmap_def)

lemma host_munmap_sub: "hpages (host_munmap p n h) q = Some v \<Longrightarrow> hpages h q = Some v"
  by (auto simp: host_munmap_def split: if_splits)

text \<open>Unmapping pages nobody claims keeps the invariant.\<close>

lemma own_inv_munmap:
  assumes inv: "own_inv h M" and own: "\<And>q. in_pages p n q \<Longrightarrow> own_count M q = 0"
    and cow: "\<And>q i cb. \<lbrakk>in_pages p n q; hcow h i = Some cb\<rbrakk> \<Longrightarrow> \<not> cb_pages cb q"
  shows "own_inv (host_munmap p n h) M"
proof -
  have pg: "hpages (host_munmap p n h) q = hpages h q" if "own_count M q \<noteq> 0 \<or> (\<exists>i cb. hcow h i = Some cb \<and> cb_pages cb q)" for q
    using own cow that by (intro host_munmap_other) auto
  have o: "own_count M q \<noteq> 0" if "m \<in># M" "m_owned m" "m_pages m q" for m q
    using that by (auto simp: own_count_0)
  show ?thesis
    unfolding own_inv_def
  proof (intro conjI)
    show "\<forall>m\<in>#M. managed m \<and> cow_map_ok (host_munmap p n h) m \<and> (m_owned m \<longrightarrow> (\<forall>q. m_pages m q \<longrightarrow> hpages (host_munmap p n h) q \<noteq> None))"
      using inv pg o by (simp add: own_inv_def cow_map_ok_def)
    show "\<forall>i cb. hcow (host_munmap p n h) i = Some cb \<longrightarrow> cow_blk_ok (host_munmap p n h) M i cb"
      using own_invD(4) [OF inv] pg by (force simp: cow_blk_ok_def)
    show "fresh_ids (host_munmap p n h)"
      using own_invD(5) [OF inv] by (simp add: fresh_ids_def host_munmap_def)
  qed (use inv in \<open>auto simp: own_inv_def\<close>)
qed

text \<open>Forgetting an owning memmap: its pages become unclaimed.\<close>

lemma own_inv_forget:
  assumes inv: "own_inv h (add_mset m M)" and own: "m_owned m"
  shows "own_inv h M" "m_pages m q \<Longrightarrow> own_count M q = 0"
    "\<lbrakk>m_pages m q; hcow h i = Some cb\<rbrakk> \<Longrightarrow> \<not> cb_pages cb q"
proof -
  have cow: "m_cow m = None"
    using own_invD(2) [OF inv, of m] own by (auto simp: managed_def)
  show "own_count M q = 0" if "m_pages m q" for q
    using own_invD(1) [OF inv, of q] own that by simp
  show "\<not> cb_pages cb q" if "m_pages m q" "hcow h i = Some cb" for q i cb
    using own_invD(4) [OF inv that(2)] own that(1) by (fastforce simp: cow_blk_ok_def)
  have le: "own_count M q \<le> own_count (add_mset m M) q" for q by simp
  show "own_inv h M"
    unfolding own_inv_def
  proof (intro conjI)
    show "\<forall>q. own_count M q \<le> 1"
      using own_invD(1) [OF inv] le le_trans by blast
    show "\<forall>i cb. hcow h i = Some cb \<longrightarrow> cow_blk_ok h M i cb"
      using own_invD(4) [OF inv] cow le unfolding cow_blk_ok_def
      by (metis cow_refs_add le_zero_eq option.distinct(1))
  qed (use inv in \<open>auto simp: own_inv_def\<close>)
qed

lemma own_inv_add_owned:
  assumes inv: "own_inv h M" and m: "managed m" "m_owned m"
    and pg: "\<And>q. m_pages m q \<Longrightarrow> hpages h q \<noteq> None \<and> own_count M q = 0"
    and cw: "\<And>q i cb. \<lbrakk>m_pages m q; hcow h i = Some cb\<rbrakk> \<Longrightarrow> \<not> cb_pages cb q"
  shows "own_inv h (add_mset m M)"
  unfolding own_inv_def
proof (intro conjI)
  show "\<forall>q. own_count (add_mset m M) q \<le> 1"
    using own_invD(1) [OF inv] pg by simp
  show "\<forall>m'\<in>#add_mset m M. managed m' \<and> cow_map_ok h m' \<and> (m_owned m' \<longrightarrow> (\<forall>q. m_pages m' q \<longrightarrow> hpages h q \<noteq> None))"
    using inv m pg by (auto simp: own_inv_def managed_def cow_map_ok_def)
  show "\<forall>i cb. hcow h i = Some cb \<longrightarrow> cow_blk_ok h (add_mset m M) i cb"
    using own_invD(4) [OF inv] m cw by (auto simp: cow_blk_ok_def managed_def)
qed (use inv in \<open>auto simp: own_inv_def\<close>)

text \<open>Releasing an owning memmap.\<close>

lemma own_inv_delete:
  assumes inv: "own_inv h (add_mset m M)" and own: "m_owned m"
  shows "own_inv (DataDeleter m h) M"
proof -
  have "m_dsize m = m_size m"
    using own_invD(2) [OF inv, of m] by (auto simp: managed_def)
  then show ?thesis
    using own_inv_munmap [OF own_inv_forget(1) [OF assms]] own_inv_forget(2,3) [OF assms] own
    by (simp add: DataDeleter_def m_pages_def)
qed

text \<open>Dropping one reference to a control block, without the deleter.\<close>

definition uncow :: "nat \<Rightarrow> nat \<Rightarrow> host \<Rightarrow> host" where
  "uncow i n h = h\<lparr>hcow := (hcow h)(i := (if n = 0 then None else map_option (cb_refs_update (\<lambda>_. n)) (hcow h i)))\<rparr>"

lemma uncow_simps [simp]:
  "hpages (uncow i n h) = hpages h" "hval (uncow i n h) = hval h" "hblk (uncow i n h) = hblk h"
  "hcid (uncow i n h) = hcid h" "os_mprotect_ok (uncow i n h) = os_mprotect_ok h"
  "j \<noteq> i \<Longrightarrow> hcow (uncow i n h) j = hcow h j"
  by (simp_all add: uncow_def)

lemma own_inv_uncow:
  assumes inv: "own_inv h (add_mset m M)" and cow: "m_cow m = Some i"
  shows "own_inv (uncow i (cow_refs M i) h) M"
proof -
  let ?h = "uncow i (cow_refs M i) h"
  have own: "\<not> m_owned m" using own_invD(2) [OF inv, of m] cow by (auto simp: managed_def)
  have cnt: "own_count (add_mset m M) q = own_count M q" for q using own by simp
  have old: "\<exists>cb0. hcow h j = Some cb0 \<and> cb_ptr cb = cb_ptr cb0 \<and> cb_size cb = cb_size cb0 \<and> cb_owned cb = cb_owned cb0
       \<and> (cow_refs M j = cb_refs cb \<and> 0 < cb_refs cb)" if "hcow ?h j = Some cb" for j cb
    using that own_invD(4) [OF inv, of j] cow
    by (auto simp: uncow_def cow_blk_ok_def split: if_splits)
  have pgs: "cb_pages cb = cb_pages cb0" if "cb_ptr cb = cb_ptr cb0" "cb_size cb = cb_size cb0" for cb cb0
    using that by (simp add: cb_pages_def fun_eq_iff)
  show ?thesis
    unfolding own_inv_def
  proof (intro conjI)
    show "\<forall>q. own_count M q \<le> 1"
      using own_invD(1) [OF inv] cnt by metis
    show "\<forall>m\<in>#M. managed m \<and> cow_map_ok ?h m \<and> (m_owned m \<longrightarrow> (\<forall>q. m_pages m q \<longrightarrow> hpages ?h q \<noteq> None))"
    proof
      fix m' assume m': "m' \<in># M"
      have "hcow h j = Some cb \<Longrightarrow> m_cow m' = Some j \<Longrightarrow> \<exists>cb'. hcow ?h j = Some cb' \<and> cb_ptr cb' = cb_ptr cb \<and> cb_size cb' = cb_size cb" for j cb
        using cow_refs_0 [of M j] m' by (auto simp: uncow_def)
      then have "cow_map_ok ?h m'"
        using own_invD(3) [OF inv, of m'] m' by (fastforce simp: cow_map_ok_def)
      then show "managed m' \<and> cow_map_ok ?h m' \<and> (m_owned m' \<longrightarrow> (\<forall>q. m_pages m' q \<longrightarrow> hpages ?h q \<noteq> None))"
        using inv m' by (simp add: own_inv_def)
    qed
    show "\<forall>j cb. hcow ?h j = Some cb \<longrightarrow> cow_blk_ok ?h M j cb"
      using old own_invD(4) [OF inv] cnt pgs unfolding cow_blk_ok_def uncow_simps by metis
    show "\<forall>j k cb cb' q. j \<noteq> k \<longrightarrow> hcow ?h j = Some cb \<longrightarrow> hcow ?h k = Some cb' \<longrightarrow> cb_pages cb q \<longrightarrow> \<not> cb_pages cb' q"
      using inv old pgs unfolding own_inv_def by metis
    show "fresh_ids ?h"
      using own_invD(5) [OF inv] by (auto simp: fresh_ids_def uncow_def)
  qed
qed

lemma cow_refs_use:
  assumes "own_inv h (add_mset m M)" "m_cow m = Some i"
  obtains cb where "hcow h i = Some cb" "cb_refs cb = Suc (cow_refs M i)" "cb_owned cb"
    "inside m (cb_ptr cb) (cb_size cb)" "\<And>q. cb_pages cb q \<Longrightarrow> hpages h q \<noteq> None \<and> own_count (add_mset m M) q = 0"
proof -
  obtain cb where cb: "hcow h i = Some cb" "inside m (cb_ptr cb) (cb_size cb)"
    using own_invD(3) [OF assms(1), of m] assms(2) by (auto simp: cow_map_ok_def)
  have "cow_blk_ok h (add_mset m M) i cb" by (rule own_invD(4) [OF assms(1) cb(1)])
  then show thesis
    using that [OF cb(1) _ _ cb(2)] assms(2) unfolding cow_blk_ok_def cow_refs_add by auto
qed

lemma cow_blocks_disjoint:
  "\<lbrakk>own_inv h M; hcow h i = Some cb; hcow h j = Some cb'; i \<noteq> j; cb_pages cb q\<rbrakk> \<Longrightarrow> \<not> cb_pages cb' q"
  unfolding own_inv_def by blast

lemma own_inv_cow_reset:
  assumes inv: "own_inv h (add_mset m M)" and cow: "m_cow m = Some i"
  shows "own_inv (cow_reset i h) M"
proof -
  obtain cb where cb: "hcow h i = Some cb" "cb_refs cb = Suc (cow_refs M i)" "cb_owned cb"
    "\<And>q. cb_pages cb q \<Longrightarrow> hpages h q \<noteq> None \<and> own_count (add_mset m M) q = 0"
    using cow_refs_use [OF inv cow] by metis
  have un: "own_inv (uncow i (cow_refs M i) h) M" by (rule own_inv_uncow [OF inv cow])
  show ?thesis
  proof (cases "cow_refs M i")
    case 0
    have "own_inv (host_munmap (cb_ptr cb) (cb_size cb) (uncow i 0 h)) M"
    proof (rule own_inv_munmap)
      show "own_inv (uncow i 0 h) M" using un 0 by simp
      show "own_count M q = 0" if "in_pages (cb_ptr cb) (cb_size cb) q" for q
        using cb(4) [of q] that by (simp add: cb_pages_def split: if_splits)
      show "\<not> cb_pages cb' q" if "in_pages (cb_ptr cb) (cb_size cb) q" "hcow (uncow i 0 h) j = Some cb'" for q j cb'
        using that cow_blocks_disjoint [OF inv cb(1), of j cb' q] by (cases "j = i") (auto simp: cb_pages_def uncow_def)
    qed
    then show ?thesis using cb 0 by (simp add: cow_reset_def uncow_def fun_upd_def)
  next
    case (Suc n)
    then have "cow_reset i h = uncow i (cow_refs M i) h"
      using cb by (simp add: cow_reset_def uncow_def)
    then show ?thesis using un by simp
  qed
qed

lemma own_inv_memmap_destroy:
  assumes inv: "own_inv h (add_mset m M)"
  shows "own_inv (memmap_destroy m h) M"
  using own_invD(2) [OF inv, of m] own_inv_cow_reset [OF inv] own_inv_delete [OF inv]
  by (auto simp: memmap_destroy_def DataDeleter_def managed_def split: option.splits)

text \<open>The sole user of a control block takes its pages over.\<close>

lemma own_inv_steal:
  assumes inv: "own_inv h (add_mset m M)" and cow: "m_cow m = Some i" and one: "cow_use_count h i = 1"
  shows "own_inv (cow_reset i (cow_disown i h)) (add_mset (m\<lparr>m_cow := None, m_owned := True\<rparr>) M)"
proof -
  obtain cb where cb: "hcow h i = Some cb" "cb_refs cb = Suc (cow_refs M i)"
    "inside m (cb_ptr cb) (cb_size cb)" "\<And>q. cb_pages cb q \<Longrightarrow> hpages h q \<noteq> None \<and> own_count (add_mset m M) q = 0"
    using cow_refs_use [OF inv cow] by metis
  have refs: "cow_refs M i = 0" using one cb by (simp add: cow_use_count_def)
  have eq: "cow_reset i (cow_disown i h) = uncow i 0 h"
    using cb refs by (simp add: cow_reset_def cow_disown_def uncow_def Let_def)
  have pg: "cb_pages cb q" if "m_pages m q" for q
    using inside_pages [OF cb(3) that] by (simp add: cb_pages_def)
  show ?thesis
    unfolding eq
  proof (rule own_inv_add_owned)
    show "own_inv (uncow i 0 h) M" using own_inv_uncow [OF inv cow] refs by simp
    show "managed (m\<lparr>m_cow := None, m_owned := True\<rparr>)" "m_owned (m\<lparr>m_cow := None, m_owned := True\<rparr>)"
      using own_invD(2) [OF inv, of m] by (simp_all add: managed_def)
    show "hpages (uncow i 0 h) q \<noteq> None \<and> own_count M q = 0" if "m_pages (m\<lparr>m_cow := None, m_owned := True\<rparr>) q" for q
      using cb(4) [OF pg, of q] that by (simp add: m_pages_def split: if_splits)
    show "\<not> cb_pages cb' q" if "m_pages (m\<lparr>m_cow := None, m_owned := True\<rparr>) q" "hcow (uncow i 0 h) j = Some cb'" for q j cb'
      using that cow_blocks_disjoint [OF inv cb(1), of j cb' q] pg [of q]
      by (cases "j = i") (auto simp: m_pages_def uncow_def)
  qed
qed

text \<open>A new control block over unclaimed live pages, with its first user.\<close>

lemma own_inv_cow_new:
  assumes inv: "own_inv h M" and m: "managed m" "m_cow m = Some (hcid h)" "inside m p n"
    and pg: "\<And>q. in_pages p n q \<Longrightarrow> hpages h q \<noteq> None \<and> own_count M q = 0"
    and cw: "\<And>q i cb. \<lbrakk>in_pages p n q; hcow h i = Some cb\<rbrakk> \<Longrightarrow> \<not> cb_pages cb q"
  shows "own_inv (snd (cow_new p n h)) (add_mset m M)"
proof -
  let ?h = "snd (cow_new p n h)"
  have fr: "hcow h (hcid h) = None" using own_invD(5) [OF inv] by (simp add: fresh_ids_def)
  have own: "\<not> m_owned m" using m by (simp add: managed_def)
  have no: "m_cow m' \<noteq> Some (hcid h)" if "m' \<in># M" for m'
    using own_invD(3) [OF inv that] fr by (auto simp: cow_map_ok_def)
  then have r0: "cow_refs M (hcid h) = 0" by (simp add: cow_refs_0)
  show ?thesis
    unfolding own_inv_def
  proof (intro conjI)
    show "\<forall>q. own_count (add_mset m M) q \<le> 1"
      using own_invD(1) [OF inv] own by simp
    show "\<forall>m'\<in>#add_mset m M. managed m' \<and> cow_map_ok ?h m' \<and> (m_owned m' \<longrightarrow> (\<forall>q. m_pages m' q \<longrightarrow> hpages ?h q \<noteq> None))"
      using inv m own no by (auto simp: own_inv_def cow_map_ok_def cow_new_def)
    show "\<forall>i cb. hcow ?h i = Some cb \<longrightarrow> cow_blk_ok ?h (add_mset m M) i cb"
      using own_invD(4) [OF inv] m own r0 pg by (auto simp: cow_blk_ok_def cow_new_def cb_pages_def split: if_splits)
    show "\<forall>i j cb cb' q. i \<noteq> j \<longrightarrow> hcow ?h i = Some cb \<longrightarrow> hcow ?h j = Some cb' \<longrightarrow> cb_pages cb q \<longrightarrow> \<not> cb_pages cb' q"
      using cow_blocks_disjoint [OF inv] cw by (auto simp: cow_new_def cb_pages_def split: if_splits)
    show "fresh_ids ?h"
      using own_invD(5) [OF inv] by (simp add: fresh_ids_def cow_new_def)
  qed
qed

text \<open>A further user of an existing control block.\<close>

lemma own_inv_cow_copy:
  assumes inv: "own_inv h M" and cb: "hcow h i = Some cb" and m: "managed m" "m_cow m = Some i" "inside m (cb_ptr cb) (cb_size cb)"
  shows "own_inv (cow_copy i h) (add_mset m M)"
proof -
  have own: "\<not> m_owned m" using m by (simp add: managed_def)
  have h: "cow_copy i h = h\<lparr>hcow := (hcow h)(i \<mapsto> cb\<lparr>cb_refs := Suc (cb_refs cb)\<rparr>)\<rparr>"
    using cb by (simp add: cow_copy_def)
  show ?thesis
    unfolding own_inv_def h
  proof (intro conjI)
    show "\<forall>q. own_count (add_mset m M) q \<le> 1"
      using own_invD(1) [OF inv] own by simp
    show "\<forall>m'\<in>#add_mset m M. managed m' \<and> cow_map_ok (h\<lparr>hcow := (hcow h)(i \<mapsto> cb\<lparr>cb_refs := Suc (cb_refs cb)\<rparr>)\<rparr>) m'
        \<and> (m_owned m' \<longrightarrow> (\<forall>q. m_pages m' q \<longrightarrow> hpages (h\<lparr>hcow := (hcow h)(i \<mapsto> cb\<lparr>cb_refs := Suc (cb_refs cb)\<rparr>)\<rparr>) q \<noteq> None))"
      using inv m own cb by (auto simp: own_inv_def cow_map_ok_def)
    show "\<forall>j cb'. hcow (h\<lparr>hcow := (hcow h)(i \<mapsto> cb\<lparr>cb_refs := Suc (cb_refs cb)\<rparr>)\<rparr>) j = Some cb' \<longrightarrow>
        cow_blk_ok (h\<lparr>hcow := (hcow h)(i \<mapsto> cb\<lparr>cb_refs := Suc (cb_refs cb)\<rparr>)\<rparr>) (add_mset m M) j cb'"
      using own_invD(4) [OF inv] m own cb by (auto simp: cow_blk_ok_def cb_pages_def split: if_splits)
    show "fresh_ids (h\<lparr>hcow := (hcow h)(i \<mapsto> cb\<lparr>cb_refs := Suc (cb_refs cb)\<rparr>)\<rparr>)"
      using own_invD(5) [OF inv] cb by (auto simp: fresh_ids_def)
    have "\<exists>cb0. hcow h j = Some cb0 \<and> cb_pages cb1 = cb_pages cb0"
      if "hcow (h\<lparr>hcow := (hcow h)(i \<mapsto> cb\<lparr>cb_refs := Suc (cb_refs cb)\<rparr>)\<rparr>) j = Some cb1" for j cb1
      using that cb by (auto simp: cb_pages_def fun_eq_iff split: if_splits)
    then show "\<forall>j k cb1 cb2 q. j \<noteq> k \<longrightarrow> hcow (h\<lparr>hcow := (hcow h)(i \<mapsto> cb\<lparr>cb_refs := Suc (cb_refs cb)\<rparr>)\<rparr>) j = Some cb1 \<longrightarrow>
        hcow (h\<lparr>hcow := (hcow h)(i \<mapsto> cb\<lparr>cb_refs := Suc (cb_refs cb)\<rparr>)\<rparr>) k = Some cb2 \<longrightarrow> cb_pages cb1 q \<longrightarrow> \<not> cb_pages cb2 q"
      using cow_blocks_disjoint [OF inv] by metis
  qed
qed

lemma own_inv_share:
  assumes inv: "own_inv h (add_mset m M)" and sh: "share_data m h = (m', h')"
  shows "own_inv h' (add_mset m' M)" "\<exists>i. m_cow m' = Some i" "m_owned m' = False"
proof -
  have mg: "managed m" using own_invD(2) [OF inv, of m] by simp
  have "own_inv h' (add_mset m' M) \<and> (\<exists>i. m_cow m' = Some i) \<and> \<not> m_owned m'"
  proof (cases "m_owned m")
    case True
    note fg = own_inv_forget [OF inv True]
    have e: "m' = m\<lparr>m_cow := Some (hcid h), m_owned := False\<rparr>" "h' = snd (cow_new (m_data m) (unat (m_size m)) h)"
      using sh True mg by (auto simp: share_data_def managed_def cow_new_def)
    have "own_inv (snd (cow_new (m_data m) (unat (m_size m)) h)) (add_mset m' M)"
    proof (rule own_inv_cow_new [OF fg(1)])
      show "managed m'" "m_cow m' = Some (hcid h)" "inside m' (m_data m) (unat (m_size m))"
        using e mg by (simp_all add: managed_def inside_def)
      show "hpages h q \<noteq> None \<and> own_count M q = 0" if "in_pages (m_data m) (unat (m_size m)) q" for q
        using fg(2) own_inv_live [OF inv, of m] that by (simp add: m_pages_def)
      show "\<not> cb_pages cb q" if "in_pages (m_data m) (unat (m_size m)) q" "hcow h i = Some cb" for q i cb
        using fg(3) that by (simp add: m_pages_def)
    qed
    then show ?thesis using e by simp
  qed (use sh inv mg in \<open>auto simp: share_data_def managed_def\<close>)
  then show "own_inv h' (add_mset m' M)" "\<exists>i. m_cow m' = Some i" "m_owned m' = False" by auto
qed

end
