(* ===== verification/Copy_On_Write.thy ===== *)
theory Copy_On_Write
  imports Ownership
begin

text \<open>
  The copy-on-write break of vm::mmu_w_slow (src/insn.cpp) on one memmap: taking the pages over
  when the control block has a single user, copying them to a fresh mapping otherwise. The main
  lemma says that the break never touches a byte that existed before, that the new memmap shows
  the same bytes as the old one and owns them exclusively, and that in strict mode it does not
  fault.
\<close>

definition prot_of_flags :: "u32 \<Rightarrow> u32" where
  "prot_of_flags fl =
     (if bit fl PF_R then PROT_READ else PROT_NONE)
     OR (if bit fl PF_W then PROT_WRITE else PROT_NONE)
     OR (if bit fl PF_X then PROT_EXEC else PROT_NONE)"

definition cow_prot :: "u32 \<Rightarrow> u32" where
  "cow_prot fl = (PROT_READ OR PROT_WRITE) OR (if bit fl PF_X then PROT_EXEC else PROT_NONE)"

text \<open>The copy into the fresh mapping p; the source is made readable for the copy and then restored.\<close>

definition copy_cow :: "memmap \<Rightarrow> nat \<Rightarrow> hptr \<Rightarrow> host \<Rightarrow> (memmap option \<times> host) option" where
  "copy_cow m c p h1 =
     (let n = unat (m_size m); (ok, h2) = host_mprotect (m_data m) n PROT_READ h1 in
      if \<not> ok then Some (None, host_munmap p n h2)
      else do {
        bs \<leftarrow> host_load h2 (m_data m) n;
        h3 \<leftarrow> host_store h2 p bs;
        let h4 = snd (host_mprotect (m_data m) n (prot_of_flags (m_flags m)) h3);
        let h5 = cow_reset c h4;
        Some (Some (set_data p (m_size m) True (m\<lparr>m_cow := None\<rparr>)), DataDeleter m h5)
      })"

definition break_cow :: "memmap \<Rightarrow> nat \<Rightarrow> host \<Rightarrow> (memmap option \<times> host) option" where
  "break_cow m c h =
     (if cow_use_count h c = 1
      then Some (Some (m\<lparr>m_cow := None, m_owned := True\<rparr>), cow_reset c (cow_disown c h))
      else (case host_mmap h (unat (m_size m)) (cow_prot (m_flags m)) (\<lambda>_. 0) of
              (None, h1) \<Rightarrow> Some (None, h1)
            | (Some p, h1) \<Rightarrow> copy_cow m c p h1))"

definition prot_ok :: "host \<Rightarrow> memmap \<Rightarrow> bool" where
  "prot_ok h m \<longleftrightarrow> (\<forall>q. m_pages m q \<longrightarrow>
     (\<exists>r w. hpages h q = Some (r, w) \<and> r \<and> (bit (m_flags m) PF_W \<longrightarrow> w)))"

definition mem_ok :: "bool \<Rightarrow> host \<Rightarrow> memmap multiset \<Rightarrow> bool" where
  "mem_ok st h M \<longleftrightarrow> own_inv h M
     \<and> (st \<longrightarrow> (\<forall>m \<in># M. prot_ok h m) \<and> (\<forall>n. os_mprotect_ok h n))"

text \<open>What was mapped before keeps its bytes.\<close>

definition old_same :: "host \<Rightarrow> host \<Rightarrow> bool" where
  "old_same h h' \<longleftrightarrow> hblk h \<le> hblk h' \<and> (\<forall>p. hp_blk p < hblk h \<longrightarrow> hval h' p = hval h p)"

lemma old_same_refl [simp]: "old_same h h"
  by (simp add: old_same_def)

lemma old_same_trans: "\<lbrakk>old_same h h'; old_same h' h''\<rbrakk> \<Longrightarrow> old_same h h''"
  by (auto simp: old_same_def)

lemma map_block_old:
  assumes "own_inv h M" "m \<in># M" "i < unat (m_size m)"
  shows "hp_blk (m_data m) < hblk h"
proof (rule ccontr)
  assume "\<not> hp_blk (m_data m) < hblk h"
  then have "hpages h (page_of (hadd (m_data m) i)) = None"
    using own_invD(5) [OF assms(1)] by (simp add: fresh_ids_def page_of_def)
  then show False
    using own_inv_live [OF assms(1,2) m_pages_byte [OF assms(3)]] by simp
qed

lemma mem_ok_calls [simp]: "mem_ok st (h\<lparr>os_calls := c\<rparr>) M = mem_ok st h M"
  by (simp add: mem_ok_def prot_ok_def)

lemma mem_ok_hval [simp]: "mem_ok st (h\<lparr>hval := f\<rparr>) M = mem_ok st h M"
  by (simp add: mem_ok_def prot_ok_def)

subsection \<open>Loads and stores\<close>

lemma host_load_runs:
  assumes "st \<Longrightarrow> \<forall>i<n. can_read h (hadd p i)"
  shows "runs st (host_load h p n) (\<lambda>bs. bs = map (\<lambda>i. hval h (hadd p i)) [0..<n])"
  using assms by (auto simp: host_load_def list_all_iff)

lemma host_store_runs:
  assumes "st \<Longrightarrow> \<forall>i<length bs. can_write h (hadd p i)"
  shows "runs st (host_store h p bs) (\<lambda>h'. h' = h\<lparr>hval := put_bytes p bs (hval h)\<rparr>)"
  using assms by (auto simp: host_store_def list_all_iff)

lemma put_bytes_in: "i < length bs \<Longrightarrow> put_bytes p bs f (hadd p i) = bs ! i"
  by (simp add: put_bytes_def)

lemma put_bytes_out: "(\<And>i. i < length bs \<Longrightarrow> q \<noteq> hadd p i) \<Longrightarrow> put_bytes p bs f q = f q"
proof -
  assume ne: "\<And>i. i < length bs \<Longrightarrow> q \<noteq> hadd p i"
  have "q = hadd p (hp_off q - hp_off p)" if "hp_blk q = hp_blk p" "hp_off p \<le> hp_off q"
    using that by (simp add: hadd_def hptr.expand)
  then show ?thesis using ne by (force simp: put_bytes_def)
qed

lemma put_bytes_blk: "hp_blk q \<noteq> hp_blk p \<Longrightarrow> put_bytes p bs f q = f q"
  by (simp add: put_bytes_def)

lemma page_prot_simps [simp]:
  "page_prot PROT_READ = (True, False)"
  "page_prot (cow_prot fl) = (True, True)"
  "bit fl PF_W \<Longrightarrow> page_prot (prot_of_flags fl) = (True, True)"
  by (auto simp: page_prot_def prot_of_flags_def cow_prot_def bit_simps)

lemma host_mprotect_cases:
  assumes "host_mprotect p n prot h = (ok, h')"
  shows "hval h' = hval h" "hcow h' = hcow h" "hblk h' = hblk h" "hcid h' = hcid h"
    "os_mprotect_ok h' = os_mprotect_ok h"
    "ok \<Longrightarrow> hpages h' = (\<lambda>q. if in_pages p n q then Some (page_prot prot) else hpages h q)"
    "\<not> ok \<Longrightarrow> hpages h' = hpages h"
    "(hpages h' q = None) = (hpages h q = None)"
proof -
  have pg: "pg_no q \<in> set [hp_off p div PAGE..<(hp_off p + n + (PAGE - 1)) div PAGE]" if "in_pages p n q"
    using that by (simp add: in_pages_def) linarith
  show "(hpages h' q = None) = (hpages h q = None)"
    using assms pg by (cases q) (force simp: host_mprotect_def Let_def list_all_iff in_pages_def split: if_splits)
qed (use assms in \<open>auto simp: host_mprotect_def Let_def split: if_splits\<close>)

lemma host_mprotect_again:
  assumes "host_mprotect p n prot h = (True, h')" "\<And>k. os_mprotect_ok h'' k"
    "\<And>q. (hpages h'' q = None) = (hpages h q = None)"
  shows "fst (host_mprotect p n prot' h'')"
  using assms by (auto simp: host_mprotect_def Let_def list_all_iff split: if_splits)

lemma own_inv_mprotect: "own_inv h M \<Longrightarrow> own_inv (snd (host_mprotect p n prot h)) M"
  using host_mprotect_cases [of p n prot h "fst (host_mprotect p n prot h)" "snd (host_mprotect p n prot h)"]
  by (auto elim!: own_inv_cong)

lemma cow_reset_simps [simp]:
  "hval (cow_reset c h) = hval h" "hblk (cow_reset c h) = hblk h" "os_mprotect_ok (cow_reset c h) = os_mprotect_ok h"
  by (auto simp: cow_reset_def Let_def split: option.splits)

lemma cow_disown_simps [simp]:
  "hval (cow_disown c h) = hval h" "hblk (cow_disown c h) = hblk h" "os_mprotect_ok (cow_disown c h) = os_mprotect_ok h"
  "hpages (cow_disown c h) = hpages h"
  by (auto simp: cow_disown_def Let_def split: option.splits)

lemma cow_reset_pages: "1 < cow_use_count h c \<Longrightarrow> hpages (cow_reset c h) = hpages h"
  by (auto simp: cow_reset_def cow_use_count_def split: option.splits)

lemma can_read_pages: "hpages h (page_of p) = Some (True, w) \<Longrightarrow> can_read h p"
  by (simp add: can_read_def)

lemma can_write_pages: "hpages h (page_of p) = Some (r, True) \<Longrightarrow> can_write h p"
  by (simp add: can_write_def)

text \<open>Adding pages of a fresh block, or making pages readable and writable, hurts nobody.\<close>

lemma prot_ok_mono:
  assumes "prot_ok h m" "\<And>q. m_pages m q \<Longrightarrow> hpages h' q = hpages h q \<or> hpages h' q = Some (True, True)"
  shows "prot_ok h' m"
  unfolding prot_ok_def
proof (intro allI impI)
  fix q assume q: "m_pages m q"
  show "\<exists>r w. hpages h' q = Some (r, w) \<and> r \<and> (bit (m_flags m) PF_W \<longrightarrow> w)"
    using assms(1) assms(2) [OF q] q unfolding prot_ok_def by fastforce
qed

subsection \<open>The break\<close>

definition broken :: "memmap \<Rightarrow> memmap \<Rightarrow> host \<Rightarrow> host \<Rightarrow> bool" where
  "broken m m' h h' \<longleftrightarrow> m_owned m' \<and> m_cow m' = None \<and> m_size m' = m_size m \<and> m_paddr m' = m_paddr m
     \<and> m_flags m' = m_flags m \<and> m_path m' = m_path m
     \<and> (\<forall>i < unat (m_size m). hval h' (hadd (m_data m') i) = hval h (hadd (m_data m) i))"

definition break_post :: "bool \<Rightarrow> memmap \<Rightarrow> memmap multiset \<Rightarrow> host \<Rightarrow> memmap option \<times> host \<Rightarrow> bool" where
  "break_post st m M h = (\<lambda>(r, h'). old_same h h' \<and>
     (case r of None \<Rightarrow> mem_ok st h' (add_mset m M)
      | Some m' \<Rightarrow> mem_ok st h' (add_mset m' M) \<and> broken m m' h h'))"

lemma break_cow_steal:
  assumes ok: "mem_ok st h (add_mset m M)" and c: "m_cow m = Some c" and one: "cow_use_count h c = 1"
  shows "runs st (break_cow m c h) (break_post st m M h)"
proof -
  let ?h = "cow_reset c (cow_disown c h)" and ?m = "m\<lparr>m_cow := None, m_owned := True\<rparr>"
  have inv: "own_inv h (add_mset m M)" using ok by (simp add: mem_ok_def)
  have h: "hpages ?h = hpages h" "hval ?h = hval h" "hblk ?h = hblk h" "os_mprotect_ok ?h = os_mprotect_ok h"
    using one by (auto simp: cow_use_count_def cow_reset_def cow_disown_def Let_def split: option.splits)
  have "prot_ok ?h x = prot_ok h x" "prot_ok ?h ?m = prot_ok h m" for x
    by (simp_all add: prot_ok_def h m_pages_def)
  then have "mem_ok st ?h (add_mset ?m M)"
    using ok own_inv_steal [OF inv c one] by (simp add: mem_ok_def h)
  then show ?thesis
    using one by (simp add: break_cow_def break_post_def broken_def old_same_def h)
qed

lemma copy_cow_runs:
  assumes ok: "mem_ok st h (add_mset m M)" and c: "m_cow m = Some c" and many: "1 < cow_use_count h c"
    and w: "bit (m_flags m) PF_W"
    and mm: "host_mmap h (unat (m_size m)) (cow_prot (m_flags m)) (\<lambda>_. 0) = (Some p, h1)"
  shows "runs st (copy_cow m c p h1) (break_post st m M h)"
proof -
  define n where "n = unat (m_size m)"
  define m' where "m' = set_data p (m_size m) True (m\<lparr>m_cow := None\<rparr>)"
  have inv: "own_inv h (add_mset m M)" using ok by (simp add: mem_ok_def)
  have own: "\<not> m_owned m" using own_invD(2) [OF inv, of m] c by (simp add: managed_def)
  note h1 = host_mmap_fresh(2) [OF mm refl, folded n_def]
  have m': "m_data m' = p" "m_owned m'" "m_dsize m' = m_size m'" "m_cow m' = None" "m_size m' = m_size m"
    "m_paddr m' = m_paddr m" "m_flags m' = m_flags m" "m_path m' = m_path m"
    by (simp_all add: m'_def set_data_def)
  have inv1: "own_inv h1 (add_mset m' (add_mset m M))"
    using own_inv_mmap [OF inv, of m' "cow_prot (m_flags m)" _ p h1] mm m' by simp
  obtain ok2 h2 where mp: "host_mprotect (m_data m) n PROT_READ h1 = (ok2, h2)" by fastforce
  note h2 = host_mprotect_cases [OF mp]
  have inv2: "own_inv h2 (add_mset m' (add_mset m M))"
    using own_inv_mprotect [OF inv1, of "m_data m" n PROT_READ] mp by simp
  have old: "hp_blk (m_data x) < hblk h" if "x \<in># add_mset m M" "m_pages x q" for x q
    using map_block_old [OF inv that(1), of 0] that(2) by (simp add: m_pages_def in_pages_def)
  have pg1: "hpages h1 q = hpages h q \<and> \<not> in_pages p n q" if "x \<in># add_mset m M" "m_pages x q" for x q
    using old [OF that] that h1 by (auto simp: m_pages_def in_pages_def)
  have dm: "hp_blk (m_data m) < hblk h"
    using map_block_old [OF inv, of m 0] h1 by (simp add: n_def)
  show ?thesis
  proof (cases ok2)
    case False
    have "own_inv (host_munmap p n h2) (add_mset m M)"
      using own_inv_delete [OF inv2] m' by (simp add: DataDeleter_def n_def)
    moreover have "prot_ok (host_munmap p n h2) x" if "x \<in># add_mset m M" "prot_ok h x" for x
      by (rule prot_ok_mono [OF that(2)]) (use pg1 [OF that(1)] h2(7) False in \<open>simp add: host_munmap_other\<close>)
    ultimately have "mem_ok st (host_munmap p n h2) (add_mset m M)"
      using ok h1 h2(5) by (simp add: mem_ok_def)
    then show ?thesis
      using mp False h1 h2 by (simp add: copy_cow_def n_def [symmetric] break_post_def old_same_def)
  next
    case True
    have pg2: "hpages h2 = (\<lambda>q. if in_pages (m_data m) n q then Some (True, False) else hpages h1 q)"
      using h2(6) True by (simp cong: if_cong)
    define bs where "bs = map (\<lambda>i. hval h2 (hadd (m_data m) i)) [0..<n]"
    define h3 where "h3 = h2\<lparr>hval := put_bytes p bs (hval h2)\<rparr>"
    obtain ok4 h4 where mp4: "host_mprotect (m_data m) n (prot_of_flags (m_flags m)) h3 = (ok4, h4)" by fastforce
    have "runs st (host_load h2 (m_data m) n) (\<lambda>b. b = bs)"
      unfolding bs_def by (rule host_load_runs) (auto intro!: can_read_pages [where w = False] simp: in_pages_byte pg2)
    moreover have "runs st (host_store h2 p bs) (\<lambda>h. h = h3)"
      unfolding h3_def
    proof (rule host_store_runs, intro allI impI)
      fix i assume "i < length bs"
      then have "in_pages p n (page_of (hadd p i))" by (simp add: bs_def in_pages_byte)
      then show "can_write h2 (hadd p i)"
        using h1 dm pg2 by (intro can_write_pages [where r = True]) (auto simp: in_pages_def)
    qed
    moreover have "break_post st m M h (Some m', cow_reset c h4)"
    proof -
      note h4 = host_mprotect_cases [OF mp4]
      have inv4: "own_inv h4 (add_mset m (add_mset m' M))"
        using own_inv_mprotect [of h3 _ "m_data m" n "prot_of_flags (m_flags m)"] inv2 mp4
        by (simp add: h3_def add_mset_commute)
      have cnt: "cow_use_count h4 c = cow_use_count h c"
        using h4(2) h2(2) h1 by (simp add: cow_use_count_def h3_def)
      have v: "hval h4 (hadd p i) = hval h (hadd (m_data m) i)" if "i < n" for i
        using that h1 h2(1) h4(1) dm by (simp add: h3_def put_bytes_in bs_def)
      have o: "old_same h (cow_reset c h4)"
        using h1 h2(1,3) h4(1,3) by (auto simp: old_same_def h3_def put_bytes_blk)
      have "prot_ok (cow_reset c h4) x" if st and x: "x \<in># add_mset m' M" for x
      proof -
        have mpT: "host_mprotect (m_data m) n PROT_READ h1 = (True, h2)" using mp True by simp
        have "os_mprotect_ok h3 k" for k
          using ok that(1) h1 h2(5) by (simp add: h3_def mem_ok_def)
        then have ok4
          using host_mprotect_again [OF mpT, of h3 "prot_of_flags (m_flags m)"] mp4 h2(8) by (simp add: h3_def)
        then have pg4: "hpages (cow_reset c h4) = (\<lambda>q. if in_pages (m_data m) n q then Some (True, True) else hpages h1 q)"
          using cow_reset_pages [of h4 c] cnt many h4(6) w pg2 by (auto simp: h3_def)
        show ?thesis
        proof (cases "x = m'")
          case True
          then show ?thesis
            using pg4 h1 m' by (auto simp: prot_ok_def m_pages_def n_def)
        next
          case False
          then have xM: "x \<in># add_mset m M" using x by simp
          then have "prot_ok h x" using ok \<open>st\<close> by (auto simp: mem_ok_def)
          then show ?thesis by (rule prot_ok_mono) (use pg1 [OF xM] pg4 in simp)
        qed
      qed
      then have "mem_ok st (cow_reset c h4) (add_mset m' M)"
        using own_inv_cow_reset [OF inv4 c] ok h1 h2(5) h4(5) by (simp add: mem_ok_def h3_def)
      then show ?thesis
        using o v m' by (simp add: break_post_def broken_def n_def)
    qed
    ultimately show ?thesis
      using mp True own mp4 unfolding copy_cow_def n_def [symmetric] m'_def [symmetric]
      by (auto simp: DataDeleter_def Let_def intro!: runs_bind [of st "host_load h2 (m_data m) n"] runs_bind [of st "host_store h2 p bs"])
  qed
qed

lemma break_cow_runs:
  assumes ok: "mem_ok st h (add_mset m M)" and c: "m_cow m = Some c" and w: "bit (m_flags m) PF_W"
  shows "runs st (break_cow m c h) (break_post st m M h)"
proof (cases "cow_use_count h c = 1")
  case True
  then show ?thesis by (rule break_cow_steal [OF ok c])
next
  case False
  have inv: "own_inv h (add_mset m M)" using ok by (simp add: mem_ok_def)
  have many: "1 < cow_use_count h c"
    using False by (rule_tac cow_refs_use [OF inv c]) (auto simp: cow_use_count_def)
  obtain r h1 where mm: "host_mmap h (unat (m_size m)) (cow_prot (m_flags m)) (\<lambda>_. 0) = (r, h1)" by fastforce
  show ?thesis
  proof (cases r)
    case None
    have h1: "h1 = h\<lparr>os_calls := Suc (os_calls h)\<rparr>" by (rule host_mmap_fresh(1) [OF mm None])
    show ?thesis
      using many mm ok None by (simp add: break_cow_def break_post_def h1 old_same_def)
  next
    case (Some p)
    then show ?thesis
      using copy_cow_runs [OF ok c many w, of p h1] many mm by (simp add: break_cow_def)
  qed
qed

end
