(* ===== verification/Addr_Space.thy ===== *)
theory Addr_Space
  imports Copy_On_Write
begin

text \<open>
  A guest address space is the vector vm::maps, sorted by guest address. The theory has the
  binary search of vm::find_map_locked, the insertion of vm::addmem and the removal of vm::unmap
  (src/insn.cpp), the invariant that mappings are nonempty, sorted, disjoint and end below 2^64, and the
  byte view a guest has of its memory.
\<close>

definition m_lo :: "memmap \<Rightarrow> nat" where
  "m_lo m = unat (m_paddr m)"

definition m_hi :: "memmap \<Rightarrow> nat" where
  "m_hi m = unat (m_paddr m) + unat (m_size m)"

definition as_ok :: "memmap list \<Rightarrow> bool" where
  "as_ok ms \<longleftrightarrow> sorted_wrt (\<lambda>a b. m_hi a \<le> m_lo b) ms \<and> (\<forall>m \<in> set ms. m_lo m < m_hi m \<and> m_hi m < 2 ^ 64)"

text \<open>std::upper_bound over the vector, on the subrange of len elements from first.\<close>

function upper_bound :: "u64 \<Rightarrow> memmap list \<Rightarrow> nat \<Rightarrow> nat \<Rightarrow> nat" where
  "upper_bound a ms first len =
     (if len = 0 then first
      else (let half = len div 2; middle = first + half in
            if a < m_paddr (ms ! middle) then upper_bound a ms first half
            else upper_bound a ms (Suc middle) (len - half - 1)))"
  by pat_completeness auto
termination upper_bound
  by (relation "measure (\<lambda>(a, ms, first, len). len)") auto

declare upper_bound.simps [simp del]

definition find_map_locked :: "memmap list \<Rightarrow> u64 \<Rightarrow> u64 \<Rightarrow> nat option" where
  "find_map_locked ms a n =
     (let e = a + n in
      if e < a then None
      else (let k = upper_bound a ms 0 (length ms) in
            if k = 0 then None
            else (let m = ms ! (k - 1) in
                  if e \<le> m_paddr m + m_size m then Some (k - 1) else None)))"

text \<open>vm::addmem: insertion before the first mapping whose address is not smaller.\<close>

definition insert_map :: "memmap \<Rightarrow> memmap list \<Rightarrow> memmap list" where
  "insert_map m ms = takeWhile (\<lambda>x. m_paddr x < m_paddr m) ms @ m # dropWhile (\<lambda>x. m_paddr x < m_paddr m) ms"

text \<open>vm::unmap: the first mapping that starts at the address is taken out.\<close>

fun remove_at :: "u64 \<Rightarrow> memmap list \<Rightarrow> (memmap \<times> memmap list) option" where
  "remove_at a [] = None"
| "remove_at a (m # ms) =
     (if m_paddr m = a then Some (m, ms)
      else (case remove_at a ms of None \<Rightarrow> None | Some (x, ms') \<Rightarrow> Some (x, m # ms')))"

text \<open>The byte view of the guest.\<close>

definition covers :: "memmap \<Rightarrow> u64 \<Rightarrow> u64 \<Rightarrow> bool" where
  "covers m a n \<longleftrightarrow> m_lo m \<le> unat a \<and> unat a + unat n \<le> m_hi m"

definition resolve :: "memmap list \<Rightarrow> u64 \<Rightarrow> u64 \<Rightarrow> hptr option" where
  "resolve ms a n = map_option (\<lambda>m. m_off m a) (find (\<lambda>m. covers m a n) ms)"

definition gbyte :: "host \<Rightarrow> memmap list \<Rightarrow> u64 \<Rightarrow> u8 option" where
  "gbyte h ms a = map_option (hval h) (resolve ms a 1)"

subsection \<open>Search\<close>

lemma as_ok_mono:
  assumes "as_ok ms" "i \<le> j" "j < length ms"
  shows "m_paddr (ms ! i) \<le> m_paddr (ms ! j)"
proof (cases "i = j")
  case False
  then have "m_hi (ms ! i) \<le> m_lo (ms ! j)"
    using assms by (auto simp: as_ok_def intro: sorted_wrt_nth_less)
  then show ?thesis by (simp add: m_hi_def m_lo_def word_le_nat_alt)
qed simp

lemma upper_bound_spec:
  assumes "as_ok ms" "first + len \<le> length ms"
    "\<And>i. i < first \<Longrightarrow> m_paddr (ms ! i) \<le> a"
    "\<And>i. \<lbrakk>first + len \<le> i; i < length ms\<rbrakk> \<Longrightarrow> a < m_paddr (ms ! i)"
  shows "upper_bound a ms first len \<le> length ms
    \<and> (\<forall>i < upper_bound a ms first len. m_paddr (ms ! i) \<le> a)
    \<and> (\<forall>i < length ms. upper_bound a ms first len \<le> i \<longrightarrow> a < m_paddr (ms ! i))"
  using assms(2-)
proof (induction len arbitrary: first rule: less_induct)
  case (less len)
  show ?case
  proof (cases "len = 0")
    case True
    then show ?thesis using less.prems by (simp add: upper_bound.simps)
  next
    case False
    define mid where "mid = first + len div 2"
    have mid: "mid < length ms" using False less.prems(1) by (simp add: mid_def)
    show ?thesis
    proof (cases "a < m_paddr (ms ! mid)")
      case True
      have "a < m_paddr (ms ! i)" if "first + len div 2 \<le> i" "i < length ms" for i
        using as_ok_mono [OF assms(1) _ that(2), of mid] that(1) True order_less_le_trans by (auto simp: mid_def)
      moreover have "upper_bound a ms first len = upper_bound a ms first (len div 2)"
        using False True by (subst upper_bound.simps) (simp add: Let_def mid_def)
      moreover have "len div 2 < len" "first + len div 2 \<le> length ms"
        using False less.prems(1) by auto
      ultimately show ?thesis
        using less.IH [OF _ _ less.prems(2), of "len div 2"] by metis
    next
      case a: False
      have "m_paddr (ms ! i) \<le> a" if "i < Suc mid" for i
        using as_ok_mono [OF assms(1) _ mid, of i] that a by auto
      moreover have "upper_bound a ms first len = upper_bound a ms (Suc mid) (len - len div 2 - 1)"
        using False a by (subst upper_bound.simps) (simp add: Let_def mid_def)
      moreover have "Suc mid + (len - len div 2 - 1) = first + len" "len - len div 2 - 1 < len"
        using False by (auto simp: mid_def)
      ultimately show ?thesis
        using less.IH [of "len - len div 2 - 1" "Suc mid"] less.prems(1,3) by metis
    qed
  qed
qed

lemma word_add_nat:
  "unat (a :: u64) + unat n < 2 ^ 64 \<Longrightarrow> unat (a + n) = unat a + unat n"
  by (simp add: unat_word_ariths)

lemma wrap_iff: "(a + n < a) \<longleftrightarrow> 2 ^ 64 \<le> unat (a :: u64) + unat n"
proof (cases "2 ^ 64 \<le> unat a + unat n")
  case True
  have lt: "unat a < 2 ^ 64" "unat n < 2 ^ 64"
    using unsigned_less [of a, where 'a = nat] unsigned_less [of n, where 'a = nat] by simp_all
  have "unat (a + n) = (unat a + unat n) mod 2 ^ 64" by (simp add: unat_word_ariths)
  also have "\<dots> = unat a + unat n - 2 ^ 64"
    using True lt by (simp add: le_mod_geq)
  finally show ?thesis
    using True lt by (simp add: word_less_nat_alt)
qed (simp add: word_less_nat_alt word_add_nat)

lemma m_end: "m_hi m < 2 ^ 64 \<Longrightarrow> unat (m_paddr m + m_size m) = m_hi m"
  by (simp add: m_hi_def word_add_nat)

lemma as_ok_disjoint:
  assumes "as_ok ms" "i < length ms" "j < length ms" "m_lo (ms ! i) \<le> x" "x < m_hi (ms ! i)" "m_lo (ms ! j) \<le> x" "x < m_hi (ms ! j)"
  shows "i = j"
proof -
  have "m_hi (ms ! i) \<le> m_lo (ms ! j)" if "i < j" "j < length ms" for i j
    using assms(1) that by (auto simp: as_ok_def intro: sorted_wrt_nth_less)
  then show ?thesis using assms(2-) by (metis leD le_trans linorder_neqE_nat)
qed

lemma find_map_locked_iff:
  assumes ok: "as_ok ms" and n: "0 < n"
  shows "find_map_locked ms a n = Some i \<longleftrightarrow> i < length ms \<and> covers (ms ! i) a n"
proof -
  define k where "k = upper_bound a ms 0 (length ms)"
  have k: "k \<le> length ms" "\<And>i. i < k \<Longrightarrow> m_paddr (ms ! i) \<le> a" "\<And>i. \<lbrakk>i < length ms; k \<le> i\<rbrakk> \<Longrightarrow> a < m_paddr (ms ! i)"
    using upper_bound_spec [OF ok, of 0 "length ms" a] by (auto simp: k_def)
  have hi: "m_hi (ms ! j) < 2 ^ 64" if "j < length ms" for j
    using ok that by (simp add: as_ok_def)
  have n0: "0 < unat n" using n by (simp add: word_less_nat_alt)
  have last: "i = k - 1 \<and> 0 < k" if i: "i < length ms" "covers (ms ! i) a n"
  proof -
    have "i < k" using k(3) [of i] i by (fastforce simp: covers_def m_lo_def word_less_nat_alt)
    moreover have "\<not> i < k - 1"
    proof
      assume lt: "i < k - 1"
      then have "m_hi (ms ! i) \<le> m_lo (ms ! (k - 1))"
        using ok k(1) by (auto simp: as_ok_def intro: sorted_wrt_nth_less)
      moreover have "m_lo (ms ! (k - 1)) \<le> unat a"
        using k(2) [of "k - 1"] lt by (simp add: m_lo_def word_le_nat_alt)
      ultimately show False using i n0 by (simp add: covers_def)
    qed
    ultimately show ?thesis by simp
  qed
  have "find_map_locked ms a n = Some i \<longleftrightarrow> \<not> 2 ^ 64 \<le> unat a + unat n \<and> 0 < k \<and> i = k - 1
      \<and> a + n \<le> m_paddr (ms ! i) + m_size (ms ! i)"
    by (auto simp: find_map_locked_def Let_def wrap_iff simp flip: k_def)
  also have "\<dots> \<longleftrightarrow> \<not> 2 ^ 64 \<le> unat a + unat n \<and> 0 < k \<and> i = k - 1 \<and> unat a + unat n \<le> m_hi (ms ! i)"
    using hi [of i] k(1) by (auto simp: word_le_nat_alt word_add_nat m_end)
  also have "\<dots> \<longleftrightarrow> i < length ms \<and> covers (ms ! i) a n"
    using last k(1,2) hi [of i] by (auto simp: covers_def m_lo_def word_le_nat_alt)
  finally show ?thesis .
qed

text \<open>A range of no bytes may end where its mapping ends.\<close>

lemma find_map_locked_covers:
  assumes ok: "as_ok ms" and f: "find_map_locked ms a n = Some i"
  shows "i < length ms" "covers (ms ! i) a n"
proof -
  define k where "k = upper_bound a ms 0 (length ms)"
  have k: "k \<le> length ms" "\<And>i. i < k \<Longrightarrow> m_paddr (ms ! i) \<le> a"
    using upper_bound_spec [OF ok, of 0 "length ms" a] by (auto simp: k_def)
  have i: "\<not> 2 ^ 64 \<le> unat a + unat n" "0 < k" "i = k - 1" "a + n \<le> m_paddr (ms ! i) + m_size (ms ! i)"
    using f by (auto simp: find_map_locked_def Let_def wrap_iff simp flip: k_def split: if_splits)
  then show "i < length ms" using k(1) by simp
  then have "m_hi (ms ! i) < 2 ^ 64" using ok by (simp add: as_ok_def)
  then show "covers (ms ! i) a n"
    using i k(2) [of i] by (auto simp: covers_def m_lo_def m_end word_le_nat_alt word_add_nat)
qed

lemma find_map_locked_None:
  "\<lbrakk>as_ok ms; 0 < n; find_map_locked ms a n = None\<rbrakk> \<Longrightarrow> m \<in> set ms \<Longrightarrow> \<not> covers m a n"
  by (metis find_map_locked_iff in_set_conv_nth option.distinct(1))

lemma covers_unique:
  assumes "as_ok ms" "0 < n" "i < length ms" "j < length ms" "covers (ms ! i) a n" "covers (ms ! j) a n"
  shows "i = j"
  using find_map_locked_iff [OF assms(1,2), of a] assms(3-) by (metis option.inject)

lemma find_covers:
  assumes "as_ok ms" "0 < n"
  shows "find (\<lambda>m. covers m a n) ms = map_option ((!) ms) (find_map_locked ms a n)"
proof (cases "find_map_locked ms a n")
  case None
  then show ?thesis using find_map_locked_None [OF assms] by (auto simp: find_None_iff)
next
  case (Some i)
  then have "i < length ms" "covers (ms ! i) a n" using find_map_locked_iff [OF assms] by auto
  moreover have "\<not> covers (ms ! j) a n" if "j < i" for j
    using covers_unique [OF assms, of i j a] calculation that by auto
  ultimately show ?thesis using Some by (auto simp: find_Some_iff)
qed

lemma resolve_find:
  "\<lbrakk>as_ok ms; 0 < n\<rbrakk> \<Longrightarrow> resolve ms a n = map_option (\<lambda>i. m_off (ms ! i) a) (find_map_locked ms a n)"
  by (simp add: resolve_def find_covers option.map_comp comp_def)

lemma resolve_covers:
  assumes "as_ok ms" "0 < n" "m \<in> set ms" "covers m a n"
  shows "resolve ms a n = Some (m_off m a)"
proof -
  obtain i where "i < length ms" "m = ms ! i" using assms(3) by (auto simp: in_set_conv_nth)
  then show ?thesis using find_map_locked_iff [OF assms(1,2), of a i] assms by (simp add: resolve_find)
qed

lemma resolve_Some:
  assumes "resolve ms a n = Some p"
  obtains m where "m \<in> set ms" "covers m a n" "p = m_off m a"
  using assms nth_mem unfolding resolve_def by (fastforce simp: find_Some_iff)

text \<open>Offsets into a covered range.\<close>

lemma covers_byte:
  assumes "covers m a n" "m_hi m < 2 ^ 64" "i < unat n"
  shows "covers m (a + of_nat i) 1" "m_off m (a + of_nat i) = hadd (m_off m a) i"
    "unat (a - m_paddr m) + i < unat (m_size m)"
proof -
  have i: "unat (of_nat i :: u64) = i" and ai: "unat (a + of_nat i) = unat a + i"
  proof -
    have "i < 2 ^ 64" using assms by (simp add: covers_def)
    then show i: "unat (of_nat i :: u64) = i" by (simp add: unsigned_of_nat take_bit_eq_mod)
    show "unat (a + of_nat i) = unat a + i"
      using assms i word_add_nat [of a "of_nat i"] by (simp add: covers_def)
  qed
  have le: "m_paddr m \<le> a" "m_paddr m \<le> a + of_nat i"
    using assms ai by (simp_all add: covers_def m_lo_def word_le_nat_alt)
  show "covers m (a + of_nat i) 1" using assms ai by (simp add: covers_def)
  show "m_off m (a + of_nat i) = hadd (m_off m a) i"
    using le ai by (simp add: m_off_def unat_sub word_le_nat_alt)
  show "unat (a - m_paddr m) + i < unat (m_size m)"
    using le assms by (simp add: unat_sub covers_def m_hi_def m_lo_def word_le_nat_alt)
qed

subsection \<open>Insertion and removal\<close>

definition disjoint_from :: "memmap \<Rightarrow> memmap list \<Rightarrow> bool" where
  "disjoint_from m ms \<longleftrightarrow> (\<forall>x \<in> set ms. m_hi x \<le> m_lo m \<or> m_hi m \<le> m_lo x)"

lemma as_ok_Cons:
  "as_ok (m # ms) \<longleftrightarrow> m_lo m < m_hi m \<and> m_hi m < 2 ^ 64 \<and> (\<forall>x \<in> set ms. m_hi m \<le> m_lo x) \<and> as_ok ms"
  by (auto simp: as_ok_def)

lemma as_ok_append:
  "as_ok (xs @ ys) \<longleftrightarrow> as_ok xs \<and> as_ok ys \<and> (\<forall>x \<in> set xs. \<forall>y \<in> set ys. m_hi x \<le> m_lo y)"
  by (auto simp: as_ok_def sorted_wrt_append)

lemma mset_insert_map [simp]: "mset (insert_map m ms) = add_mset m (mset ms)"
  using mset_append [of "takeWhile (\<lambda>x. m_paddr x < m_paddr m) ms" "dropWhile (\<lambda>x. m_paddr x < m_paddr m) ms"]
  by (simp add: insert_map_def)

lemma set_insert_map [simp]: "set (insert_map m ms) = insert m (set ms)"
  by (metis mset_insert_map set_mset_add_mset_insert set_mset_mset)

lemma as_ok_insert_map:
  assumes "as_ok ms" "m_lo m < m_hi m" "m_hi m < 2 ^ 64" "disjoint_from m ms"
  shows "as_ok (insert_map m ms)"
  using assms(1,4)
proof (induction ms)
  case Nil
  then show ?case using assms(2,3) by (simp add: insert_map_def as_ok_def)
next
  case (Cons x ms)
  have x: "m_lo x < m_hi x" "\<forall>y \<in> set ms. m_hi x \<le> m_lo y" "as_ok ms" "m_hi x < 2 ^ 64"
    using Cons.prems by (simp_all add: as_ok_Cons)
  have dx: "m_hi x \<le> m_lo m \<or> m_hi m \<le> m_lo x" "disjoint_from m ms"
    using Cons.prems by (simp_all add: disjoint_from_def)
  show ?case
  proof (cases "m_paddr x < m_paddr m")
    case True
    then have "insert_map m (x # ms) = x # insert_map m ms" by (simp add: insert_map_def)
    moreover have "m_hi x \<le> m_lo m"
      using True dx(1) assms(2) by (auto simp: m_lo_def word_less_nat_alt)
    ultimately show ?thesis using x Cons.IH [OF x(3) dx(2)] by (auto simp: as_ok_Cons)
  next
    case False
    then have "insert_map m (x # ms) = m # x # ms" by (simp add: insert_map_def)
    moreover have "m_hi m \<le> m_lo x"
      using False dx(1) x(1) by (auto simp: m_lo_def word_less_nat_alt)
    ultimately show ?thesis using x Cons.prems(1) assms(2,3) by (fastforce simp: as_ok_Cons)
  qed
qed

lemma remove_at_mset: "remove_at a ms = Some (m, ms') \<Longrightarrow> mset ms = add_mset m (mset ms') \<and> m_paddr m = a"
  by (induction ms arbitrary: ms') (auto split: if_splits option.splits)

lemma remove_at_set: "remove_at a ms = Some (m, ms') \<Longrightarrow> set ms' \<subseteq> set ms"
  by (induction ms arbitrary: ms') (auto split: if_splits option.splits)

lemma as_ok_remove_at: "\<lbrakk>as_ok ms; remove_at a ms = Some (m, ms')\<rbrakk> \<Longrightarrow> as_ok ms'"
proof (induction ms arbitrary: ms')
  case (Cons x ms)
  then show ?case
    using remove_at_set [of a ms m] by (fastforce simp: as_ok_Cons split: if_splits option.splits)
qed simp

lemma remove_at_None: "remove_at a ms = None \<longleftrightarrow> (\<forall>m \<in> set ms. m_paddr m \<noteq> a)"
  by (induction ms) (auto split: option.splits)

subsection \<open>Equal views\<close>

text \<open>Two address spaces with the same guest layout that show the same bytes.\<close>

definition same_map :: "host \<Rightarrow> host \<Rightarrow> memmap \<Rightarrow> memmap \<Rightarrow> bool" where
  "same_map h h' m m' \<longleftrightarrow> m_paddr m' = m_paddr m \<and> m_size m' = m_size m \<and> m_flags m' = m_flags m
     \<and> (\<forall>i < unat (m_size m). hval h' (hadd (m_data m') i) = hval h (hadd (m_data m) i))"

definition same_view :: "host \<Rightarrow> memmap list \<Rightarrow> host \<Rightarrow> memmap list \<Rightarrow> bool" where
  "same_view h ms h' ms' = list_all2 (same_map h h') ms ms'"

lemma same_map_covers: "same_map h h' m m' \<Longrightarrow> covers m' a n = covers m a n"
  by (simp add: same_map_def covers_def m_lo_def m_hi_def)

lemma same_view_gbyte:
  assumes "same_view h ms h' ms'" "as_ok ms"
  shows "gbyte h' ms' a = gbyte h ms a"
  using assms unfolding same_view_def
proof (induction rule: list_all2_induct)
  case (Cons m ms m' ms')
  have hi: "m_hi m < 2 ^ 64" using Cons.prems by (simp add: as_ok_Cons)
  show ?case
  proof (cases "covers m a 1")
    case True
    have "unat (a - m_paddr m) < unat (m_size m)" using covers_byte(3) [OF True hi, of 0] by simp
    then show ?thesis
      using True Cons.hyps(1) same_map_covers [OF Cons.hyps(1)]
      by (simp add: gbyte_def resolve_def m_off_def same_map_def)
  next
    case False
    then show ?thesis
      using Cons same_map_covers [OF Cons.hyps(1)] by (simp add: gbyte_def resolve_def as_ok_Cons)
  qed
qed (simp add: gbyte_def resolve_def)

lemma same_view_as_ok: "same_view h ms h' ms' \<Longrightarrow> as_ok ms \<Longrightarrow> as_ok ms'"
  unfolding same_view_def
proof (induction rule: list_all2_induct)
  case (Cons m ms m' ms')
  have "\<forall>x' \<in> set ms'. \<exists>x \<in> set ms. same_map h h' x x'"
    using Cons.hyps(2) by (metis list_all2_conv_all_nth in_set_conv_nth)
  then show ?case
    using Cons by (fastforce simp: as_ok_Cons same_map_def m_lo_def m_hi_def)
qed simp

end
