(* ===== verification/Mmu.thy ===== *)
theory Mmu
  imports Addr_Space
begin

text \<open>
  The state of class vm (src/insn.h) and its memory management unit: the translation lookaside
  buffer, vm::mmu and vm::mmu_w with their slow paths, vm::addmem, vm::unmap and vm::flush_tlb
  (src/insn.cpp). The invariant vm_ok ties the address space, the TLB and the ownership of host
  pages together, over the memmaps of this machine and of all other address spaces.
\<close>

record TlbEntry =
  e_base :: u64
  e_end :: u64
  e_host :: "hptr option"
  e_flags :: u32
  e_cow :: bool

record 'h vm =
  v_pc :: u64
  v_reg :: "nat \<Rightarrow> u64"
  v_flags :: u32
  v_insn_count :: u64
  v_tlb :: "nat \<Rightarrow> TlbEntry"
  v_maps :: "memmap list"
  v_host :: host
  v_signal_depth :: u64
  v_interp_insns :: u64
  v_tp :: u64
  v_restart_pc :: u64
  v_restart_nohand :: bool
  v_raw_stack :: bool
  v_insn_limit :: u64
  v_stack_limit :: u64
  v_sys :: 'h
  v_env :: "u32 list"

text \<open>
  v_sys is the state of the syscall handler; v_env lists the values the flags take, set by other
  threads, each time a condition variable wakes this one.
\<close>

definition TLB_SIZE :: nat where "TLB_SIZE = 2048"

definition tlb_index :: "u64 \<Rightarrow> nat" where
  "tlb_index addr = unat ((drop_bit 12 addr XOR drop_bit 20 addr) AND (of_nat TLB_SIZE - 1))"

definition tlb_zero :: TlbEntry where
  "tlb_zero = \<lparr>e_base = 0, e_end = 0, e_host = None, e_flags = 0, e_cow = False\<rparr>"

definition tlb_of :: "memmap \<Rightarrow> TlbEntry" where
  "tlb_of m = \<lparr>e_base = m_paddr m, e_end = m_paddr m + m_size m, e_host = Some (m_data m),
               e_flags = m_flags m, e_cow = (m_cow m \<noteq> None)\<rparr>"

definition flush_tlb :: "'h vm \<Rightarrow> 'h vm" where
  "flush_tlb s = s\<lparr>v_tlb := (\<lambda>_. tlb_zero)\<rparr>"

definition fill_tlb :: "u64 \<Rightarrow> memmap \<Rightarrow> 'h vm \<Rightarrow> 'h vm" where
  "fill_tlb a m s = s\<lparr>v_tlb := (v_tlb s)(tlb_index a := tlb_of m)\<rparr>"

definition tlb_hit :: "TlbEntry \<Rightarrow> u64 \<Rightarrow> u64 \<Rightarrow> bool" where
  "tlb_hit e a n \<longleftrightarrow> e_base e \<le> a \<and> a + n \<le> e_end e"

definition tlb_ptr :: "TlbEntry \<Rightarrow> u64 \<Rightarrow> hptr option" where
  "tlb_ptr e a = map_option (\<lambda>p. hadd p (unat (a - e_base e))) (e_host e)"

definition mmu_slow :: "'h vm \<Rightarrow> u64 \<Rightarrow> u64 \<Rightarrow> hptr option \<times> 'h vm" where
  "mmu_slow s a n =
     (case find_map_locked (v_maps s) a n of
        None \<Rightarrow> (None, s)
      | Some i \<Rightarrow> (let m = v_maps s ! i in (Some (m_off m a), fill_tlb a m s)))"

definition mmu :: "'h vm \<Rightarrow> u64 \<Rightarrow> u64 \<Rightarrow> hptr option \<times> 'h vm" where
  "mmu s a n =
     (if a + n < a then (None, s)
      else (let e = v_tlb s (tlb_index a) in
            if tlb_hit e a n then (tlb_ptr e a, s) else mmu_slow s a n))"

definition mmu_w_slow :: "'h vm \<Rightarrow> u64 \<Rightarrow> u64 \<Rightarrow> (hptr option \<times> 'h vm) option" where
  "mmu_w_slow s a n =
     (case find_map_locked (v_maps s) a n of
        None \<Rightarrow> Some (None, s)
      | Some i \<Rightarrow>
         (let m = v_maps s ! i in
          if \<not> bit (m_flags m) PF_W then Some (None, s)
          else (case m_cow m of
                  None \<Rightarrow> Some (Some (m_off m a), fill_tlb a m s)
                | Some c \<Rightarrow> do {
                    (r, h) \<leftarrow> break_cow m c (v_host s);
                    (case r of
                       None \<Rightarrow> Some (None, s\<lparr>v_host := h\<rparr>)
                     | Some m' \<Rightarrow>
                        Some (Some (m_off m' a),
                              fill_tlb a m' (flush_tlb (s\<lparr>v_host := h, v_maps := (v_maps s)[i := m']\<rparr>))))
                  })))"

definition mmu_w :: "'h vm \<Rightarrow> u64 \<Rightarrow> u64 \<Rightarrow> (hptr option \<times> 'h vm) option" where
  "mmu_w s a n =
     (if a + n < a then Some (None, s)
      else (let e = v_tlb s (tlb_index a) in
            if tlb_hit e a n \<and> bit (e_flags e) PF_W \<and> \<not> e_cow e then Some (tlb_ptr e a, s)
            else mmu_w_slow s a n))"

definition addmem :: "memmap \<Rightarrow> 'h vm \<Rightarrow> 'h vm" where
  "addmem m s = flush_tlb (s\<lparr>v_maps := insert_map m (v_maps s)\<rparr>)"

definition unmap :: "u64 \<Rightarrow> 'h vm \<Rightarrow> bool \<times> 'h vm" where
  "unmap a s =
     (case remove_at a (v_maps s) of
        None \<Rightarrow> (False, s)
      | Some (m, ms) \<Rightarrow> (True, flush_tlb (s\<lparr>v_maps := ms, v_host := memmap_destroy m (v_host s)\<rparr>)))"

subsection \<open>The invariant\<close>

definition tlb_ok :: "memmap list \<Rightarrow> (nat \<Rightarrow> TlbEntry) \<Rightarrow> bool" where
  "tlb_ok ms t \<longleftrightarrow> (\<forall>i. t i = tlb_zero \<or> (\<exists>m \<in> set ms. t i = tlb_of m))"

definition vm_ok :: "bool \<Rightarrow> memmap multiset \<Rightarrow> 'h vm \<Rightarrow> bool" where
  "vm_ok st rest s \<longleftrightarrow> as_ok (v_maps s) \<and> tlb_ok (v_maps s) (v_tlb s)
     \<and> mem_ok st (v_host s) (mset (v_maps s) + rest)"

text \<open>The other address spaces keep their bytes.\<close>

definition isolated :: "memmap multiset \<Rightarrow> host \<Rightarrow> host \<Rightarrow> bool" where
  "isolated rest h h' \<longleftrightarrow> (\<forall>m \<in># rest. \<forall>i < unat (m_size m). hval h' (hadd (m_data m) i) = hval h (hadd (m_data m) i))"

definition step_ok :: "bool \<Rightarrow> memmap multiset \<Rightarrow> 'h vm \<Rightarrow> 'h vm \<Rightarrow> bool" where
  "step_ok st rest s s' \<longleftrightarrow> vm_ok st rest s' \<and> isolated rest (v_host s) (v_host s')"

abbreviation mem_at :: "'h vm \<Rightarrow> u64 \<Rightarrow> u8 option" where
  "mem_at s \<equiv> gbyte (v_host s) (v_maps s)"

lemma isolated_refl [simp]: "isolated rest h h"
  by (simp add: isolated_def)

lemma isolated_trans: "\<lbrakk>isolated rest h h'; isolated rest h' h''\<rbrakk> \<Longrightarrow> isolated rest h h''"
  by (simp add: isolated_def)

lemma step_ok_refl: "vm_ok st rest s \<Longrightarrow> step_ok st rest s s"
  by (simp add: step_ok_def)

lemma step_ok_trans: "\<lbrakk>step_ok st rest s s'; step_ok st rest s' s''\<rbrakk> \<Longrightarrow> step_ok st rest s s''"
  by (auto simp: step_ok_def intro: isolated_trans)

lemma step_ok_vm_ok: "step_ok st rest s s' \<Longrightarrow> vm_ok st rest s'"
  by (simp add: step_ok_def)

lemma old_same_isolated:
  assumes "old_same h h'" "mem_ok st h (M + rest)"
  shows "isolated rest h h'"
  using assms map_block_old [of h "M + rest"] by (auto simp: isolated_def old_same_def mem_ok_def)

lemma tlb_index_bound: "tlb_index a < TLB_SIZE"
proof -
  have "(drop_bit 12 a XOR drop_bit 20 a) AND (2047 :: u64) \<le> 2047"
    by (rule word_and_le1)
  then show ?thesis by (simp add: tlb_index_def TLB_SIZE_def word_le_nat_alt)
qed

lemma tlb_ok_flush [simp]: "tlb_ok ms (v_tlb (flush_tlb s))"
  by (simp add: tlb_ok_def flush_tlb_def)

lemma tlb_ok_fill: "\<lbrakk>tlb_ok ms (v_tlb s); m \<in> set ms\<rbrakk> \<Longrightarrow> tlb_ok ms (v_tlb (fill_tlb a m s))"
  by (auto simp: tlb_ok_def fill_tlb_def)

lemma flush_fill_simps [simp]:
  "v_maps (flush_tlb s) = v_maps s" "v_host (flush_tlb s) = v_host s" "v_reg (flush_tlb s) = v_reg s"
  "v_pc (flush_tlb s) = v_pc s"
  "v_maps (fill_tlb a m s) = v_maps s" "v_host (fill_tlb a m s) = v_host s" "v_reg (fill_tlb a m s) = v_reg s"
  "v_pc (fill_tlb a m s) = v_pc s"
  by (simp_all add: flush_tlb_def fill_tlb_def)

subsection \<open>Translation for reading\<close>

lemma tlb_hit_covers:
  assumes ok: "as_ok ms" "tlb_ok ms t" and n: "0 < n \<or> t i \<noteq> tlb_zero" "\<not> a + n < a" and hit: "tlb_hit (t i) a n"
  obtains m where "m \<in> set ms" "t i = tlb_of m" "covers m a n" "tlb_ptr (t i) a = Some (m_off m a)"
proof -
  have "unat a + unat n < 2 ^ 64"
    using n wrap_iff [of a n] by (simp_all add: word_less_nat_alt)
  then have sum: "unat (a + n) = unat a + unat n" by (simp add: word_add_nat)
  have "t i \<noteq> tlb_zero"
    using hit sum n(1) by (auto simp: tlb_hit_def tlb_zero_def word_less_nat_alt)
  then obtain m where m: "m \<in> set ms" "t i = tlb_of m"
    using ok(2) by (auto simp: tlb_ok_def)
  have "m_hi m < 2 ^ 64" using ok(1) m(1) by (simp add: as_ok_def)
  then have "covers m a n"
    using hit m(2) sum by (simp add: tlb_hit_def tlb_of_def covers_def m_lo_def m_end word_le_nat_alt)
  then show ?thesis using that m by (simp add: tlb_ptr_def tlb_of_def m_off_def)
qed

lemma mmu_spec:
  assumes ok: "as_ok (v_maps s)" "tlb_ok (v_maps s) (v_tlb s)" and n: "0 < n"
  obtains t where "mmu s a n = (resolve (v_maps s) a n, s\<lparr>v_tlb := t\<rparr>)" "tlb_ok (v_maps s) t"
    "\<And>p. resolve (v_maps s) a n = Some p \<Longrightarrow> \<exists>m \<in> set (v_maps s). covers m a n \<and> p = m_off m a \<and> t (tlb_index a) = tlb_of m"
proof (cases "a + n < a")
  case True
  then have "find_map_locked (v_maps s) a n = None" by (simp add: find_map_locked_def)
  then have "resolve (v_maps s) a n = None" using ok n by (simp add: resolve_find)
  then show ?thesis using that [of "v_tlb s"] True ok by (simp add: mmu_def)
next
  case nw: False
  show ?thesis
  proof (cases "tlb_hit (v_tlb s (tlb_index a)) a n")
    case True
    obtain m where m: "m \<in> set (v_maps s)" "v_tlb s (tlb_index a) = tlb_of m" "covers m a n"
      "tlb_ptr (v_tlb s (tlb_index a)) a = Some (m_off m a)"
      using tlb_hit_covers [OF ok disjI1 [OF n] nw True] by metis
    then show ?thesis
      using that [of "v_tlb s"] nw True ok resolve_covers [OF ok(1) n m(1,3)] by (auto simp: mmu_def)
  next
    case False
    show ?thesis
    proof (cases "find_map_locked (v_maps s) a n")
      case None
      then show ?thesis
        using that [of "v_tlb s"] nw False ok n by (simp add: mmu_def mmu_slow_def resolve_find)
    next
      case (Some i)
      then have i: "i < length (v_maps s)" "covers (v_maps s ! i) a n"
        using find_map_locked_iff [OF ok(1) n] by auto
      show ?thesis
      proof (rule that)
        show "mmu s a n = (resolve (v_maps s) a n, s\<lparr>v_tlb := (v_tlb s)(tlb_index a := tlb_of (v_maps s ! i))\<rparr>)"
          using nw False ok n Some by (simp add: mmu_def mmu_slow_def resolve_find fill_tlb_def Let_def)
        show "tlb_ok (v_maps s) ((v_tlb s)(tlb_index a := tlb_of (v_maps s ! i)))"
          using ok(2) i by (auto simp: tlb_ok_def)
      qed (use i ok n Some in \<open>auto simp: resolve_find\<close>)
    qed
  qed
qed

lemma vm_okD:
  assumes "vm_ok st rest s"
  shows "as_ok (v_maps s)" "tlb_ok (v_maps s) (v_tlb s)" "mem_ok st (v_host s) (mset (v_maps s) + rest)"
  using assms by (simp_all add: vm_ok_def)

text \<open>Reading a translated range does not fault in strict mode.\<close>

lemma covered_page:
  assumes "covers m a n" "m_hi m < 2 ^ 64" "i < unat n"
  shows "m_pages m (page_of (hadd (m_off m a) i))"
  using covers_byte(3) [OF assms] m_pages_byte [of "unat (a - m_paddr m) + i" m] by (simp add: m_off_def)

lemma covered_readable:
  assumes ok: "vm_ok True rest s" and m: "m \<in> set (v_maps s)" "covers m a n" and i: "i < unat n"
  shows "can_read (v_host s) (hadd (m_off m a) i)" "bit (m_flags m) PF_W \<Longrightarrow> can_write (v_host s) (hadd (m_off m a) i)"
proof -
  have "m_hi m < 2 ^ 64" using vm_okD(1) [OF ok] m(1) by (simp add: as_ok_def)
  then have "m_pages m (page_of (hadd (m_off m a) i))" using covered_page m i by blast
  moreover have "prot_ok (v_host s) m" using vm_okD(3) [OF ok] m(1) by (simp add: mem_ok_def)
  ultimately obtain r w where "hpages (v_host s) (page_of (hadd (m_off m a) i)) = Some (r, w)" "r" "bit (m_flags m) PF_W \<longrightarrow> w"
    unfolding prot_ok_def by blast
  then show "can_read (v_host s) (hadd (m_off m a) i)" "bit (m_flags m) PF_W \<Longrightarrow> can_write (v_host s) (hadd (m_off m a) i)"
    by (simp_all add: can_read_def can_write_def)
qed

subsection \<open>Translation for writing\<close>

text \<open>Everything but the memory system is unchanged.\<close>

definition same_cpu :: "'h vm \<Rightarrow> 'h vm \<Rightarrow> bool" where
  "same_cpu s s' \<longleftrightarrow> s' = s\<lparr>v_host := v_host s', v_maps := v_maps s', v_tlb := v_tlb s'\<rparr>"

lemma same_cpu_refl [simp]: "same_cpu s s"
  by (simp add: same_cpu_def)

lemma same_cpu_trans: "\<lbrakk>same_cpu s s'; same_cpu s' s''\<rbrakk> \<Longrightarrow> same_cpu s s''"
  by (cases s; cases s'; cases s'') (simp add: same_cpu_def)

lemma same_cpu_upd [simp]:
  "same_cpu s (s\<lparr>v_host := h\<rparr>)" "same_cpu s (s\<lparr>v_maps := ms\<rparr>)" "same_cpu s (s\<lparr>v_tlb := t\<rparr>)"
  by (simp_all add: same_cpu_def)

lemma same_cpu_host: "same_cpu s s' \<Longrightarrow> same_cpu s (s'\<lparr>v_host := h\<rparr>)"
  using same_cpu_trans same_cpu_upd(1) by blast

lemma same_cpuD:
  assumes "same_cpu s s'"
  shows "v_pc s' = v_pc s" "v_reg s' = v_reg s" "v_flags s' = v_flags s" "v_signal_depth s' = v_signal_depth s"
    "v_stack_limit s' = v_stack_limit s" "v_sys s' = v_sys s" "v_insn_count s' = v_insn_count s"
    "v_insn_limit s' = v_insn_limit s" "v_env s' = v_env s" "v_tp s' = v_tp s"
    "v_restart_pc s' = v_restart_pc s" "v_restart_nohand s' = v_restart_nohand s"
  using assms by (metis same_cpu_def vm.surjective vm.update_convs(5,6,7) vm.select_convs)+

definition mmu_w_post :: "bool \<Rightarrow> memmap multiset \<Rightarrow> 'h vm \<Rightarrow> u64 \<Rightarrow> u64 \<Rightarrow> hptr option \<Rightarrow> 'h vm \<Rightarrow> bool" where
  "mmu_w_post st rest s a n r s' \<longleftrightarrow>
     same_cpu s s' \<and> vm_ok st rest s'
     \<and> old_same (v_host s) (v_host s') \<and> same_view (v_host s) (v_maps s) (v_host s') (v_maps s')
     \<and> (\<forall>m \<in> set (v_maps s). m_cow m = None \<longrightarrow> m \<in> set (v_maps s'))
     \<and> (\<forall>p. r = Some p \<longrightarrow> (\<exists>m \<in> set (v_maps s'). covers m a n \<and> p = m_off m a \<and> m_owned m \<and> bit (m_flags m) PF_W))"

lemma same_view_refl [simp]: "same_view h ms h ms"
  by (simp add: same_view_def same_map_def list_all2_same)

lemma mmu_w_post_self:
  assumes "vm_ok st rest s" "tlb_ok (v_maps s) t"
    "\<And>p. r = Some p \<Longrightarrow> \<exists>m \<in> set (v_maps s). covers m a n \<and> p = m_off m a \<and> m_owned m \<and> bit (m_flags m) PF_W"
  shows "mmu_w_post st rest s a n r (s\<lparr>v_tlb := t\<rparr>)"
  using assms by (simp add: mmu_w_post_def vm_ok_def same_cpu_def)

lemma owned_if_not_cow:
  "\<lbrakk>vm_ok st rest s; m \<in> set (v_maps s); m_cow m = None\<rbrakk> \<Longrightarrow> m_owned m"
  using own_invD(2) [of "v_host s" "mset (v_maps s) + rest" m] by (simp add: vm_ok_def mem_ok_def managed_def)

lemma same_view_update:
  assumes inv: "own_inv h (mset ms + rest)" and old: "old_same h h'" and i: "i < length ms" and br: "broken (ms ! i) m' h h'"
  shows "same_view h ms h' (ms[i := m'])"
  unfolding same_view_def list_all2_conv_all_nth
proof (intro conjI allI impI)
  fix j assume j: "j < length ms"
  have "hval h' (hadd (m_data (ms ! j)) k) = hval h (hadd (m_data (ms ! j)) k)" if "k < unat (m_size (ms ! j))" for k
    using map_block_old [OF inv, of "ms ! j" k] that j old by (simp add: old_same_def)
  then show "same_map h h' (ms ! j) (ms[i := m'] ! j)"
    using br i j by (cases "j = i") (auto simp: same_map_def broken_def)
qed simp

lemma mmu_w_slow_break:
  assumes ok: "vm_ok st rest s" and i: "i < length (v_maps s)" and c: "m_cow (v_maps s ! i) = Some c"
    and w: "bit (m_flags (v_maps s ! i)) PF_W" and cov: "covers (v_maps s ! i) a n"
  shows "runs st (break_cow (v_maps s ! i) c (v_host s)) (\<lambda>(r, h). case r of
     None \<Rightarrow> mmu_w_post st rest s a n None (s\<lparr>v_host := h\<rparr>)
   | Some m' \<Rightarrow> mmu_w_post st rest s a n (Some (m_off m' a))
        (fill_tlb a m' (flush_tlb (s\<lparr>v_host := h, v_maps := (v_maps s)[i := m']\<rparr>))))"
proof -
  let ?ms = "v_maps s" and ?h = "v_host s"
  let ?m = "?ms ! i"
  define R where "R = mset ?ms - {#?m#} + rest"
  have M: "mset ?ms + rest = add_mset ?m R"
    using i by (simp add: R_def)
  have mo: "mem_ok st ?h (add_mset ?m R)" using vm_okD(3) [OF ok] by (simp add: M)
  have inv: "own_inv ?h (mset ?ms + rest)" using mo by (simp add: mem_ok_def M)
  show ?thesis
  proof (rule runs_mono [OF break_cow_runs [OF mo c w]], clarsimp split: option.splits, intro conjI allI impI)
    fix r h assume post: "break_post st ?m R ?h (r, h)"
    then have old: "old_same ?h h" by (simp add: break_post_def)
    {
      assume "r = None"
      then have m: "mem_ok st h (mset ?ms + rest)" using post by (simp add: break_post_def M)
      have "same_view ?h ?ms h ?ms"
        using map_block_old [OF inv] old
        by (auto simp: same_view_def list_all2_same same_map_def old_same_def)
      then show "mmu_w_post st rest s a n None (s\<lparr>v_host := h\<rparr>)"
        using m old vm_okD(1,2) [OF ok] by (simp add: mmu_w_post_def vm_ok_def same_cpu_def)
    next
      fix m' assume "r = Some m'"
      then have m: "mem_ok st h (add_mset m' R)" and br: "broken ?m m' ?h h" using post by (simp_all add: break_post_def)
      have sv: "same_view ?h ?ms h (?ms[i := m'])" by (rule same_view_update [OF inv old i br])
      have ms: "mset (?ms[i := m']) + rest = add_mset m' R" using i by (simp add: mset_update R_def)
      have mem: "m' \<in> set (?ms[i := m'])" using i by (simp add: set_update_memI)
      have keep: "x \<in> set (?ms[i := m'])" if "x \<in> set ?ms" "m_cow x = None" for x
        using that c by (metis in_set_conv_nth length_list_update nth_list_update_neq option.distinct(1))
      have cov': "covers m' a n" "m_owned m'" "bit (m_flags m') PF_W"
        using br cov w by (simp_all add: broken_def covers_def m_lo_def m_hi_def)
      show "mmu_w_post st rest s a n (Some (m_off m' a)) (fill_tlb a m' (flush_tlb (s\<lparr>v_host := h, v_maps := ?ms[i := m']\<rparr>)))"
        using m ms sv old mem keep cov' same_view_as_ok [OF sv vm_okD(1) [OF ok]]
        by (auto simp: mmu_w_post_def vm_ok_def same_cpu_def fill_tlb_def flush_tlb_def tlb_ok_def)
    }
  qed
qed

text \<open>A translation for reading, of a range that may be empty, changes the TLB only.\<close>

lemma mmu_tlb:
  assumes ok: "as_ok (v_maps s)" "tlb_ok (v_maps s) (v_tlb s)"
  obtains r t where "mmu s a n = (r, s\<lparr>v_tlb := t\<rparr>)" "tlb_ok (v_maps s) t"
proof (cases "mmu s a n = (tlb_ptr (v_tlb s (tlb_index a)) a, s) \<or> mmu s a n = (None, s)")
  case True
  then show ?thesis using that [of _ "v_tlb s"] ok(2) by auto
next
  case False
  then obtain i where i: "find_map_locked (v_maps s) a n = Some i" "mmu s a n = (Some (m_off (v_maps s ! i) a), fill_tlb a (v_maps s ! i) s)"
    by (auto simp: mmu_def mmu_slow_def Let_def split: if_splits option.splits)
  then show ?thesis
    using that tlb_ok_fill [OF ok(2), of "v_maps s ! i" a] find_map_locked_covers(1) [OF ok(1) i(1)] by (auto simp: fill_tlb_def)
qed

lemma mmu_w_runs:
  assumes ok: "vm_ok st rest s"
  shows "runs st (mmu_w s a n) (\<lambda>(r, s'). mmu_w_post st rest s a n r s')"
proof -
  note ms = vm_okD(1,2) [OF ok]
  let ?e = "v_tlb s (tlb_index a)"
  have self: "mmu_w_post st rest s a n None s"
    using mmu_w_post_self [OF ok ms(2), of None] by simp
  consider (wrap) "a + n < a" | (fast) "\<not> a + n < a" "tlb_hit ?e a n" "bit (e_flags ?e) PF_W" "\<not> e_cow ?e"
    | (slow) "\<not> a + n < a" "mmu_w s a n = mmu_w_slow s a n"
    by atomize_elim (auto simp: mmu_w_def Let_def)
  then show ?thesis
  proof cases
    case wrap
    then show ?thesis using self by (simp add: mmu_w_def)
  next
    case fast
    have nz: "?e \<noteq> tlb_zero" using fast(3) by (auto simp: tlb_zero_def)
    obtain m where m: "m \<in> set (v_maps s)" "?e = tlb_of m" "covers m a n" "tlb_ptr ?e a = Some (m_off m a)"
      using tlb_hit_covers [OF ms disjI2 [OF nz] fast(1,2)] by metis
    have "mmu_w_post st rest s a n (Some (m_off m a)) s"
      using mmu_w_post_self [OF ok ms(2), of "Some (m_off m a)" a n] m fast owned_if_not_cow [OF ok m(1)]
      by (auto simp: tlb_of_def)
    then show ?thesis using fast m by (simp add: mmu_w_def)
  next
    case slow
    show ?thesis
    proof (cases "find_map_locked (v_maps s) a n")
      case None
      then show ?thesis using self slow by (simp add: mmu_w_slow_def)
    next
      case (Some i)
      note i = find_map_locked_covers [OF ms(1) Some]
      let ?m = "v_maps s ! i"
      have "mmu_w_post st rest s a n (Some (m_off ?m a)) (fill_tlb a ?m s)" if "m_cow ?m = None" "bit (m_flags ?m) PF_W"
        unfolding fill_tlb_def
        by (rule mmu_w_post_self [OF ok])
          (use tlb_ok_fill [OF ms(2), of ?m a] owned_if_not_cow [OF ok, of ?m] i that in \<open>auto simp: fill_tlb_def\<close>)
      moreover have "runs st (do {(r, h) \<leftarrow> break_cow ?m c (v_host s);
            case r of None \<Rightarrow> Some (None, s\<lparr>v_host := h\<rparr>)
            | Some m' \<Rightarrow> Some (Some (m_off m' a), fill_tlb a m' (flush_tlb (s\<lparr>v_host := h, v_maps := (v_maps s)[i := m']\<rparr>)))})
          (\<lambda>(r, s'). mmu_w_post st rest s a n r s')" if "m_cow ?m = Some c" "bit (m_flags ?m) PF_W" for c
        by (rule runs_bind [OF mmu_w_slow_break [OF ok i(1) that i(2)]]) (auto split: option.splits)
      ultimately show ?thesis
        using slow Some self by (auto simp: mmu_w_slow_def Let_def split: option.split)
    qed
  qed
qed

end
