(* ===== verification/Guest_Access.thy ===== *)
theory Guest_Access
  imports Mmu
begin

text \<open>
  Dereferencing the host pointers that the memory management unit returns. A write through a
  pointer from vm::mmu_w changes exactly the bytes of the guest range, seen from this machine, and
  no byte of any other address space; a read through a pointer from vm::mmu yields the guest bytes.
\<close>

definition peek :: "'h vm \<Rightarrow> hptr \<Rightarrow> nat \<Rightarrow> int option" where
  "peek s p n = map_option le_val (host_load (v_host s) p n)"

definition poke :: "'h vm \<Rightarrow> hptr \<Rightarrow> u8 list \<Rightarrow> 'h vm option" where
  "poke s p bs = map_option (\<lambda>h. s\<lparr>v_host := h\<rparr>) (host_store (v_host s) p bs)"

text \<open>Reading and writing a 64-bit word, as through a uint64_t pointer.\<close>

definition peek64 :: "'h vm \<Rightarrow> hptr \<Rightarrow> u64 option" where
  "peek64 s p = map_option word_of_int (peek s p 8)"

definition u64_bytes :: "u64 \<Rightarrow> u8 list" where
  "u64_bytes w = le_bytes 8 (uint w)"

subsection \<open>The guest view of a write\<close>

definition gput :: "u64 \<Rightarrow> u8 list \<Rightarrow> (u64 \<Rightarrow> u8 option) \<Rightarrow> u64 \<Rightarrow> u8 option" where
  "gput a bs g x =
     (if unat a \<le> unat x \<and> unat x < unat a + length bs then Some (bs ! (unat x - unat a)) else g x)"

definition gget :: "(u64 \<Rightarrow> u8 option) \<Rightarrow> u64 \<Rightarrow> nat \<Rightarrow> u8 list option" where
  "gget g a n =
     (if list_all (\<lambda>i. g (a + of_nat i) \<noteq> None) [0..<n]
      then Some (map (\<lambda>i. the (g (a + of_nat i))) [0..<n]) else None)"

lemma length_u64_bytes [simp]: "length (u64_bytes w) = 8"
  by (simp add: u64_bytes_def)

lemma peek_runs:
  assumes ok: "vm_ok st rest s" and m: "m \<in> set (v_maps s)" "covers m a n" and k: "k \<le> unat n"
  shows "runs st (peek s (m_off m a) k) (\<lambda>v. \<exists>bs. gget (mem_at s) a k = Some bs \<and> v = le_val bs)"
proof -
  note as = vm_okD(1) [OF ok]
  have hi: "m_hi m < 2 ^ 64" using as m(1) by (simp add: as_ok_def)
  have b: "mem_at s (a + of_nat i) = Some (hval (v_host s) (hadd (m_off m a) i))" if "i < k" for i
    using covers_byte(1,2) [OF m(2) hi, of i] resolve_covers [OF as, of 1 m "a + of_nat i"] m(1) that k
    by (simp add: gbyte_def)
  then have g: "gget (mem_at s) a k = Some (map (\<lambda>i. hval (v_host s) (hadd (m_off m a) i)) [0..<k])"
    by (simp add: gget_def list_all_iff)
  have "runs st (host_load (v_host s) (m_off m a) k) (\<lambda>bs. bs = map (\<lambda>i. hval (v_host s) (hadd (m_off m a) i)) [0..<k])"
    by (rule host_load_runs) (use covered_readable(1) [of rest s m a n] ok m k in auto)
  then show ?thesis
    using g by (auto simp: peek_def runs_def split: option.splits)
qed

lemma step_ok_upd_cpu:
  "\<lbrakk>step_ok st rest s s'; v_host s'' = v_host s'; v_maps s'' = v_maps s'; v_tlb s'' = v_tlb s'\<rbrakk> \<Longrightarrow> step_ok st rest s s''"
  by (simp add: step_ok_def vm_ok_def)

text \<open>A store into an exclusively owned mapping.\<close>

lemma store_other:
  assumes inv: "own_inv h (add_mset m M)" and own: "m_owned m" and hi: "m_hi m < 2 ^ 64"
    and cov: "covers m a n" and len: "length bs \<le> unat n" and m': "m' \<in># M" and i: "i < unat (m_size m')"
  shows "put_bytes (m_off m a) bs f (hadd (m_data m') i) = f (hadd (m_data m') i)"
proof (rule put_bytes_out, rule notI)
  fix j assume j: "j < length bs" and eq: "hadd (m_data m') i = hadd (m_off m a) j"
  have "m_pages m (page_of (hadd (m_off m a) j))" using covered_page [OF cov hi] j len by simp
  then show False
    using own_inv_exclusive [OF inv own _ m'] m_pages_byte [OF i] eq by metis
qed

lemma store_view:
  assumes ok: "as_ok ms" and inv: "own_inv h (mset ms + rest)" and m: "m \<in> set ms" "m_owned m" "covers m a n"
    and len: "length bs \<le> unat n" "0 < n"
  shows "gbyte (h\<lparr>hval := put_bytes (m_off m a) bs (hval h)\<rparr>) ms x = gput a bs (gbyte h ms) x"
proof -
  have hi: "m_hi m < 2 ^ 64" using ok m(1) by (simp add: as_ok_def)
  have M: "mset ms + rest = add_mset m (mset ms - {#m#} + rest)" using m(1) by simp
  show ?thesis
  proof (cases "unat a \<le> unat x \<and> unat x < unat a + length bs")
    case True
    define i where "i = unat x - unat a"
    have i: "i < length bs" "i < unat n" "x = a + of_nat i"
      using True len by (auto simp: i_def of_nat_diff)
    have "resolve ms x 1 = Some (hadd (m_off m a) i)"
      using covers_byte(1,2) [OF m(3) hi i(2)] resolve_covers [OF ok, of 1 m x] m(1) i(3) by simp
    then have "gbyte (h\<lparr>hval := put_bytes (m_off m a) bs (hval h)\<rparr>) ms x = Some (bs ! i)"
      using i(1) by (simp add: gbyte_def put_bytes_in)
    then show ?thesis using True by (simp add: gput_def i_def)
  next
    case False
    have "put_bytes (m_off m a) bs (hval h) p = hval h p" if res: "resolve ms x 1 = Some p" for p
    proof -
      obtain m' where m': "m' \<in> set ms" "covers m' x 1" "p = m_off m' x"
        using resolve_Some [OF res] by blast
      have "m_hi m' < 2 ^ 64" using ok m'(1) by (simp add: as_ok_def)
      note off = covers_byte(3) [OF m'(2) this, of 0]
      show ?thesis
      proof (cases "m' = m")
        case True
        have sub: "unat (x - m_paddr m) = unat x - m_lo m" "unat (a - m_paddr m) = unat a - m_lo m"
          using m(3) m'(2) True by (simp_all add: unat_sub covers_def m_lo_def word_le_nat_alt)
        show ?thesis
        proof (rule put_bytes_out, rule notI)
          fix j assume "j < length bs" "p = hadd (m_off m a) j"
          then have "unat x = unat a + j"
            using sub m(3) m'(2,3) True by (simp add: m_off_def hadd_def covers_def) linarith
          then show False using False \<open>j < length bs\<close> by simp
        qed
      next
        case False
        then have "m' \<in># mset ms - {#m#} + rest" using m'(1) by (simp add: in_diff_count)
        then show ?thesis
          using store_other [OF inv [unfolded M] m(2) hi m(3) len(1), of m' "unat (x - m_paddr m')"] off m'(3)
          by (simp add: m_off_def)
      qed
    qed
    then show ?thesis using False by (cases "resolve ms x 1") (auto simp: gbyte_def gput_def)
  qed
qed

lemma poke_runs:
  assumes ok: "vm_ok st rest s" and m: "m \<in> set (v_maps s)" "m_owned m" "covers m a n" "bit (m_flags m) PF_W"
    and len: "length bs \<le> unat n" "0 < n"
  shows "runs st (poke s (m_off m a) bs) (\<lambda>s'. s' = s\<lparr>v_host := v_host s'\<rparr> \<and> step_ok st rest s s' \<and> mem_at s' = gput a bs (mem_at s))"
proof -
  let ?h = "(v_host s)\<lparr>hval := put_bytes (m_off m a) bs (hval (v_host s))\<rparr>"
  note as = vm_okD(1) [OF ok]
  have hi: "m_hi m < 2 ^ 64" using as m(1) by (simp add: as_ok_def)
  have inv: "own_inv (v_host s) (mset (v_maps s) + rest)" using vm_okD(3) [OF ok] by (simp add: mem_ok_def)
  have M: "mset (v_maps s) + rest = add_mset m (mset (v_maps s) - {#m#} + rest)" using m(1) by simp
  have "isolated rest (v_host s) ?h"
    using store_other [OF inv [unfolded M] m(2) hi m(3) len(1)] by (auto simp: isolated_def)
  then have "step_ok st rest s (s\<lparr>v_host := ?h\<rparr>)"
    using ok by (simp add: step_ok_def vm_ok_def)
  moreover have "mem_at (s\<lparr>v_host := ?h\<rparr>) = gput a bs (mem_at s)"
    using store_view [OF as inv m(1-3) len] by (simp add: fun_eq_iff)
  moreover have "runs st (host_store (v_host s) (m_off m a) bs) (\<lambda>h. h = ?h)"
    by (rule host_store_runs) (use covered_readable(2) [of rest s m a n] ok m len in auto)
  ultimately show ?thesis by (auto simp: poke_def runs_def split: option.splits)
qed

subsection \<open>Translate and access\<close>

definition guest_write :: "'h vm \<Rightarrow> u64 \<Rightarrow> u8 list \<Rightarrow> (bool \<times> 'h vm) option" where
  "guest_write s a bs = do {
     (r, s1) \<leftarrow> mmu_w s a (of_nat (length bs));
     (case r of None \<Rightarrow> Some (False, s1) | Some p \<Rightarrow> map_option (Pair True) (poke s1 p bs))
   }"

definition guest_read :: "'h vm \<Rightarrow> u64 \<Rightarrow> nat \<Rightarrow> (int option \<times> 'h vm) option" where
  "guest_read s a n =
     (case mmu s a (of_nat n) of
        (None, s1) \<Rightarrow> Some (None, s1)
      | (Some p, s1) \<Rightarrow> map_option (\<lambda>v. (Some v, s1)) (peek s1 p n))"

lemma mmu_w_post_step_ok:
  assumes ok: "vm_ok st rest s" and post: "mmu_w_post st rest s a n r s'"
  shows "step_ok st rest s s'" "mem_at s' = mem_at s" "vm_ok st rest s'" "same_cpu s s'"
proof -
  show "vm_ok st rest s'" "same_cpu s s'" using post by (simp_all add: mmu_w_post_def)
  then show "step_ok st rest s s'"
    using post old_same_isolated vm_okD(3) [OF ok] by (auto simp: step_ok_def mmu_w_post_def)
  show "mem_at s' = mem_at s"
    using post same_view_gbyte vm_okD(1) [OF ok] by (auto simp: mmu_w_post_def fun_eq_iff)
qed

lemma guest_write_runs:
  assumes ok: "vm_ok st rest s" and len: "0 < length bs" "length bs < 2 ^ 64"
  shows "runs st (guest_write s a bs) (\<lambda>(b, s'). step_ok st rest s s' \<and> same_cpu s s'
     \<and> mem_at s' = (if b then gput a bs (mem_at s) else mem_at s))"
  unfolding guest_write_def
proof (rule runs_bind [OF mmu_w_runs [OF ok]])
  have n: "unat (of_nat (length bs) :: u64) = length bs"
    using len by (simp add: unsigned_of_nat take_bit_eq_mod)
  fix x :: "hptr option \<times> 'a vm"
  obtain r s1 where x: "x = (r, s1)" by fastforce
  assume "case x of (r, s') \<Rightarrow> mmu_w_post st rest s a (of_nat (length bs)) r s'"
  then have post: "mmu_w_post st rest s a (of_nat (length bs)) r s1" using x by simp
  note so = mmu_w_post_step_ok [OF ok post]
  show "runs st (case x of (None, s1) \<Rightarrow> Some (False, s1) | (Some p, s1) \<Rightarrow> map_option (Pair True) (poke s1 p bs))
     (\<lambda>(b, s'). step_ok st rest s s' \<and> same_cpu s s' \<and> mem_at s' = (if b then gput a bs (mem_at s) else mem_at s))"
  proof (cases r)
    case None
    then show ?thesis using x so by simp
  next
    case (Some p)
    obtain m where m: "m \<in> set (v_maps s1)" "covers m a (of_nat (length bs))" "p = m_off m a" "m_owned m" "bit (m_flags m) PF_W"
      using post Some by (auto simp: mmu_w_post_def)
    have "runs st (poke s1 p bs) (\<lambda>s'. s' = s1\<lparr>v_host := v_host s'\<rparr> \<and> step_ok st rest s1 s' \<and> mem_at s' = gput a bs (mem_at s1))"
      unfolding m(3) by (rule poke_runs [OF so(3) m(1,4,2,5)]) (use n len in \<open>auto simp: word_less_nat_alt\<close>)
    then show ?thesis
      using x Some so step_ok_trans [OF so(1)] same_cpu_host [OF so(4)]
      by (auto simp: runs_def split: option.splits) metis
  qed
qed

lemma guest_read_runs:
  assumes ok: "vm_ok st rest s" and n: "0 < n" "n < 2 ^ 64"
  shows "runs st (guest_read s a n) (\<lambda>(r, s'). (\<exists>t. s' = s\<lparr>v_tlb := t\<rparr>) \<and> step_ok st rest s s'
     \<and> (case r of None \<Rightarrow> resolve (v_maps s) a (of_nat n) = None
        | Some v \<Rightarrow> \<exists>bs. gget (mem_at s) a n = Some bs \<and> v = le_val bs))"
proof -
  have un: "unat (of_nat n :: u64) = n" using n by (simp add: unsigned_of_nat take_bit_eq_mod)
  then have n0: "0 < (of_nat n :: u64)" using n by (simp add: word_less_nat_alt)
  obtain t where t: "mmu s a (of_nat n) = (resolve (v_maps s) a (of_nat n), s\<lparr>v_tlb := t\<rparr>)" "tlb_ok (v_maps s) t"
    using mmu_spec [OF vm_okD(1,2) [OF ok] n0] by metis
  have ok': "vm_ok st rest (s\<lparr>v_tlb := t\<rparr>)" using ok t(2) by (simp add: vm_ok_def)
  then have so: "step_ok st rest s (s\<lparr>v_tlb := t\<rparr>)" by (simp add: step_ok_def)
  show ?thesis
  proof (cases "resolve (v_maps s) a (of_nat n)")
    case None
    then show ?thesis using t(1) so by (auto simp: guest_read_def)
  next
    case (Some p)
    then obtain m where m: "m \<in> set (v_maps s)" "covers m a (of_nat n)" "p = m_off m a" by (rule resolve_Some)
    have "runs st (peek (s\<lparr>v_tlb := t\<rparr>) p n) (\<lambda>v. \<exists>bs. gget (mem_at s) a n = Some bs \<and> v = le_val bs)"
      using peek_runs [OF ok', of m a "of_nat n" n] m un by simp
    then show ?thesis
      using t(1) so Some by (auto simp: guest_read_def runs_def split: option.splits)
  qed
qed

subsection \<open>Composing steps\<close>

text \<open>Changes of registers, flags and counters do not concern the invariant.\<close>

lemma vm_ok_cpu [simp]:
  "vm_ok st rest (s\<lparr>v_pc := x1\<rparr>) = vm_ok st rest s" "vm_ok st rest (s\<lparr>v_reg := x2\<rparr>) = vm_ok st rest s"
  "vm_ok st rest (s\<lparr>v_flags := x3\<rparr>) = vm_ok st rest s" "vm_ok st rest (s\<lparr>v_insn_count := x4\<rparr>) = vm_ok st rest s"
  "vm_ok st rest (s\<lparr>v_signal_depth := x5\<rparr>) = vm_ok st rest s" "vm_ok st rest (s\<lparr>v_interp_insns := x6\<rparr>) = vm_ok st rest s"
  "vm_ok st rest (s\<lparr>v_tp := x7\<rparr>) = vm_ok st rest s" "vm_ok st rest (s\<lparr>v_restart_pc := x8\<rparr>) = vm_ok st rest s"
  "vm_ok st rest (s\<lparr>v_restart_nohand := x9\<rparr>) = vm_ok st rest s" "vm_ok st rest (s\<lparr>v_sys := x10\<rparr>) = vm_ok st rest s"
  "vm_ok st rest (s\<lparr>v_env := x11\<rparr>) = vm_ok st rest s"
  by (simp_all add: vm_ok_def)

lemma step_ok_cpu [simp]:
  "step_ok st rest s0 (s\<lparr>v_pc := x1\<rparr>) = step_ok st rest s0 s" "step_ok st rest s0 (s\<lparr>v_reg := x2\<rparr>) = step_ok st rest s0 s"
  "step_ok st rest s0 (s\<lparr>v_flags := x3\<rparr>) = step_ok st rest s0 s" "step_ok st rest s0 (s\<lparr>v_insn_count := x4\<rparr>) = step_ok st rest s0 s"
  "step_ok st rest s0 (s\<lparr>v_signal_depth := x5\<rparr>) = step_ok st rest s0 s" "step_ok st rest s0 (s\<lparr>v_interp_insns := x6\<rparr>) = step_ok st rest s0 s"
  "step_ok st rest s0 (s\<lparr>v_tp := x7\<rparr>) = step_ok st rest s0 s" "step_ok st rest s0 (s\<lparr>v_restart_pc := x8\<rparr>) = step_ok st rest s0 s"
  "step_ok st rest s0 (s\<lparr>v_restart_nohand := x9\<rparr>) = step_ok st rest s0 s" "step_ok st rest s0 (s\<lparr>v_sys := x10\<rparr>) = step_ok st rest s0 s"
  "step_ok st rest s0 (s\<lparr>v_env := x11\<rparr>) = step_ok st rest s0 s"
  by (simp_all add: step_ok_def)

text \<open>A translation for reading changes the TLB only.\<close>

lemma mmu_step:
  assumes so: "step_ok st rest s0 s" and n: "0 < n" and mm: "mmu s a n = (r, s1)"
  shows "step_ok st rest s0 s1" "s1 = s\<lparr>v_tlb := v_tlb s1\<rparr>"
    "r = Some p \<Longrightarrow> \<exists>m \<in> set (v_maps s1). covers m a n \<and> p = m_off m a \<and> v_tlb s1 (tlb_index a) = tlb_of m"
    "r = resolve (v_maps s) a n" "mem_at s1 = mem_at s"
proof -
  have ok: "vm_ok st rest s" using so by (rule step_ok_vm_ok)
  obtain t where t: "mmu s a n = (resolve (v_maps s) a n, s\<lparr>v_tlb := t\<rparr>)" "tlb_ok (v_maps s) t"
    "\<And>p. resolve (v_maps s) a n = Some p \<Longrightarrow> \<exists>m \<in> set (v_maps s). covers m a n \<and> p = m_off m a \<and> t (tlb_index a) = tlb_of m"
    using mmu_spec [OF vm_okD(1,2) [OF ok] n] by metis
  have s1: "s1 = s\<lparr>v_tlb := t\<rparr>" "r = resolve (v_maps s) a n" using mm t(1) by simp_all
  show "step_ok st rest s0 s1" using so s1(1) t(2) by (simp add: step_ok_def vm_ok_def)
  show "s1 = s\<lparr>v_tlb := v_tlb s1\<rparr>" "mem_at s1 = mem_at s" using s1(1) by simp_all
  show "r = Some p \<Longrightarrow> \<exists>m \<in> set (v_maps s1). covers m a n \<and> p = m_off m a \<and> v_tlb s1 (tlb_index a) = tlb_of m"
    using t(3) s1 by simp
qed (use mm mmu_spec [OF vm_okD(1,2) [OF step_ok_vm_ok [OF so]] n] in \<open>metis prod.inject\<close>)

lemma mmu_w_step:
  assumes so: "step_ok st rest s0 s"
  shows "runs st (mmu_w s a n) (\<lambda>(r, s1). step_ok st rest s0 s1 \<and> same_cpu s s1 \<and> mem_at s1 = mem_at s
     \<and> same_view (v_host s) (v_maps s) (v_host s1) (v_maps s1)
     \<and> (\<forall>m \<in> set (v_maps s). m_cow m = None \<longrightarrow> m \<in> set (v_maps s1))
     \<and> (\<forall>p. r = Some p \<longrightarrow> (\<exists>m \<in> set (v_maps s1). covers m a n \<and> p = m_off m a \<and> m_owned m \<and> bit (m_flags m) PF_W)))"
proof -
  have ok: "vm_ok st rest s" using so by (rule step_ok_vm_ok)
  show ?thesis
  proof (rule runs_mono [OF mmu_w_runs [OF ok]], clarify)
    fix r s1 assume post: "mmu_w_post st rest s a n r s1"
    show "step_ok st rest s0 s1 \<and> same_cpu s s1 \<and> mem_at s1 = mem_at s
        \<and> same_view (v_host s) (v_maps s) (v_host s1) (v_maps s1)
        \<and> (\<forall>m \<in> set (v_maps s). m_cow m = None \<longrightarrow> m \<in> set (v_maps s1))
        \<and> (\<forall>p. r = Some p \<longrightarrow> (\<exists>m \<in> set (v_maps s1). covers m a n \<and> p = m_off m a \<and> m_owned m \<and> bit (m_flags m) PF_W))"
      using mmu_w_post_step_ok [OF ok post] step_ok_trans [OF so, of s1] post unfolding mmu_w_post_def by simp
  qed
qed

text \<open>Reads and writes inside a translated range.\<close>

definition gword :: "(u64 \<Rightarrow> u8 option) \<Rightarrow> u64 \<Rightarrow> u64 option" where
  "gword g a = map_option (\<lambda>bs. word_of_int (le_val bs)) (gget g a 8)"

lemma covers_sub:
  assumes "covers m a n" "m_hi m < 2 ^ 64" "off + k \<le> unat n" "0 < k" "k < 2 ^ 64"
  shows "covers m (a + of_nat off) (of_nat k)" "hadd (m_off m a) off = m_off m (a + of_nat off)"
proof -
  have "off < unat n" using assms by simp
  note b = covers_byte [OF assms(1,2) this]
  show "hadd (m_off m a) off = m_off m (a + of_nat off)" using b(2) by simp
  have "unat (of_nat off :: u64) = off" "unat (of_nat k :: u64) = k"
    using assms(3,5) unsigned_less [of n, where 'a = nat] by (simp_all add: unsigned_of_nat take_bit_eq_mod)
  moreover have "unat (a + of_nat off) = unat a + off"
    using assms calculation(1) word_add_nat [of a "of_nat off"] by (simp add: covers_def)
  ultimately show "covers m (a + of_nat off) (of_nat k)"
    using assms by (simp add: covers_def)
qed

lemma peek64_step:
  assumes so: "step_ok st rest s0 s" and m: "m \<in> set (v_maps s)" "covers m a n" and k: "off + 8 \<le> unat n"
  shows "runs st (peek64 s (hadd (m_off m a) off)) (\<lambda>w. gword (mem_at s) (a + of_nat off) = Some w)"
proof -
  have ok: "vm_ok st rest s" using so by (rule step_ok_vm_ok)
  have "m_hi m < 2 ^ 64" using vm_okD(1) [OF ok] m(1) by (simp add: as_ok_def)
  note c = covers_sub [OF m(2) this k]
  have "runs st (peek s (m_off m (a + of_nat off)) 8) (\<lambda>v. \<exists>bs. gget (mem_at s) (a + of_nat off) 8 = Some bs \<and> v = le_val bs)"
    by (rule peek_runs [OF ok m(1) c(1)]) simp_all
  then show ?thesis
    using c(2) by (auto simp: peek64_def gword_def runs_def split: option.splits)
qed

lemma poke_step:
  assumes so: "step_ok st rest s0 s" and m: "m \<in> set (v_maps s)" "m_owned m" "covers m a n" "bit (m_flags m) PF_W"
    and len: "length bs \<le> unat n" "0 < n"
  shows "runs st (poke s (m_off m a) bs) (\<lambda>s'. s' = s\<lparr>v_host := v_host s'\<rparr> \<and> step_ok st rest s0 s' \<and> mem_at s' = gput a bs (mem_at s))"
  by (rule runs_mono [OF poke_runs [OF step_ok_vm_ok [OF so] m len]]) (use step_ok_trans [OF so] in blast)

end
