(* ===== verification/Insn.thy ===== *)
theory Insn
  imports Guest_Access
begin

text \<open>
  The eBPF instruction word (struct bpf_insn of src/insn.h), its opcode fields, and the two
  arithmetic units vm::alu64 and vm::alu of src/insn.cpp. The implementation is compared with one
  reference for every operand width, written with integer arithmetic.
\<close>

record bpf_insn =
  i_code :: u8
  i_dst :: nat
  i_src :: nat
  i_off :: u16
  i_imm :: u32

text \<open>The eight bytes of an instruction, read as a little-endian number.\<close>

definition decode_insn :: "int \<Rightarrow> bpf_insn" where
  "decode_insn v =
     \<lparr>i_code = word_of_int v, i_dst = nat ((v div 2 ^ 8) mod 16), i_src = nat ((v div 2 ^ 12) mod 16),
      i_off = word_of_int (v div 2 ^ 16), i_imm = word_of_int (v div 2 ^ 32)\<rparr>"

definition encode_insn :: "bpf_insn \<Rightarrow> int" where
  "encode_insn i =
     uint (i_code i) + 2 ^ 8 * int (i_dst i) + 2 ^ 12 * int (i_src i)
     + 2 ^ 16 * uint (i_off i) + 2 ^ 32 * uint (i_imm i)"

subsection \<open>Opcodes\<close>

abbreviation (input) BPF_LD :: u8 where "BPF_LD \<equiv> 0x00"
abbreviation (input) BPF_LDX :: u8 where "BPF_LDX \<equiv> 0x01"
abbreviation (input) BPF_ST :: u8 where "BPF_ST \<equiv> 0x02"
abbreviation (input) BPF_STX :: u8 where "BPF_STX \<equiv> 0x03"
abbreviation (input) BPF_ALU :: u8 where "BPF_ALU \<equiv> 0x04"
abbreviation (input) BPF_JMP :: u8 where "BPF_JMP \<equiv> 0x05"
abbreviation (input) BPF_JMP32 :: u8 where "BPF_JMP32 \<equiv> 0x06"
abbreviation (input) BPF_ALU64 :: u8 where "BPF_ALU64 \<equiv> 0x07"
abbreviation (input) BPF_X :: u8 where "BPF_X \<equiv> 0x08"

abbreviation (input) BPF_ADD :: u8 where "BPF_ADD \<equiv> 0x00"
abbreviation (input) BPF_SUB :: u8 where "BPF_SUB \<equiv> 0x10"
abbreviation (input) BPF_MUL :: u8 where "BPF_MUL \<equiv> 0x20"
abbreviation (input) BPF_DIV :: u8 where "BPF_DIV \<equiv> 0x30"
abbreviation (input) BPF_OR :: u8 where "BPF_OR \<equiv> 0x40"
abbreviation (input) BPF_AND :: u8 where "BPF_AND \<equiv> 0x50"
abbreviation (input) BPF_LSH :: u8 where "BPF_LSH \<equiv> 0x60"
abbreviation (input) BPF_RSH :: u8 where "BPF_RSH \<equiv> 0x70"
abbreviation (input) BPF_NEG :: u8 where "BPF_NEG \<equiv> 0x80"
abbreviation (input) BPF_MOD :: u8 where "BPF_MOD \<equiv> 0x90"
abbreviation (input) BPF_XOR :: u8 where "BPF_XOR \<equiv> 0xa0"
abbreviation (input) BPF_MOV :: u8 where "BPF_MOV \<equiv> 0xb0"
abbreviation (input) BPF_ARSH :: u8 where "BPF_ARSH \<equiv> 0xc0"
abbreviation (input) BPF_END :: u8 where "BPF_END \<equiv> 0xd0"

abbreviation (input) BPF_JA :: u8 where "BPF_JA \<equiv> 0x00"
abbreviation (input) BPF_JEQ :: u8 where "BPF_JEQ \<equiv> 0x10"
abbreviation (input) BPF_JGT :: u8 where "BPF_JGT \<equiv> 0x20"
abbreviation (input) BPF_JGE :: u8 where "BPF_JGE \<equiv> 0x30"
abbreviation (input) BPF_JSET :: u8 where "BPF_JSET \<equiv> 0x40"
abbreviation (input) BPF_JNE :: u8 where "BPF_JNE \<equiv> 0x50"
abbreviation (input) BPF_JSGT :: u8 where "BPF_JSGT \<equiv> 0x60"
abbreviation (input) BPF_JSGE :: u8 where "BPF_JSGE \<equiv> 0x70"
abbreviation (input) BPF_CALL :: u8 where "BPF_CALL \<equiv> 0x80"
abbreviation (input) BPF_EXIT :: u8 where "BPF_EXIT \<equiv> 0x90"
abbreviation (input) BPF_JLT :: u8 where "BPF_JLT \<equiv> 0xa0"
abbreviation (input) BPF_JLE :: u8 where "BPF_JLE \<equiv> 0xb0"
abbreviation (input) BPF_JSLT :: u8 where "BPF_JSLT \<equiv> 0xc0"
abbreviation (input) BPF_JSLE :: u8 where "BPF_JSLE \<equiv> 0xd0"

abbreviation (input) BPF_W :: u8 where "BPF_W \<equiv> 0x00"
abbreviation (input) BPF_H :: u8 where "BPF_H \<equiv> 0x08"
abbreviation (input) BPF_B :: u8 where "BPF_B \<equiv> 0x10"
abbreviation (input) BPF_DW :: u8 where "BPF_DW \<equiv> 0x18"
abbreviation (input) BPF_MEM :: u8 where "BPF_MEM \<equiv> 0x60"
abbreviation (input) BPF_MEMSX :: u8 where "BPF_MEMSX \<equiv> 0x80"
abbreviation (input) BPF_ATOMIC :: u8 where "BPF_ATOMIC \<equiv> 0xc0"

definition i_class :: "bpf_insn \<Rightarrow> u8" where "i_class i = i_code i AND 0x07"
definition i_op :: "bpf_insn \<Rightarrow> u8" where "i_op i = i_code i AND 0xf0"
definition i_size :: "bpf_insn \<Rightarrow> u8" where "i_size i = i_code i AND 0x18"
definition i_mode :: "bpf_insn \<Rightarrow> u8" where "i_mode i = i_code i AND 0xe0"
definition i_is_x :: "bpf_insn \<Rightarrow> bool" where "i_is_x i \<longleftrightarrow> i_code i AND 0x08 = BPF_X"

abbreviation sx32 :: "u32 \<Rightarrow> u64" where "sx32 w \<equiv> scast w"
abbreviation sx16 :: "u16 \<Rightarrow> u64" where "sx16 w \<equiv> scast w"

definition set_reg :: "nat \<Rightarrow> u64 \<Rightarrow> 'h vm \<Rightarrow> 'h vm" where
  "set_reg n x s = s\<lparr>v_reg := (v_reg s)(n := x)\<rparr>"

subsection \<open>64-bit arithmetic\<close>

definition bswap :: "nat \<Rightarrow> 'a::len word \<Rightarrow> 'a word" where
  "bswap n w = word_of_int (le_val (rev (le_bytes n (uint w))))"

text \<open>None is the early return of false.\<close>

definition alu64_op :: "bpf_insn \<Rightarrow> u64 \<Rightarrow> u64 \<Rightarrow> u64 option" where
  "alu64_op cur dst src =
     (let op = i_op cur; off = i_off cur; imm = i_imm cur in
      if op = BPF_ADD then Some (dst + src)
      else if op = BPF_SUB then Some (dst - src)
      else if op = BPF_MUL then Some (dst * src)
      else if op = BPF_DIV then
        Some (if off = 0 then (if src \<noteq> 0 then dst div src else 0)
              else (if src = 0 then 0
                    else if sint src = -1 \<and> sint dst = - (2 ^ 63) then word_of_int (- (2 ^ 63))
                    else word_of_int (sint dst sdiv sint src)))
      else if op = BPF_OR then Some (dst OR src)
      else if op = BPF_AND then Some (dst AND src)
      else if op = BPF_LSH then Some (push_bit (unat (src AND 0x3f)) dst)
      else if op = BPF_RSH then Some (drop_bit (unat (src AND 0x3f)) dst)
      else if op = BPF_NEG then Some (word_of_int (- sint dst))
      else if op = BPF_MOD then
        Some (if off = 0 then (if src \<noteq> 0 then dst mod src else dst)
              else (if src = 0 then dst
                    else if sint src = -1 \<and> sint dst = - (2 ^ 63) then 0
                    else word_of_int (sint dst smod sint src)))
      else if op = BPF_XOR then Some (dst XOR src)
      else if op = BPF_MOV then
        Some (if off = 0 then src
              else if off = 8 then scast (ucast src :: u8)
              else if off = 16 then scast (ucast src :: u16)
              else if off = 32 then scast (ucast src :: u32)
              else dst)
      else if op = BPF_ARSH then Some (signed_drop_bit (unat (src AND 0x3f)) dst)
      else if op = BPF_END then
        (if imm = 16 then Some (ucast (bswap 2 (ucast dst :: u16)))
         else if imm = 32 then Some (ucast (bswap 4 (ucast dst :: u32)))
         else if imm = 64 then Some (bswap 8 dst)
         else None)
      else Some dst)"

definition alu64 :: "bpf_insn \<Rightarrow> 'h vm \<Rightarrow> bool \<times> 'h vm" where
  "alu64 cur s =
     (if i_dst cur \<ge> 10 then (False, s)
      else (let src = (if i_is_x cur then v_reg s (i_src cur) else sx32 (i_imm cur)) in
            case alu64_op cur (v_reg s (i_dst cur)) src of
              None \<Rightarrow> (False, s)
            | Some v \<Rightarrow> (True, set_reg (i_dst cur) v s)))"

subsection \<open>32-bit arithmetic\<close>

definition alu_op :: "bpf_insn \<Rightarrow> u32 \<Rightarrow> u32 \<Rightarrow> u32" where
  "alu_op cur dst src =
     (let op = i_op cur; off = i_off cur in
      if op = BPF_ADD then dst + src
      else if op = BPF_SUB then dst - src
      else if op = BPF_MUL then dst * src
      else if op = BPF_DIV then
        (if off = 0 then (if src \<noteq> 0 then dst div src else 0)
         else (if src = 0 then 0
               else if sint src = -1 \<and> sint dst = - (2 ^ 31) then word_of_int (- (2 ^ 31))
               else word_of_int (sint dst sdiv sint src)))
      else if op = BPF_OR then dst OR src
      else if op = BPF_AND then dst AND src
      else if op = BPF_LSH then push_bit (unat (src AND 0x1f)) dst
      else if op = BPF_RSH then drop_bit (unat (src AND 0x1f)) dst
      else if op = BPF_NEG then word_of_int (- sint dst)
      else if op = BPF_MOD then
        (if off = 0 then (if src \<noteq> 0 then dst mod src else dst)
         else (if src = 0 then dst
               else if sint src = -1 \<and> sint dst = - (2 ^ 31) then 0
               else word_of_int (sint dst smod sint src)))
      else if op = BPF_XOR then dst XOR src
      else if op = BPF_MOV then
        (if off = 0 then src
         else if off = 8 then scast (ucast src :: u8)
         else if off = 16 then scast (ucast src :: u16)
         else dst)
      else if op = BPF_ARSH then signed_drop_bit (unat (src AND 0x1f)) dst
      else dst)"

definition alu_end :: "bpf_insn \<Rightarrow> u64 \<Rightarrow> u64 option" where
  "alu_end cur d =
     (let dst = ucast d :: u32; imm = i_imm cur in
      if i_is_x cur then
        (if imm = 16 then Some (ucast (bswap 2 (ucast dst :: u16)))
         else if imm = 32 then Some (ucast (bswap 4 dst))
         else if imm = 64 then Some (bswap 8 d)
         else None)
      else
        (if imm = 16 then Some (ucast (ucast dst :: u16))
         else if imm = 32 then Some (ucast dst)
         else if imm = 64 then Some d
         else None))"

definition alu :: "bpf_insn \<Rightarrow> 'h vm \<Rightarrow> bool \<times> 'h vm" where
  "alu cur s =
     (if i_dst cur \<ge> 10 then (False, s)
      else if i_op cur = BPF_END then
        (case alu_end cur (v_reg s (i_dst cur)) of
           None \<Rightarrow> (False, s)
         | Some v \<Rightarrow> (True, set_reg (i_dst cur) v s))
      else (let src = (if i_is_x cur then ucast (v_reg s (i_src cur)) else i_imm cur);
                dst = ucast (v_reg s (i_dst cur)) :: u32 in
            (True, set_reg (i_dst cur) (ucast (alu_op cur dst src)) s)))"

subsection \<open>Encoding\<close>

lemma split_low:
  fixes a k m :: int
  assumes "0 \<le> a" "a < m"
  shows "(a + m * k) div m = k" "(a + m * k) mod m = a"
  using assms by simp_all

lemma decode_fields:
  fixes a b c d e :: int
  assumes "0 \<le> a" "a < 2 ^ 8" "0 \<le> b" "b < 16" "0 \<le> c" "c < 16" "0 \<le> d" "d < 2 ^ 16"
  defines "x \<equiv> a + 2 ^ 8 * b + 2 ^ 12 * c + 2 ^ 16 * d + 2 ^ 32 * e"
  shows "x div 2 ^ 8 mod 16 = b" "x div 2 ^ 12 mod 16 = c" "x div 2 ^ 16 = d + 2 ^ 16 * e" "x div 2 ^ 32 = e" "x mod 2 ^ 8 = a"
proof -
  have x: "x = a + 2 ^ 8 * (b + 16 * (c + 16 * (d + 2 ^ 16 * e)))" by (simp add: x_def algebra_simps)
  have 1: "x div 2 ^ 8 = b + 16 * (c + 16 * (d + 2 ^ 16 * e))" unfolding x by (rule split_low(1) [OF assms(1,2)])
  have "x div 2 ^ 12 = x div 2 ^ 8 div 16" by (simp flip: zdiv_zmult2_eq)
  then have 2: "x div 2 ^ 12 = c + 16 * (d + 2 ^ 16 * e)" unfolding 1 using split_low(1) [OF assms(3,4)] by simp
  have "x div 2 ^ 16 = x div 2 ^ 12 div 16" by (simp flip: zdiv_zmult2_eq)
  then show 3: "x div 2 ^ 16 = d + 2 ^ 16 * e" unfolding 2 using split_low(1) [OF assms(5,6)] by simp
  have "x div 2 ^ 32 = x div 2 ^ 16 div 2 ^ 16" by (simp flip: zdiv_zmult2_eq)
  then show "x div 2 ^ 32 = e" unfolding 3 using split_low(1) [OF assms(7,8)] by simp
  show "x div 2 ^ 8 mod 16 = b" unfolding 1 by (rule split_low(2) [OF assms(3,4)])
  show "x div 2 ^ 12 mod 16 = c" unfolding 2 by (rule split_low(2) [OF assms(5,6)])
  show "x mod 2 ^ 8 = a" unfolding x by (rule split_low(2) [OF assms(1,2)])
qed

lemma decode_encode:
  assumes "i_dst i < 16" "i_src i < 16"
  shows "decode_insn (encode_insn i) = i"
proof -
  note f = decode_fields [of "uint (i_code i)" "int (i_dst i)" "int (i_src i)" "uint (i_off i)" "uint (i_imm i)"]
  have b: "uint (i_code i) < 2 ^ 8" "uint (i_off i) < 2 ^ 16"
    using uint_lt2p [of "i_code i"] uint_lt2p [of "i_off i"] by simp_all
  have code: "(word_of_int (encode_insn i) :: u8) = word_of_int (uint (i_code i))"
    using f(5) b assms by (subst word_of_int_eq_iff) (simp add: take_bit_eq_mod encode_insn_def)
  have off: "(word_of_int (uint (i_off i) + 2 ^ 16 * uint (i_imm i)) :: u16) = word_of_int (uint (i_off i))"
    by (subst word_of_int_eq_iff) (simp add: take_bit_eq_mod)
  have "encode_insn i div 2 ^ 8 mod 16 = int (i_dst i)" "encode_insn i div 2 ^ 12 mod 16 = int (i_src i)"
    "encode_insn i div 2 ^ 16 = uint (i_off i) + 2 ^ 16 * uint (i_imm i)" "encode_insn i div 2 ^ 32 = uint (i_imm i)"
    unfolding encode_insn_def using f(1-4) b assms by simp_all
  then show ?thesis
    using code off unfolding decode_insn_def by (simp del: of_int_add of_int_mult of_int_power)
qed

subsection \<open>The arithmetic reference\<close>

text \<open>
  Arithmetic of any width w, after the eBPF instruction set: results are integers taken modulo
  2^w, division by zero gives zero, remainder by zero leaves the operand, and the shift amount is
  the source operand modulo w.
\<close>

definition shift_amount :: "'a::len word \<Rightarrow> nat" where
  "shift_amount w = nat (uint w mod int LENGTH('a))"

definition alu_ref :: "u8 \<Rightarrow> bool \<Rightarrow> 'a::len word \<Rightarrow> 'a word \<Rightarrow> 'a word" where
  "alu_ref op sg dst src =
     (if op = BPF_ADD then word_of_int (uint dst + uint src)
      else if op = BPF_SUB then word_of_int (uint dst - uint src)
      else if op = BPF_MUL then word_of_int (uint dst * uint src)
      else if op = BPF_DIV then
        word_of_int (if src = 0 then 0 else if sg then sint dst sdiv sint src else uint dst div uint src)
      else if op = BPF_MOD then
        word_of_int (if src = 0 then uint dst else if sg then sint dst smod sint src else uint dst mod uint src)
      else if op = BPF_LSH then word_of_int (uint dst * 2 ^ shift_amount src)
      else if op = BPF_RSH then word_of_int (uint dst div 2 ^ shift_amount src)
      else if op = BPF_ARSH then word_of_int (sint dst div 2 ^ shift_amount src)
      else if op = BPF_NEG then word_of_int (- uint dst)
      else if op = BPF_OR then dst OR src
      else if op = BPF_AND then dst AND src
      else if op = BPF_XOR then dst XOR src
      else dst)"

lemma shift64: "unat (src AND 0x3f) = shift_amount (src :: u64)"
proof -
  have "src AND 0x3f = take_bit 6 src" by (simp add: take_bit_eq_mask mask_eq_exp_minus_1)
  then have "uint (src AND 0x3f) = take_bit 6 (uint src)" by (simp only: unsigned_take_bit_eq)
  then have "uint (src AND 0x3f) = uint src mod 64" by (simp add: take_bit_eq_mod)
  then show ?thesis by (simp add: shift_amount_def flip: nat_uint_eq)
qed

lemma shift32: "unat (src AND 0x1f) = shift_amount (src :: u32)"
proof -
  have "src AND 0x1f = take_bit 5 src" by (simp add: take_bit_eq_mask mask_eq_exp_minus_1)
  then have "uint (src AND 0x1f) = take_bit 5 (uint src)" by (simp only: unsigned_take_bit_eq)
  then have "uint (src AND 0x1f) = uint src mod 32" by (simp add: take_bit_eq_mod)
  then show ?thesis by (simp add: shift_amount_def flip: nat_uint_eq)
qed

lemma shift_int:
  "word_of_int (uint w * 2 ^ n) = push_bit n (w :: 'a::len word)"
  "word_of_int (uint w div 2 ^ n) = drop_bit n w"
  "word_of_int (sint w div 2 ^ n) = signed_drop_bit n w"
proof -
  show "word_of_int (uint w * 2 ^ n) = push_bit n w" by (simp add: push_bit_eq_mult)
  have "uint (drop_bit n w) = drop_bit n (uint w)" using uint_lt2p [of w] by (simp add: unsigned_drop_bit_eq take_bit_int_eq_self)
  then have "uint (drop_bit n w) = uint w div 2 ^ n" by (simp only: drop_bit_eq_div)
  then show "word_of_int (uint w div 2 ^ n) = drop_bit n w" by (metis word_of_int_uint)
  have "sint (signed_drop_bit n w) = sint w div 2 ^ n" by (simp add: sint_signed_drop_bit_eq drop_bit_eq_div)
  then show "word_of_int (sint w div 2 ^ n) = signed_drop_bit n w" by (metis of_int_sint scast_id)
qed

lemma div_int:
  "word_of_int (uint x div uint y) = x div (y :: 'a::len word)"
  "word_of_int (uint x mod uint y) = x mod y"
  by (simp_all add: word_div_def word_mod_def)

text \<open>The guard against the one overflowing quotient changes nothing modulo 2^w.\<close>

lemma sdiv_guard:
  fixes d s :: "'a::len word"
  assumes "k = LENGTH('a) - 1"
  shows "(if sint s = - 1 \<and> sint d = - (2 ^ k) then word_of_int (- (2 ^ k)) else word_of_int (sint d sdiv sint s))
      = (word_of_int (sint d sdiv sint s) :: 'a word)"
    "(if sint s = - 1 \<and> sint d = - (2 ^ k) then 0 else word_of_int (sint d smod sint s)) = (word_of_int (sint d smod sint s) :: 'a word)"
proof -
  have "(2 :: int) ^ LENGTH('a) = 2 * 2 ^ k" using assms len_gt_0 [where 'a = 'a] by (metis Suc_diff_1 power_Suc)
  then have "(2 ^ k :: int) mod 2 ^ LENGTH('a) = (- (2 ^ k)) mod 2 ^ LENGTH('a)"
    by (metis add.inverse_inverse add_diff_cancel_left' diff_minus_eq_add minus_diff_eq mod_add_self2 mult_2)
  then have "(word_of_int (2 ^ k) :: 'a word) = word_of_int (- (2 ^ k))"
    by (subst word_of_int_eq_iff) (simp add: take_bit_eq_mod)
  then show "(if sint s = - 1 \<and> sint d = - (2 ^ k) then word_of_int (- (2 ^ k)) else word_of_int (sint d sdiv sint s))
      = (word_of_int (sint d sdiv sint s) :: 'a word)"
    by (simp add: signed_divide_int_def)
  show "(if sint s = - 1 \<and> sint d = - (2 ^ k) then 0 else word_of_int (sint d smod sint s)) = (word_of_int (sint d smod sint s) :: 'a word)"
    by (simp add: signed_modulo_int_def)
qed

lemma neg_int: "word_of_int (- sint w) = (word_of_int (- uint (w :: 'a::len word)) :: 'a word)"
proof -
  have "word_of_int (- sint w) = - (word_of_int (sint w) :: 'a word)" by (simp only: of_int_minus)
  also have "\<dots> = - w" by simp
  finally show ?thesis by simp
qed

text \<open>An operation that both the implementation and the reference have.\<close>

definition arith_op :: "u8 \<Rightarrow> bool" where
  "arith_op op \<longleftrightarrow> op \<noteq> BPF_MOV \<and> op \<noteq> BPF_END"

lemma alu64_op_ref:
  assumes "arith_op (i_op cur)"
  shows "alu64_op cur dst src = Some (alu_ref (i_op cur) (i_off cur \<noteq> 0) dst src)"
  using assms unfolding alu64_op_def alu_ref_def Let_def arith_op_def neg_int shift64 shift_int
    sdiv_guard [of 63, where 'a = 64, simplified]
  by (simp add: div_int signed_modulo_int_def)

lemma alu_op_ref:
  assumes "arith_op (i_op cur)"
  shows "alu_op cur dst src = alu_ref (i_op cur) (i_off cur \<noteq> 0) dst src"
  using assms unfolding alu_op_def alu_ref_def Let_def arith_op_def neg_int shift32 shift_int
    sdiv_guard [of 31, where 'a = 32, simplified]
  by (simp add: div_int signed_modulo_int_def)

end
