(* ===== verification/Frames.thy ===== *)
theory Frames
  imports Insn
begin

text \<open>
  Stack frames of the interpreter (src/insn.h and src/insn.cpp): the packed word frame_base[0],
  the frame slot before a function's entry (src/frame_slot.h), vm::push_frame, vm::pop_frame,
  vm::alloca, vm::deliver_signal and the backtrace of vm::log_mem_violation. The virtual functions
  of class SyscallHandler and the debugger hooks are the fields of a record the operations take as
  an argument.
\<close>

subsection \<open>The handler interface\<close>

record sig_info =
  si_sig :: int
  si_handler :: u64
  si_sa_flags :: u64
  si_pid :: u64
  si_value :: u64
  si_code :: int
  si_status :: int

record 'h handler =
  h_syscall :: "'h vm \<Rightarrow> u32 \<Rightarrow> (int \<times> 'h vm) option"
  h_handle_signals :: "'h vm \<Rightarrow> (bool \<times> sig_info \<times> 'h vm) option"
  h_build_siginfo :: "'h vm \<Rightarrow> u64 \<Rightarrow> sig_info \<Rightarrow> u64 \<Rightarrow> u64 \<Rightarrow> 'h vm option"
  h_sigreturn :: "'h vm \<Rightarrow> u64 \<Rightarrow> u64 \<Rightarrow> (u64 \<times> 'h vm) option"
  h_syscall_entry :: "'h vm \<Rightarrow> u32 \<Rightarrow> 'h vm option"
  h_syscall_return :: "'h vm \<Rightarrow> u32 \<Rightarrow> 'h vm option"
  h_breakpoint :: "'h vm \<Rightarrow> 'h vm option"

subsection \<open>Flags\<close>

definition VM_EXITED :: u32 where "VM_EXITED = 0x1"
definition VM_STOPPED :: u32 where "VM_STOPPED = 0x2"
definition VM_KILLED :: u32 where "VM_KILLED = 0x4"
definition VM_SIGNAL_PENDING :: u32 where "VM_SIGNAL_PENDING = 0x8"
definition VM_BUDGET_EXCEEDED :: u32 where "VM_BUDGET_EXCEEDED = 0x10"
definition VM_BLOCKED :: u32 where "VM_BLOCKED = 0x20"
definition VM_DEBUG_ATTACHED :: u32 where "VM_DEBUG_ATTACHED = 0x40"
definition VM_DEBUG_STOP :: u32 where "VM_DEBUG_STOP = 0x80"
definition VM_JIT_ABORT :: u32 where "VM_JIT_ABORT = 0x100"

lemmas vm_flag_defs [flag_defs] = VM_EXITED_def VM_STOPPED_def VM_KILLED_def VM_SIGNAL_PENDING_def
  VM_BUDGET_EXCEEDED_def VM_BLOCKED_def VM_DEBUG_ATTACHED_def VM_DEBUG_STOP_def VM_JIT_ABORT_def

definition has_flag :: "'h vm \<Rightarrow> u32 \<Rightarrow> bool" where
  "has_flag s fl \<longleftrightarrow> v_flags s AND fl \<noteq> 0"

definition set_flags :: "u32 \<Rightarrow> 'h vm \<Rightarrow> 'h vm" where
  "set_flags fl s = s\<lparr>v_flags := v_flags s OR fl\<rparr>"

definition clear_flags :: "u32 \<Rightarrow> 'h vm \<Rightarrow> 'h vm" where
  "clear_flags fl s = s\<lparr>v_flags := v_flags s AND NOT fl\<rparr>"

subsection \<open>The packed frame word\<close>

definition STACK_SIZE :: u64 where "STACK_SIZE = 16 * 1024 * 1024"
definition STACK_BASE :: u64 where "STACK_BASE = 0x10000000"
definition NORMAL_FRAME_SIZE :: u64 where "NORMAL_FRAME_SIZE = 64"
definition SIGNAL_FRAME_SIZE :: u64 where "SIGNAL_FRAME_SIZE = 128"
definition SIGINFO_FRAME_SI_OFF :: u64 where "SIGINFO_FRAME_SI_OFF = SIGNAL_FRAME_SIZE"
definition SIGINFO_FRAME_UC_OFF :: u64 where "SIGINFO_FRAME_UC_OFF = SIGINFO_FRAME_SI_OFF + 128"
definition SIGNAL_FRAME_SIGINFO_SIZE :: u64 where "SIGNAL_FRAME_SIGINFO_SIZE = SIGINFO_FRAME_UC_OFF + 264"

lemmas frame_consts [flag_defs] = STACK_SIZE_def STACK_BASE_def NORMAL_FRAME_SIZE_def SIGNAL_FRAME_SIZE_def
  SIGINFO_FRAME_SI_OFF_def SIGINFO_FRAME_UC_OFF_def SIGNAL_FRAME_SIGINFO_SIZE_def

definition FRAME_FLAG_SIGNAL :: u64 where "FRAME_FLAG_SIGNAL = push_bit 48 1"
definition FRAME_FLAG_SIGINFO :: u64 where "FRAME_FLAG_SIGINFO = push_bit 49 1"
definition FRAME_SIZE_MASK :: u64 where "FRAME_SIZE_MASK = 0xFFFFFF"
definition FRAME_ALLOCA_MASK :: u64 where "FRAME_ALLOCA_MASK = 0xFFFFFF"

definition frame_flags_make :: "bool \<Rightarrow> u64 \<Rightarrow> u64 \<Rightarrow> u64" where
  "frame_flags_make is_sig stack_size alloca_len =
     (stack_size AND FRAME_SIZE_MASK)
     OR (push_bit 24 alloca_len AND push_bit 24 FRAME_ALLOCA_MASK)
     OR (if is_sig then FRAME_FLAG_SIGNAL else 0)"

definition frame_is_signal :: "u64 \<Rightarrow> bool" where
  "frame_is_signal flags0 \<longleftrightarrow> flags0 AND FRAME_FLAG_SIGNAL \<noteq> 0"

definition frame_has_siginfo :: "u64 \<Rightarrow> bool" where
  "frame_has_siginfo flags0 \<longleftrightarrow> flags0 AND FRAME_FLAG_SIGINFO \<noteq> 0"

definition frame_stack_size :: "u64 \<Rightarrow> u64" where
  "frame_stack_size flags0 = flags0 AND FRAME_SIZE_MASK"

definition frame_alloca_len :: "u64 \<Rightarrow> u64" where
  "frame_alloca_len flags0 = drop_bit 24 flags0 AND FRAME_ALLOCA_MASK"

definition frame_total_len :: "u64 \<Rightarrow> u64" where
  "frame_total_len flags0 = frame_stack_size flags0 + frame_alloca_len flags0"

subsection \<open>Frame slots\<close>

definition FRAME_SLOT_MAGIC :: u64 where "FRAME_SLOT_MAGIC = 0x6270766D"
definition FRAME_SLOT_SIZE_MASK :: u64 where "FRAME_SLOT_SIZE_MASK = 0xFFFFFFFF"
definition FRAME_SLOT_FALLBACK :: u64 where "FRAME_SLOT_FALLBACK = 0xFFFFFFFF"

definition make_frame_slot :: "u64 \<Rightarrow> u64" where
  "make_frame_slot sz = push_bit 32 FRAME_SLOT_MAGIC OR sz"

definition frame_size_of :: "u64 \<Rightarrow> 'h vm \<Rightarrow> (u64 \<times> 'h vm) option" where
  "frame_size_of callee_entry s =
     (if callee_entry < 8 then Some (v_stack_limit s, s)
      else (let slot_addr = callee_entry - 8 in
            case mmu s slot_addr 8 of
              (None, s1) \<Rightarrow> Some (v_stack_limit s, s1)
            | (Some p, s1) \<Rightarrow>
               (let e = v_tlb s1 (tlb_index slot_addr) in
                if e_end e \<le> callee_entry then Some (v_stack_limit s, s1)
                else if \<not> bit (e_flags e) PF_X then Some (v_stack_limit s, s1)
                else do {
                  v \<leftarrow> peek64 s1 p;
                  Some (if drop_bit 32 v \<noteq> FRAME_SLOT_MAGIC \<or> v AND FRAME_SLOT_SIZE_MASK = FRAME_SLOT_FALLBACK
                        then v_stack_limit s else v AND FRAME_SLOT_SIZE_MASK, s1)
                })))"

subsection \<open>Memory violations\<close>

text \<open>The call chain of the report, at most 64 frames; the text it prints is not modelled.\<close>

fun backtrace :: "nat \<Rightarrow> u64 \<Rightarrow> 'h vm \<Rightarrow> 'h vm option" where
  "backtrace 0 cur_sp s = Some s"
| "backtrace (Suc k) cur_sp s =
     (if cur_sp = 0 then Some s
      else (case mmu s cur_sp 128 of
              (None, s1) \<Rightarrow> Some s1
            | (Some p, s1) \<Rightarrow> do {
                flags0 \<leftarrow> peek64 s1 p;
                old_sp \<leftarrow> peek64 s1 (hadd p 8);
                ret_addr \<leftarrow> peek64 s1 (hadd p 16);
                if old_sp = 0 \<or> old_sp \<le> cur_sp \<or> ret_addr = 0 then Some s1
                else backtrace k old_sp s1
              }))"

definition log_mem_violation :: "'h vm \<Rightarrow> 'h vm option" where
  "log_mem_violation s = do {
     s1 \<leftarrow> backtrace 64 (v_reg s 10) s;
     Some (set_reg 0 (128 + 9) (set_flags VM_KILLED s1))
   }"

subsection \<open>Calls and returns\<close>

definition frame_size_for :: "bool \<Rightarrow> bool \<Rightarrow> u64" where
  "frame_size_for is_signal sa_siginfo =
     (if is_signal then (if sa_siginfo then SIGNAL_FRAME_SIGINFO_SIZE else SIGNAL_FRAME_SIZE)
      else NORMAL_FRAME_SIZE)"

definition frame_words :: "bool \<Rightarrow> bool \<Rightarrow> u64 \<Rightarrow> u64 \<Rightarrow> (nat \<Rightarrow> u64) \<Rightarrow> u64 list" where
  "frame_words is_signal sa_siginfo stack_limit return_addr r =
     [frame_flags_make is_signal stack_limit 0 OR (if sa_siginfo then FRAME_FLAG_SIGINFO else 0),
      r 10, return_addr, r 6, r 7, r 8, r 9]
     @ (if is_signal then [r 0, r 1, r 2, r 3, r 4, r 5] else [])"

definition caller_len :: "'h vm \<Rightarrow> (u64 \<times> 'h vm) option" where
  "caller_len s =
     (case mmu s (v_reg s 10) 8 of
        (None, s1) \<Rightarrow> Some (0, s1)
      | (Some p, s1) \<Rightarrow> map_option (\<lambda>w. (frame_total_len w, s1)) (peek64 s1 p))"

definition push_frame :: "u64 \<Rightarrow> u64 \<Rightarrow> bool \<Rightarrow> bool \<Rightarrow> 'h vm \<Rightarrow> (bool \<times> 'h vm) option" where
  "push_frame return_addr callee_entry is_signal sa_siginfo s = do {
     let frame_size = frame_size_for is_signal sa_siginfo;
     (caller_total_len, s1) \<leftarrow> caller_len s;
     let sp = v_reg s 10 - caller_total_len;
     let frame_base_addr = sp - frame_size;
     if frame_base_addr < STACK_BASE then map_option (Pair False) (log_mem_violation s1)
     else do {
       (fb, s2) \<leftarrow> mmu_w s1 frame_base_addr (sp - frame_base_addr);
       (case fb of
          None \<Rightarrow> map_option (Pair False) (log_mem_violation s2)
        | Some p \<Rightarrow> do {
            (stack_limit, s3) \<leftarrow> frame_size_of callee_entry s2;
            s4 \<leftarrow> poke s3 p (concat (map u64_bytes
                    (frame_words is_signal sa_siginfo stack_limit return_addr (v_reg s3))));
            let s5 = (if is_signal then s4\<lparr>v_signal_depth := v_signal_depth s4 + 1\<rparr> else s4);
            Some (True, set_reg 10 frame_base_addr s5)
          })
     }
   }"

primrec peek_words :: "'h vm \<Rightarrow> hptr \<Rightarrow> nat \<Rightarrow> u64 list option" where
  "peek_words s p 0 = Some []"
| "peek_words s p (Suc n) = do {
     w \<leftarrow> peek64 s p;
     ws \<leftarrow> peek_words s (hadd p 8) n;
     Some (w # ws)
   }"

definition restore_regs :: "nat list \<Rightarrow> u64 list \<Rightarrow> 'h vm \<Rightarrow> 'h vm" where
  "restore_regs rs ws s = fold (\<lambda>(r, w). set_reg r w) (zip rs ws) s"

definition pop_frame :: "'h handler \<Rightarrow> 'h vm \<Rightarrow> (u64 \<times> 'h vm) option" where
  "pop_frame H s =
     (let sp = v_reg s 10 in
      case mmu s sp (13 * 8) of
        (None, s1) \<Rightarrow> Some (0, s1)
      | (Some p, s1) \<Rightarrow> do {
          ws \<leftarrow> peek_words s1 p 7;
          let is_signal = frame_is_signal (ws ! 0);
          let has_siginfo = frame_has_siginfo (ws ! 0);
          let s2 = restore_regs [6, 7, 8, 9] (drop 3 ws) s1;
          s3 \<leftarrow> (if is_signal
                 then do {
                   vs \<leftarrow> peek_words s1 (hadd p 56) 6;
                   Some (restore_regs [0, 1, 2, 3, 4, 5] vs (s2\<lparr>v_signal_depth := v_signal_depth s2 - 1\<rparr>))
                 }
                 else Some s2);
          let s4 = set_reg 10 (ws ! 1) s3;
          if is_signal \<and> has_siginfo then h_sigreturn H s4 sp (ws ! 2)
          else Some (ws ! 2, s4)
        })"

subsection \<open>Dynamic stack allocation\<close>

abbreviation (input) EINTR :: int where "EINTR \<equiv> 4"
abbreviation (input) ENOMEM :: int where "ENOMEM \<equiv> 12"
abbreviation (input) EFAULT :: int where "EFAULT \<equiv> 14"
abbreviation (input) EINVAL :: int where "EINVAL \<equiv> 22"
abbreviation (input) ENOSYS :: int where "ENOSYS \<equiv> 38"

text \<open>The increment and the result are int64_t values; the sum wraps as the host's does.\<close>

definition new_alloca_len :: "u64 \<Rightarrow> int \<Rightarrow> int" where
  "new_alloca_len flags0 inc = sint (word_of_int (uint (frame_alloca_len flags0) + inc) :: u64)"

definition alloca_word :: "u64 \<Rightarrow> int \<Rightarrow> u64" where
  "alloca_word flags0 new_alloca =
     (flags0 AND NOT (push_bit 24 FRAME_ALLOCA_MASK)) OR push_bit 24 (word_of_int new_alloca)"

definition alloca_resize :: "hptr \<Rightarrow> u64 \<Rightarrow> int \<Rightarrow> 'h vm \<Rightarrow> (int \<times> 'h vm) option" where
  "alloca_resize p flags0 inc s = do {
     let r10 = v_reg s 10;
     let new_alloca = new_alloca_len flags0 inc;
     let new_total = frame_stack_size flags0 + word_of_int new_alloca;
     if new_alloca < 0 then Some (- EINVAL, s)
     else if new_alloca > uint FRAME_ALLOCA_MASK \<or> r10 < STACK_BASE + new_total then Some (- ENOMEM, s)
     else do {
       (room, s2) \<leftarrow> (if inc > 0 then mmu_w s (r10 - new_total) new_total else Some (Some p, s));
       (case room of
          None \<Rightarrow> Some (- ENOMEM, s2)
        | Some _ \<Rightarrow> map_option (Pair (sint (r10 - new_total))) (poke s2 p (u64_bytes (alloca_word flags0 new_alloca))))
     }
   }"

definition alloca :: "int \<Rightarrow> 'h vm \<Rightarrow> (int \<times> 'h vm) option" where
  "alloca inc s = do {
     (fr, s1) \<leftarrow> mmu_w s (v_reg s 10) 8;
     (case fr of
        None \<Rightarrow> Some (- EFAULT, s1)
      | Some p \<Rightarrow> peek64 s1 p \<bind> (\<lambda>flags0. alloca_resize p flags0 inc s1))
   }"

subsection \<open>Signal delivery\<close>

definition SA_RESTART :: u64 where "SA_RESTART = 0x10000000"
definition SA_SIGINFO :: u64 where "SA_SIGINFO = 4"

text \<open>The return address of the signal frame, and the interrupted call's result when it is not restarted.\<close>

definition restart_point :: "sig_info \<Rightarrow> 'h vm \<Rightarrow> u64 \<times> 'h vm" where
  "restart_point info s =
     (if v_restart_pc s = 0 then (v_pc s, s)
      else (let s' = s\<lparr>v_restart_pc := 0, v_restart_nohand := False\<rparr> in
            if si_sa_flags info AND SA_RESTART \<noteq> 0 \<and> \<not> v_restart_nohand s then (v_restart_pc s, s')
            else (v_restart_pc s + 8, set_reg 0 (word_of_int (- EINTR)) s')))"

definition enter_handler :: "'h handler \<Rightarrow> sig_info \<Rightarrow> 'h vm \<Rightarrow> (bool \<times> 'h vm) option" where
  "enter_handler H info s = do {
     let (ret_addr, s3) = restart_point info s;
     let want_siginfo = (si_sa_flags info AND SA_SIGINFO \<noteq> 0);
     let interrupted_sp = v_reg s3 10;
     (pushed, s4) \<leftarrow> push_frame ret_addr (si_handler info) True want_siginfo s3;
     if \<not> pushed then Some (False, s4)
     else do {
       s5 \<leftarrow> (if want_siginfo
              then do {
                s5 \<leftarrow> h_build_siginfo H s4 (v_reg s4 10) info ret_addr interrupted_sp;
                Some (set_reg 3 (v_reg s5 10 + SIGINFO_FRAME_UC_OFF) (set_reg 2 (v_reg s5 10 + SIGINFO_FRAME_SI_OFF) s5))
              }
              else Some s4);
       Some (True, (set_reg 1 (word_of_int (si_sig info)) s5)\<lparr>v_pc := si_handler info\<rparr>)
     }
   }"

definition deliver_signal :: "'h handler \<Rightarrow> 'h vm \<Rightarrow> (bool \<times> 'h vm) option" where
  "deliver_signal H s = do {
     (ok, info, s1) \<leftarrow> h_handle_signals H s;
     if \<not> ok then Some (False, s1)
     else if si_sig info = 0 then
       Some (True, if v_restart_pc s1 \<noteq> 0
                   then s1\<lparr>v_pc := v_restart_pc s1, v_restart_pc := 0, v_restart_nohand := False\<rparr> else s1)
     else (case mmu s1 (si_handler info) 8 of
       (None, s2) \<Rightarrow> Some (False, s2)
     | (Some _, s2) \<Rightarrow> enter_handler H info s2)
   }"

end
