(* ===== verification/Soft_Fp.thy ===== *)
theory Soft_Fp
  imports Frames
begin

text \<open>
  The virtual floating-point instructions (src/include/bpf_fp.h and vm::do_softfp of src/insn.cpp).
  Host floating-point arithmetic, square roots and conversions are a parameter: a record of
  functions on bit patterns. Sign operations, comparisons, the wide multiplication and the 128-bit
  divisions are defined on the bits.
\<close>

record fpu =
  fp_add_f :: "u32 \<Rightarrow> u32 \<Rightarrow> u32"
  fp_sub_f :: "u32 \<Rightarrow> u32 \<Rightarrow> u32"
  fp_mul_f :: "u32 \<Rightarrow> u32 \<Rightarrow> u32"
  fp_div_f :: "u32 \<Rightarrow> u32 \<Rightarrow> u32"
  fp_add_d :: "u64 \<Rightarrow> u64 \<Rightarrow> u64"
  fp_sub_d :: "u64 \<Rightarrow> u64 \<Rightarrow> u64"
  fp_mul_d :: "u64 \<Rightarrow> u64 \<Rightarrow> u64"
  fp_div_d :: "u64 \<Rightarrow> u64 \<Rightarrow> u64"
  fp_sqrt_f :: "u32 \<Rightarrow> u32"
  fp_sqrt_d :: "u64 \<Rightarrow> u64"
  fp_f2si :: "u32 \<Rightarrow> u32"
  fp_f2di :: "u32 \<Rightarrow> u64"
  fp_f2usi :: "u32 \<Rightarrow> u32"
  fp_f2udi :: "u32 \<Rightarrow> u64"
  fp_d2si :: "u64 \<Rightarrow> u32"
  fp_d2di :: "u64 \<Rightarrow> u64"
  fp_d2usi :: "u64 \<Rightarrow> u32"
  fp_d2udi :: "u64 \<Rightarrow> u64"
  fp_di2d :: "u64 \<Rightarrow> u64"
  fp_udi2d :: "u64 \<Rightarrow> u64"
  fp_di2f :: "u64 \<Rightarrow> u32"
  fp_udi2f :: "u64 \<Rightarrow> u32"
  fp_extend :: "u32 \<Rightarrow> u64"
  fp_trunc :: "u64 \<Rightarrow> u32"

subsection \<open>IEEE 754 on bit patterns\<close>

definition nan_d :: "u64 \<Rightarrow> bool" where
  "nan_d w \<longleftrightarrow> w AND 0x7FFFFFFFFFFFFFFF > 0x7FF0000000000000"

definition nan_f :: "u32 \<Rightarrow> bool" where
  "nan_f w \<longleftrightarrow> w AND 0x7FFFFFFF > 0x7F800000"

definition key_d :: "u64 \<Rightarrow> int" where
  "key_d w = (if bit w 63 then - uint (w AND 0x7FFFFFFFFFFFFFFF) else uint (w AND 0x7FFFFFFFFFFFFFFF))"

definition key_f :: "u32 \<Rightarrow> int" where
  "key_f w = (if bit w 31 then - uint (w AND 0x7FFFFFFF) else uint (w AND 0x7FFFFFFF))"

definition lt_d :: "u64 \<Rightarrow> u64 \<Rightarrow> bool" where
  "lt_d a b \<longleftrightarrow> \<not> nan_d a \<and> \<not> nan_d b \<and> key_d a < key_d b"

definition lt_f :: "u32 \<Rightarrow> u32 \<Rightarrow> bool" where
  "lt_f a b \<longleftrightarrow> \<not> nan_f a \<and> \<not> nan_f b \<and> key_f a < key_f b"

subsection \<open>128-bit division\<close>

definition div128 :: "u32 \<Rightarrow> u64 \<Rightarrow> u64 \<Rightarrow> u64 \<Rightarrow> u64 \<Rightarrow> u64 \<times> u64" where
  "div128 op aLo aHi bLo bHi =
     (if bLo = 0 \<and> bHi = 0 then (0, 0)
      else if op = 40 \<or> op = 42 then
        (let a = uint aHi * 2 ^ 64 + uint aLo; b = uint bHi * 2 ^ 64 + uint bLo;
             res = (if op = 40 then a div b else a mod b)
         in (word_of_int res, word_of_int (res div 2 ^ 64)))
      else
        (let a = sint aHi * 2 ^ 64 + uint aLo; b = sint bHi * 2 ^ 64 + uint bLo;
             res = (if op = 41 then a sdiv b else a smod b)
         in (word_of_int res, word_of_int (res div 2 ^ 64))))"

subsection \<open>The dispatcher\<close>

text \<open>The operations that only compute r0 from r1 and r2; None where there is no such operation.\<close>

definition softfp_pure :: "fpu \<Rightarrow> u32 \<Rightarrow> u64 \<Rightarrow> u64 \<Rightarrow> u64 option" where
  "softfp_pure F op a b =
     (let fa = ucast a :: u32; fb = ucast b :: u32; f_out = (\<lambda>w :: u32. ucast w :: u64) in
      if op = 5 then Some (fp_add_d F a b)
      else if op = 6 then Some (fp_sub_d F a b)
      else if op = 7 then Some (fp_mul_d F a b)
      else if op = 8 then Some (fp_div_d F a b)
      else if op = 1 then Some (f_out (fp_add_f F fa fb))
      else if op = 2 then Some (f_out (fp_sub_f F fa fb))
      else if op = 3 then Some (f_out (fp_mul_f F fa fb))
      else if op = 4 then Some (f_out (fp_div_f F fa fb))
      else if op = 10 then Some (a XOR 0x8000000000000000)
      else if op = 9 then Some (f_out (fa XOR 0x80000000))
      else if op = 12 then Some (fp_sqrt_d F a)
      else if op = 11 then Some (f_out (fp_sqrt_f F fa))
      else if op = 17 then Some (sx32 (fp_d2si F a))
      else if op = 18 then Some (fp_d2di F a)
      else if op = 19 then Some (ucast (fp_d2usi F a))
      else if op = 20 then Some (fp_d2udi F a)
      else if op = 13 then Some (sx32 (fp_f2si F fa))
      else if op = 14 then Some (fp_f2di F fa)
      else if op = 15 then Some (ucast (fp_f2usi F fa))
      else if op = 16 then Some (fp_f2udi F fa)
      else if op = 25 then Some (fp_di2d F (sx32 fa))
      else if op = 26 then Some (fp_di2d F a)
      else if op = 27 then Some (fp_udi2d F (ucast fa))
      else if op = 28 then Some (fp_udi2d F a)
      else if op = 21 then Some (f_out (fp_di2f F (sx32 fa)))
      else if op = 22 then Some (f_out (fp_di2f F a))
      else if op = 23 then Some (f_out (fp_udi2f F (ucast fa)))
      else if op = 24 then Some (f_out (fp_udi2f F a))
      else if op = 29 then Some (fp_extend F fa)
      else if op = 30 then Some (f_out (fp_trunc F a))
      else if op = 32 then Some (if lt_d a b then -1 else if lt_d b a then 1 else 0)
      else if op = 31 then Some (if lt_f fa fb then -1 else if lt_f fb fa then 1 else 0)
      else if op = 34 then Some (if nan_d a \<or> nan_d b then 1 else 0)
      else if op = 33 then Some (if nan_f fa \<or> nan_f fb then 1 else 0)
      else if op = 36 then Some (a AND 0x7FFFFFFFFFFFFFFF)
      else if op = 35 then Some (f_out (fa AND 0x7FFFFFFF))
      else if op = 38 then Some ((a AND 0x7FFFFFFFFFFFFFFF) OR (b AND 0x8000000000000000))
      else if op = 37 then Some (f_out ((fa AND 0x7FFFFFFF) OR (fb AND 0x80000000)))
      else if op = 39 then Some (word_of_int (uint a * uint b div 2 ^ 64))
      else None)"

definition do_softfp :: "fpu \<Rightarrow> u32 \<Rightarrow> 'h vm \<Rightarrow> (bool \<times> 'h vm) option" where
  "do_softfp F op s =
     (let r = v_reg s in
      case softfp_pure F op (r 1) (r 2) of
        Some v \<Rightarrow> Some (True, set_reg 0 v s)
      | None \<Rightarrow>
         (if op = 40 \<or> op = 41 \<or> op = 42 \<or> op = 43 then
            (let (resLo, resHi) = div128 op (r 2) (r 3) (r 4) (r 5) in
             do {
               (ok, s1) \<leftarrow> guest_write s (r 1) (u64_bytes resHi);
               if ok then Some (True, set_reg 0 resLo s1) else Some (False, s1)
             })
          else Some (True, set_reg 0 (word_of_int (- ENOSYS)) s)))"

end
