(* ===== verification/Interp.thy ===== *)
theory Interp
  imports Soft_Fp
begin

text \<open>
  The interpreter of src/insn.cpp: memory instructions, jumps and calls, the safepoint, one step
  and the run loop. Fetch reads the instruction word once; the just-in-time compiler is the stub of
  a host without one, whose compile always declines, so that every instruction is interpreted.
\<close>

text \<open>A step goes on, ends the run, or sleeps for a wake-up that does not come.\<close>

datatype outcome = Go | Halt | Blocked

definition of_bool_out :: "bool \<Rightarrow> outcome" where
  "of_bool_out b = (if b then Go else Halt)"

subsection \<open>Loads\<close>

definition access_size :: "u8 \<Rightarrow> nat" where
  "access_size code =
     (let sz = code AND 0x18 in
      if sz = BPF_DW then 8 else if sz = BPF_W then 4 else if sz = BPF_H then 2 else 1)"

text \<open>
  vm::ld checks that the guest can read the second slot, but takes its immediate through the host
  pointer of the first slot.
\<close>

definition ld :: "bpf_insn \<Rightarrow> hptr \<Rightarrow> 'h vm \<Rightarrow> (bool \<times> 'h vm) option" where
  "ld cur cur_ptr s =
     (if i_dst cur \<ge> 10 then Some (False, s)
      else (case mmu s (v_pc s + 8) 8 of
              (None, s1) \<Rightarrow> map_option (Pair False) (log_mem_violation s1)
            | (Some _, s1) \<Rightarrow> do {
                v \<leftarrow> peek s1 (hadd cur_ptr 8) 8;
                let imm2 = i_imm (decode_insn v);
                Some (True, (set_reg (i_dst cur) (push_bit 32 (sx32 imm2) OR ucast (i_imm cur)) s1)
                              \<lparr>v_pc := v_pc s1 + 8\<rparr>)
              }))"

definition zero_extend_load :: "u8 \<Rightarrow> int \<Rightarrow> u64" where
  "zero_extend_load sz v =
     (if sz = BPF_DW then word_of_int v
      else if sz = BPF_W then ucast (word_of_int v :: u32)
      else if sz = BPF_H then ucast (word_of_int v :: u16)
      else ucast (word_of_int v :: u8))"

definition sign_extend_load :: "u8 \<Rightarrow> int \<Rightarrow> u64" where
  "sign_extend_load sz v =
     (if sz = BPF_W then scast (word_of_int v :: u32)
      else if sz = BPF_H then scast (word_of_int v :: u16)
      else scast (word_of_int v :: u8))"

definition ldx :: "bpf_insn \<Rightarrow> 'h vm \<Rightarrow> (bool \<times> 'h vm) option" where
  "ldx cur s =
     (if i_dst cur \<ge> 10 then Some (False, s)
      else (let n = access_size (i_code cur) in
            case mmu s (v_reg s (i_src cur) + sx16 (i_off cur)) (of_nat n) of
              (None, s1) \<Rightarrow> map_option (Pair False) (log_mem_violation s1)
            | (Some p, s1) \<Rightarrow>
                (if i_mode cur = BPF_MEM then do {
                   v \<leftarrow> peek s1 p n;
                   Some (True, set_reg (i_dst cur) (zero_extend_load (i_size cur) v) s1)
                 }
                 else if i_mode cur = BPF_MEMSX then
                   (if i_size cur = BPF_DW then Some (False, s1)
                    else do {
                      v \<leftarrow> peek s1 p n;
                      Some (True, set_reg (i_dst cur) (sign_extend_load (i_size cur) v) s1)
                    })
                 else Some (False, s1))))"

subsection \<open>Stores and atomic operations\<close>

definition store_at :: "bpf_insn \<Rightarrow> u64 \<Rightarrow> u64 \<Rightarrow> 'h vm \<Rightarrow> (bool \<times> 'h vm) option" where
  "store_at cur a v s = do {
     (ok, s1) \<leftarrow> guest_write s a (le_bytes (access_size (i_code cur)) (uint v));
     if ok then Some (True, s1) else map_option (Pair False) (log_mem_violation s1)
   }"

definition st_insn :: "bpf_insn \<Rightarrow> 'h vm \<Rightarrow> (bool \<times> 'h vm) option" where
  "st_insn cur s = store_at cur (v_reg s (i_dst cur) + sx16 (i_off cur)) (sx32 (i_imm cur)) s"

text \<open>
  The new memory value, the value given to the source register and the value given to r0 of one
  atomic operation on a cell of any width; None for an operation code that is not one.
\<close>

definition do_atomic :: "u32 \<Rightarrow> 'a::len word \<Rightarrow> u64 \<Rightarrow> u64 \<Rightarrow> ('a word \<times> u64 option \<times> u64 option) option" where
  "do_atomic op old src_reg r0 =
     (let src = ucast src_reg :: 'a word in
      if op = 0x00 then Some (old + src, None, None)
      else if op = 0x40 then Some (old OR src, None, None)
      else if op = 0x50 then Some (old AND src, None, None)
      else if op = 0xa0 then Some (old XOR src, None, None)
      else if op = 0x01 then Some (old + src, Some (ucast old), None)
      else if op = 0x41 then Some (old OR src, Some (ucast old), None)
      else if op = 0x51 then Some (old AND src, Some (ucast old), None)
      else if op = 0xa1 then Some (old XOR src, Some (ucast old), None)
      else if op = 0xe1 then Some (src, Some (ucast old), None)
      else if op = 0xf1 then Some (if old = ucast r0 then src else old, None, Some (ucast old))
      else None)"

definition set_reg_opt :: "nat \<Rightarrow> u64 option \<Rightarrow> 'h vm \<Rightarrow> 'h vm" where
  "set_reg_opt n v s = (case v of None \<Rightarrow> s | Some x \<Rightarrow> set_reg n x s)"

text \<open>The atomic result as the bytes to store, for a cell of 8 or 4 bytes.\<close>

definition atomic_cell :: "nat \<Rightarrow> u32 \<Rightarrow> int \<Rightarrow> u64 \<Rightarrow> u64 \<Rightarrow> (u8 list \<times> u64 option \<times> u64 option) option" where
  "atomic_cell n op v src_reg r0 =
     (if n = 8 then map_option (\<lambda>(w, x, y). (le_bytes 8 (uint w), x, y)) (do_atomic op (word_of_int v :: u64) src_reg r0)
      else map_option (\<lambda>(w, x, y). (le_bytes 4 (uint w), x, y)) (do_atomic op (word_of_int v :: u32) src_reg r0))"

definition atomic :: "bpf_insn \<Rightarrow> nat \<Rightarrow> 'h vm \<Rightarrow> (bool \<times> 'h vm) option" where
  "atomic cur n s = do {
     (r, s1) \<leftarrow> mmu_w s (v_reg s (i_dst cur) + sx16 (i_off cur)) (of_nat n);
     (case r of
        None \<Rightarrow> map_option (Pair False) (log_mem_violation s1)
      | Some p \<Rightarrow> do {
          v \<leftarrow> peek s1 p n;
          (case atomic_cell n (i_imm cur) v (v_reg s1 (i_src cur)) (v_reg s1 0) of
             None \<Rightarrow> Some (False, s1)
           | Some (bs, x, y) \<Rightarrow> do {
               s2 \<leftarrow> poke s1 p bs;
               Some (True, set_reg_opt 0 y (set_reg_opt (i_src cur) x s2))
             })
        })
   }"

definition stx :: "bpf_insn \<Rightarrow> 'h vm \<Rightarrow> (bool \<times> 'h vm) option" where
  "stx cur s =
     (if i_mode cur = BPF_ATOMIC then
        (let sz = (if i_size cur = BPF_DW then 8 else if i_size cur = BPF_W then 4 else 0) in
         if sz = 0 then Some (False, s) else atomic cur sz s)
      else store_at cur (v_reg s (i_dst cur) + sx16 (i_off cur)) (v_reg s (i_src cur)) s)"

subsection \<open>Blocking\<close>

fun debug_park_loop :: "u32 list \<Rightarrow> 'h vm \<Rightarrow> bool \<times> 'h vm" where
  "debug_park_loop es s =
     (if \<not> has_flag s VM_DEBUG_STOP \<or> has_flag s VM_KILLED then (True, s\<lparr>v_env := es\<rparr>)
      else (case es of [] \<Rightarrow> (False, s\<lparr>v_env := []\<rparr>) | e # es' \<Rightarrow> debug_park_loop es' (s\<lparr>v_flags := e\<rparr>)))"

declare debug_park_loop.simps [simp del]

text \<open>True once the debugger lets the thread go on.\<close>

definition debug_park :: "'h vm \<Rightarrow> bool \<times> 'h vm" where
  "debug_park s = debug_park_loop (v_env s) s"

definition park_if_stopped :: "'h vm \<Rightarrow> bool \<times> 'h vm" where
  "park_if_stopped s = (if has_flag s VM_DEBUG_STOP then debug_park s else (True, s))"

abbreviation (input) SYSCALL_RESTART :: int where "SYSCALL_RESTART \<equiv> -512"
abbreviation (input) SYSCALL_RESTART_NOHAND :: int where "SYSCALL_RESTART_NOHAND \<equiv> -511"

definition finish_syscall :: "'h handler \<Rightarrow> u32 \<Rightarrow> int \<Rightarrow> 'h vm \<Rightarrow> (outcome \<times> 'h vm) option" where
  "finish_syscall H call ret s =
     (if ret = SYSCALL_RESTART \<or> ret = SYSCALL_RESTART_NOHAND then
        Some (Go, s\<lparr>v_restart_pc := v_pc s, v_restart_nohand := (ret = SYSCALL_RESTART_NOHAND)\<rparr>)
      else (let s1 = set_reg 0 (word_of_int ret) s in
            if has_flag s1 (VM_EXITED OR VM_KILLED) then Some (Halt, s1)
            else if has_flag s1 VM_DEBUG_ATTACHED then do {
              s2 \<leftarrow> h_syscall_return H s1 call;
              let (go, s3) = park_if_stopped s2;
              Some (if go then Go else Blocked, s3)
            }
            else Some (Go, s1)))"

definition do_syscall :: "'h handler \<Rightarrow> u32 \<Rightarrow> 'h vm \<Rightarrow> (outcome \<times> 'h vm) option" where
  "do_syscall H call s = do {
     (go, s1) \<leftarrow> (if has_flag s VM_DEBUG_ATTACHED
                  then map_option park_if_stopped (h_syscall_entry H s call) else Some (True, s));
     if \<not> go then Some (Blocked, s1)
     else do {
       (ret, s2) \<leftarrow> h_syscall H s1 call;
       finish_syscall H call ret s2
     }
   }"

subsection \<open>Jumps\<close>

definition cond_taken :: "u8 \<Rightarrow> 'a::len word \<Rightarrow> 'a word \<Rightarrow> bool" where
  "cond_taken op dst src =
     (if op = BPF_JEQ then dst = src
      else if op = BPF_JGT then dst > src
      else if op = BPF_JGE then dst \<ge> src
      else if op = BPF_JSET then dst AND src \<noteq> 0
      else if op = BPF_JNE then dst \<noteq> src
      else if op = BPF_JSGT then sint dst > sint src
      else if op = BPF_JSGE then sint dst \<ge> sint src
      else if op = BPF_JLT then dst < src
      else if op = BPF_JLE then dst \<le> src
      else if op = BPF_JSLT then sint dst < sint src
      else if op = BPF_JSLE then sint dst \<le> sint src
      else False)"

definition jump_by :: "u64 \<Rightarrow> 'h vm \<Rightarrow> 'h vm" where
  "jump_by d s = s\<lparr>v_pc := v_pc s + d * 8\<rparr>"

definition call_insn :: "fpu \<Rightarrow> 'h handler \<Rightarrow> bpf_insn \<Rightarrow> 'h vm \<Rightarrow> (outcome \<times> 'h vm) option" where
  "call_insn F H cur s =
     (if i_is_x cur then do {
        (ok, s1) \<leftarrow> push_frame (v_pc s + 8) (v_reg s (i_dst cur)) False False s;
        Some (if ok then (Go, s1\<lparr>v_pc := v_reg s1 (i_dst cur) - 8\<rparr>) else (Halt, s1))
      }
      else if i_src cur = 0 then do_syscall H (i_imm cur) s
      else if i_src cur = 1 then do {
        (ok, s1) \<leftarrow> push_frame (v_pc s + 8) (v_pc s + 8 + sx32 (i_imm cur) * 8) False False s;
        Some (if ok then (Go, jump_by (sx32 (i_imm cur)) s1) else (Halt, s1))
      }
      else if i_src cur = 2 then map_option (map_prod of_bool_out id) (do_softfp F (i_imm cur) s)
      else Some (Go, s))"

definition jmp :: "fpu \<Rightarrow> 'h handler \<Rightarrow> bpf_insn \<Rightarrow> 'h vm \<Rightarrow> (outcome \<times> 'h vm) option" where
  "jmp F H cur s =
     (let src = (if i_is_x cur then v_reg s (i_src cur) else sx32 (i_imm cur));
          op = i_op cur in
      if op = BPF_JA then Some (Go, jump_by (sx16 (i_off cur)) s)
      else if op = BPF_CALL then call_insn F H cur s
      else if op = BPF_EXIT then do {
        (ret, s1) \<leftarrow> pop_frame H s;
        Some (if ret = 0 then (Halt, s1) else (Go, s1\<lparr>v_pc := ret - 8\<rparr>))
      }
      else Some (Go, if cond_taken op (v_reg s (i_dst cur)) src then jump_by (sx16 (i_off cur)) s else s))"

definition jmp32 :: "bpf_insn \<Rightarrow> 'h vm \<Rightarrow> outcome \<times> 'h vm" where
  "jmp32 cur s =
     (let src = (if i_is_x cur then ucast (v_reg s (i_src cur)) else i_imm cur) :: u32;
          dst = ucast (v_reg s (i_dst cur)) :: u32;
          op = i_op cur in
      if op = BPF_JA then (Go, jump_by (sx32 (i_imm cur)) s)
      else if op = BPF_CALL \<or> op = BPF_EXIT then (Halt, s)
      else (Go, if cond_taken op dst src then jump_by (sx16 (i_off cur)) s else s))"

subsection \<open>Safepoints\<close>

fun stop_loop :: "u32 list \<Rightarrow> 'h vm \<Rightarrow> outcome \<times> 'h vm" where
  "stop_loop es s =
     (if has_flag s (VM_EXITED OR VM_KILLED OR VM_BUDGET_EXCEEDED) then
        (Halt, (if has_flag s VM_KILLED then set_reg 0 (128 + 9) s else s)\<lparr>v_env := es\<rparr>)
      else if \<not> has_flag s VM_STOPPED then (Go, s\<lparr>v_env := es\<rparr>)
      else (case es of [] \<Rightarrow> (Blocked, s\<lparr>v_env := []\<rparr>) | e # es' \<Rightarrow> stop_loop es' (s\<lparr>v_flags := e\<rparr>)))"

declare stop_loop.simps [simp del]

definition safepoint :: "'h handler \<Rightarrow> 'h vm \<Rightarrow> (outcome \<times> 'h vm) option" where
  "safepoint H s = do {
     let s1 = clear_flags VM_JIT_ABORT s;
     (ok, s2) \<leftarrow> (if v_signal_depth s1 = 0 then deliver_signal H s1 else Some (True, s1));
     if \<not> ok then Some (Halt, s2)
     else (case stop_loop (v_env s2) s2 of
             (Go, s3) \<Rightarrow> map_option (map_prod of_bool_out id) (deliver_signal H s3)
           | (oc, s3) \<Rightarrow> Some (oc, s3))
   }"

subsection \<open>One step\<close>

definition exec_insn :: "fpu \<Rightarrow> 'h handler \<Rightarrow> bpf_insn \<Rightarrow> hptr \<Rightarrow> 'h vm \<Rightarrow> (outcome \<times> 'h vm) option" where
  "exec_insn F H cur p s =
     (let b = map_option (map_prod of_bool_out id); c = i_class cur in
      if c = BPF_LD then b (ld cur p s)
      else if c = BPF_LDX then b (ldx cur s)
      else if c = BPF_ST then b (st_insn cur s)
      else if c = BPF_STX then b (stx cur s)
      else if c = BPF_ALU then b (Some (alu cur s))
      else if c = BPF_ALU64 then b (Some (alu64 cur s))
      else if c = BPF_JMP then jmp F H cur s
      else Some (jmp32 cur s))"

definition fetch_exec :: "fpu \<Rightarrow> 'h handler \<Rightarrow> 'h vm \<Rightarrow> (outcome \<times> 'h vm) option" where
  "fetch_exec F H s =
     (case mmu s (v_pc s) 8 of
        (None, s1) \<Rightarrow> map_option (Pair Halt) (log_mem_violation s1)
      | (Some p, s1) \<Rightarrow> do {
          v \<leftarrow> peek s1 p 8;
          let cur = decode_insn v;
          if i_dst cur > 10 \<or> i_src cur > 10 then map_option (Pair Halt) (log_mem_violation s1)
          else do {
            (go, s2) \<leftarrow> (if has_flag s1 VM_DEBUG_ATTACHED
                         then map_option park_if_stopped (h_breakpoint H s1) else Some (True, s1));
            if go then exec_insn F H cur p s2 else Some (Blocked, s2)
          }
        })"

definition step_enter :: "'h handler \<Rightarrow> 'h vm \<Rightarrow> (outcome \<times> 'h vm) option" where
  "step_enter H s =
     (let s1 = s\<lparr>v_interp_insns := v_interp_insns s + 1, v_insn_count := v_insn_count s + 1\<rparr> in
      if v_insn_limit s1 \<noteq> 0 \<and> v_insn_count s1 \<ge> v_insn_limit s1 then Some (Halt, set_flags VM_BUDGET_EXCEEDED s1)
      else if v_flags s1 \<noteq> 0 then safepoint H s1
      else Some (Go, s1))"

definition step :: "fpu \<Rightarrow> 'h handler \<Rightarrow> 'h vm \<Rightarrow> (outcome \<times> 'h vm) option" where
  "step F H s = do {
     (oc, s1) \<leftarrow> step_enter H s;
     if oc = Go then fetch_exec F H s1 else Some (oc, s1)
   }"

text \<open>The loop of vm::run, cut off with outcome Go after the given number of steps.\<close>

fun run_loop :: "fpu \<Rightarrow> 'h handler \<Rightarrow> nat \<Rightarrow> 'h vm \<Rightarrow> (outcome \<times> 'h vm) option" where
  "run_loop F H 0 s = Some (Go, s)"
| "run_loop F H (Suc n) s = do {
     (oc, s1) \<leftarrow> step F H s;
     if oc = Go then run_loop F H n (s1\<lparr>v_pc := v_pc s1 + 8\<rparr>) else Some (oc, s1)
   }"

text \<open>The end of vm::run: the exit code and the final flags.\<close>

definition run_finish :: "'h vm \<Rightarrow> u64 \<times> 'h vm" where
  "run_finish s =
     (let s1 = (if has_flag s VM_BUDGET_EXCEEDED then set_reg 0 255 s else s);
          s2 = set_flags VM_EXITED s1
      in (v_reg s2 0, s2))"

subsection \<open>The empty handler\<close>

definition no_signal :: sig_info where
  "no_signal = \<lparr>si_sig = 0, si_handler = 0, si_sa_flags = 0, si_pid = 0, si_value = 0, si_code = 0, si_status = 0\<rparr>"

text \<open>
  class EmptySyscall (src/empty_syscall.h) with the default virtual functions of SyscallHandler and
  no debugger attached.
\<close>

definition empty_syscall :: "'h handler" where
  "empty_syscall =
     \<lparr>h_syscall = (\<lambda>s c. Some (- ENOSYS, s)),
      h_handle_signals = (\<lambda>s. Some (True, no_signal, s)),
      h_build_siginfo = (\<lambda>s base i pc sp. Some s),
      h_sigreturn = (\<lambda>s base pc. Some (pc, s)),
      h_syscall_entry = (\<lambda>s c. Some s),
      h_syscall_return = (\<lambda>s c. Some s),
      h_breakpoint = (\<lambda>s. Some s)\<rparr>"

end
