(* ===== verification/Frame_Safety.thy ===== *)
theory Frame_Safety
  imports Frames
begin

text \<open>
  The frame operations keep the machine invariant, never touch the memory of another address
  space, and in strict mode never fault. The contract of a syscall handler is a locale; what
  depends on it is proved once for every handler that satisfies it.
\<close>

lemma step_ok_set [simp]:
  "step_ok st rest s0 (set_reg n x s) = step_ok st rest s0 s"
  "step_ok st rest s0 (set_flags f s) = step_ok st rest s0 s"
  "step_ok st rest s0 (clear_flags f s) = step_ok st rest s0 s"
  by (simp_all add: set_reg_def set_flags_def clear_flags_def)

lemma set_reg_simps [simp]:
  "v_maps (set_reg n x s) = v_maps s" "v_host (set_reg n x s) = v_host s" "v_tlb (set_reg n x s) = v_tlb s"
  "v_pc (set_reg n x s) = v_pc s" "v_flags (set_reg n x s) = v_flags s"
  "v_signal_depth (set_reg n x s) = v_signal_depth s"
  "v_reg (set_reg n x s) = (v_reg s)(n := x)"
  by (simp_all add: set_reg_def)

lemma restore_regs_simps [simp]:
  "v_maps (restore_regs rs ws s) = v_maps s" "v_host (restore_regs rs ws s) = v_host s" "v_tlb (restore_regs rs ws s) = v_tlb s"
proof -
  have "v_maps (restore_regs rs ws s) = v_maps s \<and> v_host (restore_regs rs ws s) = v_host s \<and> v_tlb (restore_regs rs ws s) = v_tlb s"
    unfolding restore_regs_def by (induction rs ws arbitrary: s rule: list_induct2') auto
  then show "v_maps (restore_regs rs ws s) = v_maps s" "v_host (restore_regs rs ws s) = v_host s" "v_tlb (restore_regs rs ws s) = v_tlb s"
    by simp_all
qed

lemma step_ok_restore [simp]: "step_ok st rest s0 (restore_regs rs ws s) = step_ok st rest s0 s"
  by (simp add: step_ok_def vm_ok_def)

lemma peek_words_step:
  assumes so: "step_ok st rest s0 s" and m: "m \<in> set (v_maps s)" "covers m a n" and k: "off + 8 * k \<le> unat n"
  shows "runs st (peek_words s (hadd (m_off m a) off) k)
     (\<lambda>ws. map Some ws = map (\<lambda>i. gword (mem_at s) (a + of_nat (off + 8 * i))) [0..<k])"
  using k
proof (induction k arbitrary: off)
  case (Suc k)
  have up: "[0..<Suc k] = 0 # map Suc [0..<k]" by (simp add: map_Suc_upt upt_conv_Cons del: upt_Suc)
  show ?case
    unfolding peek_words.simps
  proof (rule runs_bind [OF peek64_step [OF so m]])
    show "off + 8 \<le> unat n" using Suc.prems by simp
    fix w assume w: "gword (mem_at s) (a + of_nat off) = Some w"
    have "runs st (peek_words s (hadd (m_off m a) (off + 8)) k)
       (\<lambda>ws. map Some ws = map (\<lambda>i. gword (mem_at s) (a + of_nat (off + 8 + 8 * i))) [0..<k])"
      using Suc.IH [of "off + 8"] Suc.prems by simp
    then have "runs st (peek_words s (hadd (hadd (m_off m a) off) 8) k)
       (\<lambda>ws. map Some ws = map (\<lambda>i. gword (mem_at s) (a + of_nat (off + 8 + 8 * i))) [0..<k])"
      by simp
    then show "runs st (peek_words s (hadd (hadd (m_off m a) off) 8) k \<bind> (\<lambda>ws. Some (w # ws)))
       (\<lambda>ws. map Some ws = map (\<lambda>i. gword (mem_at s) (a + of_nat (off + 8 * i))) [0..<Suc k])"
      by (rule runs_bind) (simp add: w up comp_def algebra_simps del: upt_Suc)
  qed
qed simp

lemma peek64_ok:
  "\<lbrakk>step_ok st rest s0 s; m \<in> set (v_maps s); covers m a n; off + 8 \<le> unat n\<rbrakk>
   \<Longrightarrow> runs st (peek64 s (hadd (m_off m a) off)) (\<lambda>_. True)"
  by (rule runs_mono, rule peek64_step) auto

lemma backtrace_step:
  "step_ok st rest s0 s \<Longrightarrow> runs st (backtrace k sp s) (\<lambda>s'. step_ok st rest s0 s' \<and> s' = s\<lparr>v_tlb := v_tlb s'\<rparr>)"
proof (induction k arbitrary: sp s)
  case (Suc k)
  obtain r s1 where mm: "mmu s sp 128 = (r, s1)" by fastforce
  note s1 = mmu_step [OF Suc.prems _ mm]
  have so1: "step_ok st rest s0 s1" "s1 = s\<lparr>v_tlb := v_tlb s1\<rparr>" using s1(1,2) by simp_all
  show ?case
  proof (cases r)
    case None
    then show ?thesis using mm so1 Suc.prems by simp
  next
    case (Some p)
    then obtain m where m: "m \<in> set (v_maps s1)" "covers m sp 128" "p = m_off m sp" using s1(3) [of p] by auto
    note pk = peek64_ok [OF so1(1) m(1,2)]
    have "runs st (backtrace k old s1) (\<lambda>s'. step_ok st rest s0 s' \<and> s' = s\<lparr>v_tlb := v_tlb s'\<rparr>)" for old
      by (rule runs_mono [OF Suc.IH [OF so1(1)]]) (use so1(2) in \<open>metis vm.update_convs(5) vm.surjective vm.select_convs(5)\<close>)
    then show ?thesis
      using mm Some so1 Suc.prems pk [of 0] pk [of 8] pk [of 16]
      by (auto simp: m(3) intro!: runs_bind [where Q = "\<lambda>_. True"])
  qed
qed simp

lemma or_and_self: "(x OR f) AND f = (f :: 'a::len word)"
  by (rule bit_word_eqI) (auto simp: bit_simps)

lemma has_flag_set: "f \<noteq> 0 \<Longrightarrow> has_flag (set_flags f s) f"
  by (simp add: has_flag_def set_flags_def or_and_self)

lemma has_flag_reg [simp]: "has_flag (set_reg n x s) f = has_flag s f"
  by (simp add: has_flag_def)

lemma log_mem_violation_step:
  assumes "step_ok st rest s0 s"
  shows "runs st (log_mem_violation s) (\<lambda>s'. step_ok st rest s0 s' \<and> has_flag s' VM_KILLED \<and> v_reg s' 0 = 137)"
  unfolding log_mem_violation_def
  by (rule runs_bind [OF backtrace_step [OF assms]])
     (auto simp: has_flag_set VM_KILLED_def)

definition caller_total :: "'h vm \<Rightarrow> u64" where
  "caller_total s =
     (if resolve (v_maps s) (v_reg s 10) 8 = None then 0 else frame_total_len (the (gword (mem_at s) (v_reg s 10))))"

lemma caller_len_step:
  assumes "step_ok st rest s0 s"
  shows "runs st (caller_len s) (\<lambda>(n, s'). step_ok st rest s0 s' \<and> s' = s\<lparr>v_tlb := v_tlb s'\<rparr> \<and> n = caller_total s)"
proof -
  obtain r s1 where mm: "mmu s (v_reg s 10) 8 = (r, s1)" by fastforce
  note s1 = mmu_step [OF assms _ mm]
  show ?thesis
  proof (cases r)
    case None
    then show ?thesis using mm s1(1,2,4) by (simp add: caller_len_def caller_total_def)
  next
    case (Some p)
    then obtain m where m: "m \<in> set (v_maps s1)" "covers m (v_reg s 10) 8" "p = m_off m (v_reg s 10)" using s1(3) [of p] by auto
    have "runs st (peek64 s1 p) (\<lambda>w. gword (mem_at s) (v_reg s 10) = Some w)"
      using peek64_step [OF s1(1) m(1,2), of 0] s1(5) by (simp add: m(3))
    then show ?thesis
      using mm Some s1(1,2,4) by (auto simp: caller_len_def caller_total_def runs_def split: option.splits)
  qed
qed

lemma frame_size_of_step:
  assumes "step_ok st rest s0 s"
  shows "runs st (frame_size_of callee s) (\<lambda>(n, s'). step_ok st rest s0 s' \<and> s' = s\<lparr>v_tlb := v_tlb s'\<rparr>)"
proof -
  obtain r s1 where mm: "mmu s (callee - 8) 8 = (r, s1)" by fastforce
  note s1 = mmu_step [OF assms _ mm]
  show ?thesis
  proof (cases r)
    case None
    then show ?thesis using mm s1(1,2) assms by (simp add: frame_size_of_def)
  next
    case (Some p)
    then obtain m where m: "m \<in> set (v_maps s1)" "covers m (callee - 8) 8" "p = m_off m (callee - 8)" using s1(3) [of p] by auto
    have "runs st (peek64 s1 p) (\<lambda>_. True)"
      using peek64_ok [OF s1(1) m(1,2), of 0] by (simp add: m(3))
    then show ?thesis
      using mm Some s1(1,2) assms by (auto simp: frame_size_of_def Let_def runs_def split: option.splits)
  qed
qed

lemma frame_words_length:
  "length (concat (map u64_bytes (frame_words sg si lim ret r))) \<le> unat (frame_size_for sg si)"
  "unat (frame_size_for sg si) \<in> {64, 128, 520}" "0 < frame_size_for sg si"
  by (auto simp: frame_words_def frame_size_for_def length_concat frame_consts)

text \<open>
  What a successful push leaves behind: the new frame lies right below the caller's frame and its
  dynamic area, it holds the saved words, and nothing else of the machine changed.
\<close>

definition pushed :: "bool \<Rightarrow> bool \<Rightarrow> u64 \<Rightarrow> 'h vm \<Rightarrow> 'h vm \<Rightarrow> bool" where
  "pushed sg si ret s s' \<longleftrightarrow>
     (\<exists>lim. mem_at s' = gput (v_reg s' 10) (concat (map u64_bytes (frame_words sg si lim ret (v_reg s)))) (mem_at s))
     \<and> v_reg s' = (v_reg s)(10 := v_reg s 10 - caller_total s - frame_size_for sg si)
     \<and> STACK_BASE \<le> v_reg s' 10 \<and> unat (v_reg s' 10) + unat (frame_size_for sg si) < 2 ^ 64
     \<and> v_signal_depth s' = (if sg then v_signal_depth s + 1 else v_signal_depth s) \<and> v_pc s' = v_pc s"

lemma frame_words_poke:
  assumes so: "step_ok st rest s0 s" and m: "m \<in> set (v_maps s)" "covers m base (frame_size_for sg si)" "m_owned m" "bit (m_flags m) PF_W"
    and base: "base = v_reg s 10 - caller_total s' - frame_size_for sg si" "\<not> base < STACK_BASE"
    and eq: "mem_at s = mem_at s'" "v_reg s = v_reg s'" "v_signal_depth s = v_signal_depth s'" "v_pc s = v_pc s'"
  shows "runs st (poke s (m_off m base) (concat (map u64_bytes (frame_words sg si lim ret (v_reg s)))) \<bind> (\<lambda>s4.
       Some (True, set_reg 10 base (if sg then s4\<lparr>v_signal_depth := v_signal_depth s4 + 1\<rparr> else s4))))
     (\<lambda>(b, t). step_ok st rest s0 t \<and> (b \<longrightarrow> pushed sg si ret s' t))"
proof (rule runs_bind [OF poke_step [OF so m(1,3,2,4) frame_words_length(1,3)]])
  have "m_hi m < 2 ^ 64" using vm_okD(1) [OF step_ok_vm_ok [OF so]] m(1) by (simp add: as_ok_def)
  then have hi: "unat base + unat (frame_size_for sg si) < 2 ^ 64" using m(2) by (simp add: covers_def)
  fix s4 assume s4: "s4 = s\<lparr>v_host := v_host s4\<rparr> \<and> step_ok st rest s0 s4
     \<and> mem_at s4 = gput base (concat (map u64_bytes (frame_words sg si lim ret (v_reg s)))) (mem_at s)"
  then have v: "v_reg s4 = v_reg s" "v_signal_depth s4 = v_signal_depth s" "v_pc s4 = v_pc s"
    by (metis vm.surjective vm.update_convs(7) vm.select_convs)+
  then show "runs st (Some (True, set_reg 10 base (if sg then s4\<lparr>v_signal_depth := v_signal_depth s4 + 1\<rparr> else s4)))
     (\<lambda>(b, t). step_ok st rest s0 t \<and> (b \<longrightarrow> pushed sg si ret s' t))"
    using s4 hi base eq by (auto simp: pushed_def)
qed

lemma push_frame_post:
  assumes so: "step_ok st rest s0 s"
  shows "runs st (push_frame ret callee sg si s) (\<lambda>(b, s'). step_ok st rest s0 s' \<and> (b \<longrightarrow> pushed sg si ret s s'))"
  unfolding push_frame_def Let_def
proof (rule runs_bind [OF caller_len_step [OF so]], clarify)
  fix s1 :: "'a vm" assume so1: "step_ok st rest s0 s1" and s1: "s1 = s\<lparr>v_tlb := v_tlb s1\<rparr>"
  have cpu1: "same_cpu s s1" "mem_at s1 = mem_at s" by (subst s1, simp)+
  let ?Q = "\<lambda>(b, s'). step_ok st rest s0 s' \<and> (b \<longrightarrow> pushed sg si ret s s')"
  have log: "runs st (map_option (Pair False) (log_mem_violation x)) ?Q" if "step_ok st rest s0 x" for x
    using log_mem_violation_step [OF that] by (auto simp: runs_def split: option.splits)
  let ?base = "v_reg s 10 - caller_total s - frame_size_for sg si"
  have size: "v_reg s 10 - caller_total s - ?base = frame_size_for sg si" by simp
  show "runs st (if ?base < STACK_BASE then map_option (Pair False) (log_mem_violation s1)
      else mmu_w s1 ?base (v_reg s 10 - caller_total s - ?base) \<bind> (\<lambda>(fb, s2). case fb of
          None \<Rightarrow> map_option (Pair False) (log_mem_violation s2)
        | Some p \<Rightarrow> frame_size_of callee s2 \<bind> (\<lambda>(lim, s3).
            poke s3 p (concat (map u64_bytes (frame_words sg si lim ret (v_reg s3)))) \<bind> (\<lambda>s4.
              Some (True, set_reg 10 ?base (if sg then s4\<lparr>v_signal_depth := v_signal_depth s4 + 1\<rparr> else s4)))))) ?Q"
    unfolding size
  proof (rule runs_if [OF log [OF so1]], rule runs_bind [OF mmu_w_step [OF so1]], clarify)
    fix r s2 assume nb: "\<not> ?base < STACK_BASE" and so2: "step_ok st rest s0 s2" and cpu2: "same_cpu s1 s2" "mem_at s2 = mem_at s1"
      and ptr: "\<forall>p. r = Some p \<longrightarrow> (\<exists>m \<in> set (v_maps s2). covers m ?base (frame_size_for sg si) \<and> p = m_off m ?base \<and> m_owned m \<and> bit (m_flags m) PF_W)"
    show "runs st (case r of None \<Rightarrow> map_option (Pair False) (log_mem_violation s2)
        | Some p \<Rightarrow> frame_size_of callee s2 \<bind> (\<lambda>(lim, s3).
            poke s3 p (concat (map u64_bytes (frame_words sg si lim ret (v_reg s3)))) \<bind> (\<lambda>s4.
              Some (True, set_reg 10 ?base (if sg then s4\<lparr>v_signal_depth := v_signal_depth s4 + 1\<rparr> else s4))))) ?Q"
    proof (rule runs_option [OF log [OF so2]], rule runs_bind [OF frame_size_of_step [OF so2]], clarify)
      fix p lim s3 assume "r = Some p" and so3: "step_ok st rest s0 s3" and s3: "s3 = s2\<lparr>v_tlb := v_tlb s3\<rparr>"
      then obtain m where m: "m \<in> set (v_maps s2)" "covers m ?base (frame_size_for sg si)" "p = m_off m ?base" "m_owned m" "bit (m_flags m) PF_W"
        using ptr by blast
      have m3: "m \<in> set (v_maps s3)" using m(1) by (subst s3) simp
      have eq: "mem_at s3 = mem_at s" "v_reg s3 = v_reg s" "v_signal_depth s3 = v_signal_depth s" "v_pc s3 = v_pc s"
        using cpu1(2) cpu2(2) same_cpuD [OF same_cpu_trans [OF cpu1(1) cpu2(1)]] by (subst s3, simp)+
      show "runs st (poke s3 p (concat (map u64_bytes (frame_words sg si lim ret (v_reg s3)))) \<bind> (\<lambda>s4.
              Some (True, set_reg 10 ?base (if sg then s4\<lparr>v_signal_depth := v_signal_depth s4 + 1\<rparr> else s4)))) ?Q"
        unfolding m(3) by (rule frame_words_poke [OF so3 m3 m(2,4,5) _ nb eq]) (simp add: eq)
    qed
  qed
qed

lemma push_frame_step:
  "step_ok st rest s0 s \<Longrightarrow> runs st (push_frame ret callee sg si s) (\<lambda>(b, s'). step_ok st rest s0 s')"
  by (rule runs_mono [OF push_frame_post]) auto

lemma frame_field_bounds:
  "uint (frame_stack_size w) < 2 ^ 24" "uint (frame_alloca_len w) < 2 ^ 24"
proof -
  have m: "FRAME_SIZE_MASK = mask 24" "FRAME_ALLOCA_MASK = mask 24"
    by (simp_all add: FRAME_SIZE_MASK_def FRAME_ALLOCA_MASK_def mask_eq_exp_minus_1)
  show "uint (frame_stack_size w) < 2 ^ 24" "uint (frame_alloca_len w) < 2 ^ 24"
    unfolding frame_stack_size_def frame_alloca_len_def m take_bit_eq_mask [symmetric] unsigned_take_bit_eq
    by (simp_all add: take_bit_eq_mod)
qed

lemma new_alloca_len_cases:
  assumes "- (2 ^ 63) \<le> inc" "inc < 2 ^ 63" "0 \<le> new_alloca_len w inc"
  shows "new_alloca_len w inc = uint (frame_alloca_len w) + inc"
proof -
  let ?x = "uint (frame_alloca_len w) + inc"
  have b: "0 \<le> uint (frame_alloca_len w)" "uint (frame_alloca_len w) < 2 ^ 24" using frame_field_bounds(2) [of w] by simp_all
  have n: "new_alloca_len w inc = signed_take_bit 63 ?x"
    unfolding new_alloca_len_def by (subst signed_of_int) simp
  show ?thesis
  proof (cases "?x < 2 ^ 63")
    case True
    then have "signed_take_bit 63 ?x = ?x"
      using assms b by (intro signed_take_bit_int_eq_self) linarith+
    then show ?thesis using n by simp
  next
    case False
    have "(?x + 2 ^ 63) mod 2 ^ 64 = (?x + 2 ^ 63 - 2 ^ 64) mod 2 ^ 64" by (simp only: minus_mod_self2)
    also have "\<dots> = ?x + 2 ^ 63 - 2 ^ 64" using assms b False by (intro mod_pos_pos_trivial) (simp; linarith)+
    finally have "signed_take_bit 63 ?x = ?x - 2 ^ 64"
      by (simp add: signed_take_bit_eq_take_bit_shift take_bit_eq_mod)
    then show ?thesis using n assms False b by simp
  qed
qed

lemma alloca_total:
  assumes "0 \<le> n" "n \<le> uint FRAME_ALLOCA_MASK"
  shows "uint (frame_stack_size w + word_of_int n) = uint (frame_stack_size w) + n"
proof -
  have "n < 2 ^ 24" using assms by (simp add: FRAME_ALLOCA_MASK_def)
  then show ?thesis
    using assms frame_field_bounds(1) [of w] by (simp add: uint_word_ariths unsigned_of_int take_bit_eq_mod)
qed

text \<open>
  The outcome of a resize by inc bytes: an error that leaves the memory alone, or a dynamic area of
  the new length n, recorded in the frame word, below the fixed part of the frame. When the area
  grows, the whole frame is mapped.
\<close>

definition alloca_post :: "int \<Rightarrow> 'h vm \<Rightarrow> int \<Rightarrow> 'h vm \<Rightarrow> bool" where
  "alloca_post inc s r s' \<longleftrightarrow> v_reg s' = v_reg s \<and>
     (r \<in> {- EFAULT, - EINVAL, - ENOMEM} \<and> mem_at s' = mem_at s
      \<or> (\<exists>w. gword (mem_at s) (v_reg s 10) = Some w
           \<and> (let n = uint (frame_alloca_len w) + inc; t = uint (frame_stack_size w) + n in
              0 \<le> n \<and> n < 2 ^ 24 \<and> uint STACK_BASE + t \<le> uint (v_reg s 10)
              \<and> r = sint (v_reg s 10 - word_of_int t)
              \<and> mem_at s' = gput (v_reg s 10) (u64_bytes (alloca_word w n)) (mem_at s)
              \<and> (0 < inc \<longrightarrow> resolve (v_maps s') (v_reg s 10 - word_of_int t) (word_of_int t) \<noteq> None))))"

lemma alloca_fits:
  assumes n: "0 \<le> n" "n \<le> uint FRAME_ALLOCA_MASK" and le: "\<not> r10 < STACK_BASE + (frame_stack_size w + word_of_int n)"
  shows "uint STACK_BASE + (uint (frame_stack_size w) + n) \<le> uint r10" "n < 2 ^ 24"
    "frame_stack_size w + word_of_int n = word_of_int (uint (frame_stack_size w) + n)"
proof -
  show n24: "n < 2 ^ 24" using n by (simp add: FRAME_ALLOCA_MASK_def)
  have "uint (STACK_BASE + (frame_stack_size w + word_of_int n)) = uint STACK_BASE + (uint (frame_stack_size w) + n)"
    using alloca_total [OF n, of w] frame_field_bounds(1) [of w] n n24
    by (simp add: uint_word_ariths STACK_BASE_def)
  then show "uint STACK_BASE + (uint (frame_stack_size w) + n) \<le> uint r10"
    using le by (simp add: word_less_def not_less)
  show "frame_stack_size w + word_of_int n = word_of_int (uint (frame_stack_size w) + n)"
    by simp
qed

lemma alloca_poke:
  assumes so: "step_ok st rest s0 s2" and m: "m \<in> set (v_maps s2)" "m_owned m" "covers m (v_reg s 10) 8" "bit (m_flags m) PF_W"
    and eq: "mem_at s2 = mem_at s" "v_reg s2 = v_reg s" and w: "gword (mem_at s) (v_reg s 10) = Some w"
    and n: "n = uint (frame_alloca_len w) + inc" "0 \<le> n" "n \<le> uint FRAME_ALLOCA_MASK"
    and le: "\<not> v_reg s 10 < STACK_BASE + (frame_stack_size w + word_of_int n)"
    and res: "0 < inc \<longrightarrow> resolve (v_maps s2) (v_reg s 10 - (frame_stack_size w + word_of_int n)) (frame_stack_size w + word_of_int n) \<noteq> None"
  shows "runs st (map_option (Pair (sint (v_reg s 10 - (frame_stack_size w + word_of_int n)))) (poke s2 (m_off m (v_reg s 10)) (u64_bytes (alloca_word w n))))
     (\<lambda>(r, s'). step_ok st rest s0 s' \<and> alloca_post inc s r s')"
proof -
  note f = alloca_fits [OF n(2,3) le]
  have "step_ok st rest s0 t \<and> alloca_post inc s (sint (v_reg s 10 - (frame_stack_size w + word_of_int n))) t"
    if t: "t = s2\<lparr>v_host := v_host t\<rparr>" "step_ok st rest s0 t" "mem_at t = gput (v_reg s 10) (u64_bytes (alloca_word w n)) (mem_at s2)" for t
  proof -
    have "v_reg t = v_reg s" "v_maps t = v_maps s2" using eq(2) by (subst t(1), simp)+
    then show ?thesis
      using t(2,3) eq(1) w n f res unfolding alloca_post_def f(3) Let_def by (simp del: of_int_add)
  qed
  then show ?thesis
    using poke_step [OF so m, of "u64_bytes (alloca_word w n)"] by (auto simp: runs_def split: option.splits)
qed

lemma alloca_runs:
  assumes so: "step_ok st rest s0 s" and inc: "- (2 ^ 63) \<le> inc" "inc < 2 ^ 63"
  shows "runs st (alloca inc s) (\<lambda>(r, s'). step_ok st rest s0 s' \<and> alloca_post inc s r s')"
  unfolding alloca_def
proof (rule runs_bind [OF mmu_w_step [OF so]], clarify, rule runs_option)
  fix r s1 p
  assume so1: "step_ok st rest s0 s1" and r: "r = Some p" and eq1: "same_cpu s s1" "mem_at s1 = mem_at s"
    and "\<forall>p. r = Some p \<longrightarrow> (\<exists>m \<in> set (v_maps s1). covers m (v_reg s 10) 8 \<and> p = m_off m (v_reg s 10) \<and> m_owned m \<and> bit (m_flags m) PF_W)"
  then obtain m where m: "m \<in> set (v_maps s1)" "covers m (v_reg s 10) 8" "p = m_off m (v_reg s 10)" "m_owned m" "bit (m_flags m) PF_W"
    by blast
  have nc: "m_cow m = None"
    using own_invD(2) [of "v_host s1" "mset (v_maps s1) + rest" m] so1 m(1,4)
    by (simp add: step_ok_def vm_ok_def mem_ok_def managed_def)
  note r1 = same_cpuD(2) [OF eq1(1)]
  have keep: "alloca_post inc s e s2" if "e \<in> {- EFAULT, - EINVAL, - ENOMEM}" "v_reg s2 = v_reg s" "mem_at s2 = mem_at s" for e s2
    using that by (simp add: alloca_post_def)
  have grow: "runs st (mmu_w s1 a t) (\<lambda>(q, s2). step_ok st rest s0 s2 \<and> m \<in> set (v_maps s2) \<and> mem_at s2 = mem_at s
      \<and> v_reg s2 = v_reg s \<and> (q \<noteq> None \<longrightarrow> resolve (v_maps s2) a t \<noteq> None))" if "0 < t" for a t
    by (rule runs_mono [OF mmu_w_step [OF so1]])
      (use m(1) nc eq1 r1 resolve_covers [OF vm_okD(1) [OF step_ok_vm_ok] that] in \<open>fastforce dest: same_cpuD(2)\<close>)
  show "runs st (peek64 s1 p \<bind> (\<lambda>flags0. alloca_resize p flags0 inc s1)) (\<lambda>(r, s'). step_ok st rest s0 s' \<and> alloca_post inc s r s')"
  proof (rule runs_bind [OF peek64_step [OF so1 m(1,2), of 0, folded m(3), simplified], unfolded hadd_simps m(3) [symmetric]])
    fix w assume w: "gword (mem_at s1) (v_reg s 10) = Some w"
    let ?n = "new_alloca_len w inc"
    have pos: "0 < frame_stack_size w + word_of_int ?n" if "0 \<le> ?n" "?n \<le> uint FRAME_ALLOCA_MASK" "0 < inc"
      using alloca_total [OF that(1,2), of w] new_alloca_len_cases [OF inc that(1)] that(3)
      by (simp add: word_less_def add_nonneg_pos)
    have pk: "runs st (map_option (Pair (sint (v_reg s 10 - (frame_stack_size w + word_of_int ?n)))) (poke s2 p (u64_bytes (alloca_word w ?n))))
        (\<lambda>(r, s'). step_ok st rest s0 s' \<and> alloca_post inc s r s')"
      if "step_ok st rest s0 s2" "m \<in> set (v_maps s2)" "mem_at s2 = mem_at s" "v_reg s2 = v_reg s" "\<not> ?n < 0" "\<not> ?n > uint FRAME_ALLOCA_MASK"
        "\<not> v_reg s 10 < STACK_BASE + (frame_stack_size w + word_of_int ?n)"
        "0 < inc \<longrightarrow> resolve (v_maps s2) (v_reg s 10 - (frame_stack_size w + word_of_int ?n)) (frame_stack_size w + word_of_int ?n) \<noteq> None" for s2
      unfolding m(3)
      by (rule alloca_poke [OF that(1,2) m(4,2,5) that(3,4)])
        (use that w eq1(2) new_alloca_len_cases [OF inc] in auto)
    show "runs st (alloca_resize p w inc s1) (\<lambda>(r, s'). step_ok st rest s0 s' \<and> alloca_post inc s r s')"
      unfolding alloca_resize_def Let_def r1
    proof (intro runs_if)
      assume c: "\<not> ?n < 0" "\<not> (?n > uint FRAME_ALLOCA_MASK \<or> v_reg s 10 < STACK_BASE + (frame_stack_size w + word_of_int ?n))"
      show "runs st ((if 0 < inc then mmu_w s1 (v_reg s 10 - (frame_stack_size w + word_of_int ?n)) (frame_stack_size w + word_of_int ?n)
            else Some (Some p, s1)) \<bind> (\<lambda>(room, s2). case room of None \<Rightarrow> Some (- ENOMEM, s2)
            | Some x \<Rightarrow> map_option (Pair (sint (v_reg s 10 - (frame_stack_size w + word_of_int ?n)))) (poke s2 p (u64_bytes (alloca_word w ?n)))))
          (\<lambda>(r, s'). step_ok st rest s0 s' \<and> alloca_post inc s r s')"
      proof (cases "0 < inc")
        case True
        then show ?thesis
          using c pos by (auto intro!: runs_bind [OF grow] runs_option pk keep)
      next
        case False
        then show ?thesis using c so1 m(1) eq1(2) r1 by (auto intro!: pk)
      qed
    qed (use so1 eq1(2) r1 in \<open>auto intro!: keep\<close>)
  qed
qed (use so in \<open>auto simp: alloca_post_def dest: same_cpuD(2)\<close>)

lemma alloca_step:
  "\<lbrakk>step_ok st rest s0 s; - (2 ^ 63) \<le> inc; inc < 2 ^ 63\<rbrakk> \<Longrightarrow> runs st (alloca inc s) (\<lambda>(r, s'). step_ok st rest s0 s')"
  by (rule runs_mono [OF alloca_runs]) auto

subsection \<open>The contract of a handler\<close>

text \<open>
  A handler may run any code, but from a machine that satisfies the invariant it returns to one
  that does, without touching other address spaces and, in strict mode, without a host fault. The
  parameter st fixes the mode.
\<close>

locale syscall_handler =
  fixes st :: bool and H :: "'h handler"
  assumes syscall: "\<And>rest s c. vm_ok st rest s \<Longrightarrow> runs st (h_syscall H s c) (\<lambda>(r, s'). step_ok st rest s s')"
    and handle_signals: "\<And>rest s. vm_ok st rest s \<Longrightarrow> runs st (h_handle_signals H s) (\<lambda>(b, i, s'). step_ok st rest s s')"
    and build_siginfo: "\<And>rest s base i pc sp. vm_ok st rest s \<Longrightarrow> runs st (h_build_siginfo H s base i pc sp) (\<lambda>s'. step_ok st rest s s')"
    and sigreturn: "\<And>rest s base pc. vm_ok st rest s \<Longrightarrow> runs st (h_sigreturn H s base pc) (\<lambda>(r, s'). step_ok st rest s s')"
    and syscall_entry: "\<And>rest s c. vm_ok st rest s \<Longrightarrow> runs st (h_syscall_entry H s c) (\<lambda>s'. step_ok st rest s s')"
    and syscall_return: "\<And>rest s c. vm_ok st rest s \<Longrightarrow> runs st (h_syscall_return H s c) (\<lambda>s'. step_ok st rest s s')"
    and breakpoint: "\<And>rest s. vm_ok st rest s \<Longrightarrow> runs st (h_breakpoint H s) (\<lambda>s'. step_ok st rest s s')"
begin

lemma syscall_step: "step_ok st rest s0 s \<Longrightarrow> runs st (h_syscall H s c) (\<lambda>(r, s'). step_ok st rest s0 s')"
  by (rule runs_mono [OF syscall [OF step_ok_vm_ok]]) (auto intro: step_ok_trans)

lemma handle_signals_step: "step_ok st rest s0 s \<Longrightarrow> runs st (h_handle_signals H s) (\<lambda>(b, i, s'). step_ok st rest s0 s')"
  by (rule runs_mono [OF handle_signals [OF step_ok_vm_ok]]) (auto intro: step_ok_trans)

lemma build_siginfo_step: "step_ok st rest s0 s \<Longrightarrow> runs st (h_build_siginfo H s base i pc sp) (\<lambda>s'. step_ok st rest s0 s')"
  by (rule runs_mono [OF build_siginfo [OF step_ok_vm_ok]]) (auto intro: step_ok_trans)

lemma sigreturn_step: "step_ok st rest s0 s \<Longrightarrow> runs st (h_sigreturn H s base pc) (\<lambda>(r, s'). step_ok st rest s0 s')"
  by (rule runs_mono [OF sigreturn [OF step_ok_vm_ok]]) (auto intro: step_ok_trans)

lemma syscall_entry_step: "step_ok st rest s0 s \<Longrightarrow> runs st (h_syscall_entry H s c) (\<lambda>s'. step_ok st rest s0 s')"
  by (rule runs_mono [OF syscall_entry [OF step_ok_vm_ok]]) (auto intro: step_ok_trans)

lemma syscall_return_step: "step_ok st rest s0 s \<Longrightarrow> runs st (h_syscall_return H s c) (\<lambda>s'. step_ok st rest s0 s')"
  by (rule runs_mono [OF syscall_return [OF step_ok_vm_ok]]) (auto intro: step_ok_trans)

lemma breakpoint_step: "step_ok st rest s0 s \<Longrightarrow> runs st (h_breakpoint H s) (\<lambda>s'. step_ok st rest s0 s')"
  by (rule runs_mono [OF breakpoint [OF step_ok_vm_ok]]) (auto intro: step_ok_trans)

lemma pop_frame_step:
  assumes so: "step_ok st rest s0 s"
  shows "runs st (pop_frame H s) (\<lambda>(r, s'). step_ok st rest s0 s')"
proof -
  obtain r s1 where mm: "mmu s (v_reg s 10) 104 = (r, s1)" by fastforce
  note s1 = mmu_step [OF so _ mm]
  show ?thesis
  proof (cases r)
    case None
    then show ?thesis using mm s1(1) by (simp add: pop_frame_def)
  next
    case (Some p)
    then obtain m where m: "m \<in> set (v_maps s1)" "covers m (v_reg s 10) 104" "p = m_off m (v_reg s 10)" using s1(3) [of p] by auto
    have "runs st (peek_words s1 p 7) (\<lambda>_. True)" "runs st (peek_words s1 (hadd p 56) 6) (\<lambda>_. True)"
      using runs_mono [OF peek_words_step [OF s1(1) m(1,2), of 0 7]] runs_mono [OF peek_words_step [OF s1(1) m(1,2), of 56 6]]
      by (simp_all add: m(3))
    then show ?thesis
      using mm Some s1(1)
      by (auto simp: pop_frame_def Let_def intro!: runs_bind [where Q = "\<lambda>_. True"] runs_bind [where Q = "\<lambda>s'. step_ok st rest s0 s'"] sigreturn_step)
  qed
qed

lemma enter_handler_step:
  assumes so: "step_ok st rest s0 s"
  shows "runs st (enter_handler H i s) (\<lambda>(r, s'). step_ok st rest s0 s')"
proof -
  obtain ret s3 where rp: "restart_point i s = (ret, s3)" by fastforce
  have so3: "step_ok st rest s0 s3" using so rp by (auto simp: restart_point_def Let_def split: if_splits)
  show ?thesis
    unfolding enter_handler_def Let_def rp prod.case
    by (rule runs_bind [OF push_frame_step [OF so3]])
      (auto intro!: runs_bind [OF build_siginfo_step])
qed

lemma deliver_signal_step:
  assumes so: "step_ok st rest s0 s"
  shows "runs st (deliver_signal H s) (\<lambda>(r, s'). step_ok st rest s0 s')"
  unfolding deliver_signal_def
  by (rule runs_bind [OF handle_signals_step [OF so]])
    (auto split: prod.split option.split intro!: enter_handler_step intro: mmu_step(1) [where n = 8])

end

end
