(* ===== verification/Interp_Safety.thy ===== *)
theory Interp_Safety
  imports Interp Frame_Safety
begin

text \<open>
  Preservation and safety of the interpreter: every instruction, the safepoint and the step keep
  the machine invariant and leave other address spaces alone, for every handler that satisfies
  the contract; in strict mode they do not fault, provided that a wide load does not straddle two
  mappings.
\<close>

lemma log_pair_step:
  "step_ok st rest s0 s \<Longrightarrow> runs st (map_option (Pair x) (log_mem_violation s)) (\<lambda>(b, s'). step_ok st rest s0 s')"
  using log_mem_violation_step [of st rest s0 s] by (auto simp: runs_def split: option.splits)

lemma peek_ok:
  assumes "step_ok st rest s0 s" "m \<in> set (v_maps s)" "covers m a n" "k \<le> unat n"
  shows "runs st (peek s (m_off m a) k) (\<lambda>_. True)"
  by (rule runs_mono [OF peek_runs [OF step_ok_vm_ok [OF assms(1)] assms(2-)]]) simp

lemma guest_write_step:
  assumes "step_ok st rest s0 s" "0 < length bs" "length bs < 2 ^ 64"
  shows "runs st (guest_write s a bs) (\<lambda>(b, s'). step_ok st rest s0 s')"
  by (rule runs_mono [OF guest_write_runs [OF step_ok_vm_ok [OF assms(1)] assms(2-)]])
     (use step_ok_trans [OF assms(1)] in auto)

lemma access_size_cases: "access_size c \<in> {1, 2, 4, 8}"
  by (simp add: access_size_def Let_def)

lemma access_size_bounds [simp]: "0 < access_size c" "access_size c < 2 ^ 64"
  using access_size_cases [of c] by auto

lemma access_size_word: "unat (of_nat (access_size c) :: u64) = access_size c" "0 < (of_nat (access_size c) :: u64)"
  using access_size_cases [of c] by auto

lemma store_at_step:
  "step_ok st rest s0 s \<Longrightarrow> runs st (store_at cur a v s) (\<lambda>(b, s'). step_ok st rest s0 s')"
  unfolding store_at_def
  by (rule runs_bind [OF guest_write_step])
     (use access_size_bounds(2) [of "i_code cur"] in \<open>auto intro!: log_pair_step\<close>)

lemma ldx_step:
  assumes so: "step_ok st rest s0 s"
  shows "runs st (ldx cur s) (\<lambda>(b, s'). step_ok st rest s0 s')"
proof -
  define a where "a = v_reg s (i_src cur) + sx16 (i_off cur)"
  define n where "n = access_size (i_code cur)"
  obtain r s1 where mm: "mmu s a (of_nat n) = (r, s1)" by fastforce
  have n0: "0 < (of_nat n :: u64)" by (simp add: n_def access_size_word)
  note s1 = mmu_step [OF so n0 mm]
  show ?thesis
  proof (cases r)
    case None
    then show ?thesis
      using mm so s1(1) by (auto simp: ldx_def Let_def a_def n_def intro!: log_pair_step)
  next
    case (Some p)
    then obtain m where m: "m \<in> set (v_maps s1)" "covers m a (of_nat n)" "p = m_off m a" using s1(3) [of p] by auto
    have "runs st (peek s1 p n) (\<lambda>_. True)"
      using peek_ok [OF s1(1) m(1,2), of n] by (simp add: m(3) n_def access_size_word)
    then show ?thesis
      using mm Some so s1(1)
      by (auto simp: ldx_def Let_def a_def n_def intro!: runs_bind [where Q = "\<lambda>_. True"])
  qed
qed

lemma set_reg_opt_step [simp]: "step_ok st rest s0 (set_reg_opt n v s) = step_ok st rest s0 s"
  by (simp add: set_reg_opt_def split: option.split)

lemma atomic_cell_length: "\<lbrakk>atomic_cell n op v a b = Some (bs, x, y); n = 8 \<or> n = 4\<rbrakk> \<Longrightarrow> length bs = n"
  by (auto simp: atomic_cell_def split: if_splits)

lemma atomic_step:
  assumes so: "step_ok st rest s0 s" and n: "n = 8 \<or> n = 4"
  shows "runs st (atomic cur n s) (\<lambda>(b, s'). step_ok st rest s0 s')"
proof -
  have un: "unat (of_nat n :: u64) = n" "0 < (of_nat n :: u64)" using n by auto
  show ?thesis
    unfolding atomic_def
  proof (rule runs_bind [OF mmu_w_step [OF so]], clarify, rule runs_option)
    fix r s1 p
    let ?a = "v_reg s (i_dst cur) + sx16 (i_off cur)"
    assume so1: "step_ok st rest s0 s1" and r: "r = Some p"
      and "\<forall>p. r = Some p \<longrightarrow> (\<exists>m \<in> set (v_maps s1). covers m ?a (of_nat n) \<and> p = m_off m ?a \<and> m_owned m \<and> bit (m_flags m) PF_W)"
    then obtain m where m: "m \<in> set (v_maps s1)" "covers m ?a (of_nat n)" "p = m_off m ?a" "m_owned m" "bit (m_flags m) PF_W"
      by blast
    have pk: "runs st (peek s1 p n) (\<lambda>_. True)" using peek_ok [OF so1 m(1,2), of n] by (simp add: m(3) un)
    have po: "runs st (poke s1 p bs) (\<lambda>s'. step_ok st rest s0 s')" if "length bs = n" for bs
      unfolding m(3) by (rule runs_mono [OF poke_step [OF so1 m(1,4,2,5)]]) (use that un in auto)
    show "runs st (peek s1 p n \<bind> (\<lambda>v. case atomic_cell n (i_imm cur) v (v_reg s1 (i_src cur)) (v_reg s1 0) of
         None \<Rightarrow> Some (False, s1)
       | Some (bs, x, y) \<Rightarrow> poke s1 p bs \<bind> (\<lambda>s2. Some (True, set_reg_opt 0 y (set_reg_opt (i_src cur) x s2)))))
       (\<lambda>(b, s'). step_ok st rest s0 s')"
      by (rule runs_bind [OF pk]) (use so1 n in \<open>auto split: option.split intro!: runs_bind [OF po] dest: atomic_cell_length\<close>)
  qed (auto intro: log_pair_step)
qed

lemma stx_step:
  "step_ok st rest s0 s \<Longrightarrow> runs st (stx cur s) (\<lambda>(b, s'). step_ok st rest s0 s')"
  by (auto simp: stx_def Let_def intro: atomic_step store_at_step)

lemma softfp_step:
  assumes "step_ok st rest s0 s"
  shows "runs st (do_softfp F op s) (\<lambda>(b, s'). step_ok st rest s0 s')"
proof (cases "softfp_pure F op (v_reg s 1) (v_reg s 2)")
  case None
  obtain lo hi where d: "div128 op (v_reg s 2) (v_reg s 3) (v_reg s 4) (v_reg s 5) = (lo, hi)" by fastforce
  have "runs st (guest_write s (v_reg s 1) (u64_bytes hi) \<bind> (\<lambda>(ok, s1). if ok then Some (True, set_reg 0 lo s1) else Some (False, s1)))
      (\<lambda>(b, s'). step_ok st rest s0 s')"
    by (rule runs_bind [OF guest_write_step [OF assms]]) auto
  then show ?thesis using None d assms by (simp add: do_softfp_def Let_def)
qed (use assms in \<open>simp add: do_softfp_def Let_def\<close>)

lemma alu_step:
  "step_ok st rest s0 s \<Longrightarrow> case alu cur s of (b, s') \<Rightarrow> step_ok st rest s0 s'"
  "step_ok st rest s0 s \<Longrightarrow> case alu64 cur s of (b, s') \<Rightarrow> step_ok st rest s0 s'"
  by (auto simp: alu_def alu64_def Let_def split: option.split)

lemma debug_park_step: "step_ok st rest s0 s \<Longrightarrow> case debug_park_loop es s of (b, s') \<Rightarrow> step_ok st rest s0 s'"
  by (induction es s rule: debug_park_loop.induct) (subst debug_park_loop.simps, auto split: list.split)

lemma park_step: "step_ok st rest s0 s \<Longrightarrow> case park_if_stopped s of (b, s') \<Rightarrow> step_ok st rest s0 s'"
  using debug_park_step [of st rest s0 s] by (simp add: park_if_stopped_def debug_park_def)

lemma park_stepD: "\<lbrakk>park_if_stopped s = (b, s'); step_ok st rest s0 s\<rbrakk> \<Longrightarrow> step_ok st rest s0 s'"
  using park_step [of st rest s0 s] by simp

lemma stop_loop_step: "step_ok st rest s0 s \<Longrightarrow> case stop_loop es s of (b, s') \<Rightarrow> step_ok st rest s0 s'"
  by (induction es s rule: stop_loop.induct) (subst stop_loop.simps, auto split: list.split)

lemma jmp32_step: "step_ok st rest s0 s \<Longrightarrow> case jmp32 cur s of (oc, s') \<Rightarrow> step_ok st rest s0 s'"
  by (simp add: jmp32_def Let_def jump_by_def)

subsection \<open>Wide loads\<close>

text \<open>
  An instruction of class LD is two slots wide. fetch_ok says that the sixteen bytes lie in one
  mapping and that no debugger hook runs between the fetch and the execution.
\<close>

definition ld_fits :: "'h vm \<Rightarrow> bool" where
  "ld_fits s \<longleftrightarrow> (\<forall>bs. gget (mem_at s) (v_pc s) 8 = Some bs \<longrightarrow> i_class (decode_insn (le_val bs)) = BPF_LD
     \<longrightarrow> resolve (v_maps s) (v_pc s) 16 \<noteq> None)"

definition fetch_ok :: "'h vm \<Rightarrow> bool" where
  "fetch_ok s \<longleftrightarrow> \<not> has_flag s VM_DEBUG_ATTACHED \<and> ld_fits s"

lemma ld_step:
  assumes so: "step_ok st rest s0 s"
    and fit: "st \<Longrightarrow> \<exists>m \<in> set (v_maps s). covers m (v_pc s) 16 \<and> p = m_off m (v_pc s)"
  shows "runs st (ld cur p s) (\<lambda>(b, s'). step_ok st rest s0 s')"
proof -
  obtain r s1 where mm: "mmu s (v_pc s + 8) 8 = (r, s1)" by fastforce
  note s1 = mmu_step [OF so _ mm]
  have so1: "step_ok st rest s0 s1" "s1 = s\<lparr>v_tlb := v_tlb s1\<rparr>" using s1(1,2) by simp_all
  have "runs st (peek s1 (hadd p 8) 8) (\<lambda>_. True)"
  proof (cases st)
    case True
    then obtain m where m: "m \<in> set (v_maps s)" "covers m (v_pc s) 16" "p = m_off m (v_pc s)" using fit by blast
    have m1: "m \<in> set (v_maps s1)" using m(1) by (subst so1(2)) simp
    have "m_hi m < 2 ^ 64" using vm_okD(1) [OF step_ok_vm_ok [OF so]] m(1) by (simp add: as_ok_def)
    note c = covers_sub [OF m(2) this, of 8 8]
    show ?thesis using peek_ok [OF so1(1) m1 c(1), of 8] c(2) by (simp add: m(3))
  qed (simp add: runs_def split: option.split)
  then show ?thesis
    using so so1(1) mm by (auto simp: ld_def Let_def split: option.split intro!: log_pair_step runs_bind [where Q = "\<lambda>_. True"])
qed

context syscall_handler
begin

lemma pop_exit_step:
  assumes "step_ok st rest s0 s"
  shows "runs st (pop_frame H s \<bind> (\<lambda>(ret, s1). Some (if ret = 0 then (Halt, s1) else (Go, s1\<lparr>v_pc := ret - 8\<rparr>))))
     (\<lambda>(oc, s'). step_ok st rest s0 s')"
  by (rule runs_bind [OF pop_frame_step [OF assms]]) auto

lemma finish_syscall_step:
  assumes "step_ok st rest s0 s"
  shows "runs st (finish_syscall H call ret s) (\<lambda>(oc, s'). step_ok st rest s0 s')"
  using assms
  by (auto simp: finish_syscall_def Let_def intro!: runs_bind [OF syscall_return_step [of rest s0]] split: prod.splits
        dest: park_stepD)

lemma do_syscall_step:
  assumes so: "step_ok st rest s0 s"
  shows "runs st (do_syscall H call s) (\<lambda>(oc, s'). step_ok st rest s0 s')"
  unfolding do_syscall_def
proof (rule runs_bind [where Q = "\<lambda>(go, s1). step_ok st rest s0 s1"])
  show "runs st (if has_flag s VM_DEBUG_ATTACHED then map_option park_if_stopped (h_syscall_entry H s call) else Some (True, s))
      (\<lambda>(go, s1). step_ok st rest s0 s1)"
    using so syscall_entry_step [OF so, of call] park_step [of st rest s0] by (auto simp: runs_def split: option.splits)
qed (auto intro!: runs_bind [OF syscall_step [of rest s0]] finish_syscall_step)

lemma call_insn_step:
  assumes so: "step_ok st rest s0 s"
  shows "runs st (call_insn F H cur s) (\<lambda>(oc, s'). step_ok st rest s0 s')"
proof -
  have "runs st (map_option (map_prod of_bool_out id) (do_softfp F (i_imm cur) s)) (\<lambda>(oc, s'). step_ok st rest s0 s')"
    using softfp_step [OF so, of F "i_imm cur"] by (auto simp: runs_def split: option.splits)
  then show ?thesis
    using so by (auto simp: call_insn_def jump_by_def intro!: do_syscall_step runs_bind [OF push_frame_step [OF so]])
qed

lemma jmp_step:
  assumes so: "step_ok st rest s0 s"
  shows "runs st (jmp F H cur s) (\<lambda>(oc, s'). step_ok st rest s0 s')"
  using so call_insn_step [OF so] pop_exit_step [OF so] by (simp add: jmp_def Let_def jump_by_def)

lemma exec_insn_step:
  assumes so: "step_ok st rest s0 s"
    and fit: "\<lbrakk>st; i_class cur = BPF_LD\<rbrakk> \<Longrightarrow> \<exists>m \<in> set (v_maps s). covers m (v_pc s) 16 \<and> p = m_off m (v_pc s)"
  shows "runs st (exec_insn F H cur p s) (\<lambda>(oc, s'). step_ok st rest s0 s')"
proof -
  have b: "runs st (map_option (map_prod of_bool_out id) m) (\<lambda>(oc, s'). step_ok st rest s0 s')"
    if "runs st m (\<lambda>(b, s'). step_ok st rest s0 s')" for m
    using that by (auto simp: runs_def split: option.splits)
  have ldc: "i_class cur = BPF_LD \<Longrightarrow> runs st (ld cur p s) (\<lambda>(b, s'). step_ok st rest s0 s')"
    by (rule ld_step [OF so]) (use fit in blast)
  have alu: "runs st (Some (alu cur s)) (\<lambda>(b, s'). step_ok st rest s0 s')" "runs st (Some (alu64 cur s)) (\<lambda>(b, s'). step_ok st rest s0 s')"
    using alu_step [OF so, of cur] by simp_all
  show ?thesis
    using b [OF ldc] b [OF ldx_step [OF so]] b [OF store_at_step [OF so]] b [OF stx_step [OF so]]
      b [OF alu(1)] b [OF alu(2)] jmp_step [OF so] jmp32_step [OF so]
    by (simp add: exec_insn_def Let_def st_insn_def)
qed

lemma fetch_exec_step:
  assumes so: "step_ok st rest s0 s" and fo: "st \<Longrightarrow> fetch_ok s"
  shows "runs st (fetch_exec F H s) (\<lambda>(oc, s'). step_ok st rest s0 s')"
proof -
  obtain r s1 where mm: "mmu s (v_pc s) 8 = (r, s1)" by fastforce
  note s1 = mmu_step [OF so _ mm]
  have so1: "step_ok st rest s0 s1" "s1 = s\<lparr>v_tlb := v_tlb s1\<rparr>" "mem_at s1 = mem_at s" using s1(1,2,5) by simp_all
  show ?thesis
  proof (cases r)
    case None
    then show ?thesis using mm so1 by (auto simp: fetch_exec_def intro!: log_pair_step)
  next
    case (Some p)
    then obtain m where m: "m \<in> set (v_maps s1)" "covers m (v_pc s) 8" "p = m_off m (v_pc s)" using s1(3) [of p] by auto
    have pk: "runs st (peek s1 p 8) (\<lambda>v. \<exists>bs. gget (mem_at s) (v_pc s) 8 = Some bs \<and> v = le_val bs)"
      using peek_runs [OF step_ok_vm_ok [OF so1(1)] m(1,2), of 8] so1(3) by (simp add: m(3))
    have hook: "runs st (if has_flag s1 VM_DEBUG_ATTACHED then map_option park_if_stopped (h_breakpoint H s1) else Some (True, s1))
        (\<lambda>(go, s2). step_ok st rest s0 s2 \<and> (st \<longrightarrow> s2 = s1))"
    proof (cases "has_flag s1 VM_DEBUG_ATTACHED")
      case True
      then have "\<not> st" using fo so1(2) by (metis fetch_ok_def has_flag_def vm.select_convs(3) vm.surjective vm.update_convs(5))
      then show ?thesis
        using True breakpoint_step [OF so1(1)] park_step [of st rest s0] by (auto simp: runs_def split: option.splits)
    qed (use so1(1) in simp)
    have run: "runs st (exec_insn F H (decode_insn (le_val bs)) p s2) (\<lambda>(oc, s'). step_ok st rest s0 s')"
      if bs: "gget (mem_at s) (v_pc s) 8 = Some bs" and s2: "step_ok st rest s0 s2" "st \<longrightarrow> s2 = s1" for bs s2
    proof (rule exec_insn_step [OF s2(1)])
      assume st and ld: "i_class (decode_insn (le_val bs)) = BPF_LD"
      then have e: "s2 = s1" "fetch_ok s" using s2(2) fo by simp_all
      then obtain p' where "resolve (v_maps s) (v_pc s) 16 = Some p'"
        using bs ld by (auto simp: fetch_ok_def ld_fits_def)
      then obtain m' where m': "m' \<in> set (v_maps s)" "covers m' (v_pc s) 16" by (rule resolve_Some)
      have eq: "v_maps s1 = v_maps s" "v_pc s1 = v_pc s" using so1(2) by (metis vm.ext_inject vm.surjective vm.update_convs(5))+
      have c8: "covers m' (v_pc s) 8" using m'(2) by (simp add: covers_def)
      have "m_off m' (v_pc s) = p"
        using resolve_covers [OF vm_okD(1) [OF step_ok_vm_ok [OF so]], of 8 m' "v_pc s"]
          resolve_covers [OF vm_okD(1) [OF step_ok_vm_ok [OF so]], of 8 m "v_pc s"] m m'(1) c8 eq by simp
      then show "\<exists>m \<in> set (v_maps s2). covers m (v_pc s2) 16 \<and> p = m_off m (v_pc s2)"
        using m' e(1) eq by auto
    qed
    have tail: "runs st (case x of (go, s2) \<Rightarrow> if go then exec_insn F H (decode_insn (le_val bs)) p s2 else Some (Blocked, s2))
        (\<lambda>(oc, s'). step_ok st rest s0 s')"
      if "gget (mem_at s) (v_pc s) 8 = Some bs" "case x of (go, s2) \<Rightarrow> step_ok st rest s0 s2 \<and> (st \<longrightarrow> s2 = s1)" for bs x
    proof (cases x)
      case (Pair go s2)
      then show ?thesis using run [OF that(1), of s2] that(2) by (cases go) simp_all
    qed
    show ?thesis
      unfolding fetch_exec_def mm Some prod.case option.case Let_def
      by (rule runs_bind [OF pk], elim exE conjE, hypsubst, rule runs_if [OF log_pair_step [OF so1(1)]], rule runs_bind [OF hook])
        (rule tail)
  qed
qed

lemma safepoint_step:
  assumes so: "step_ok st rest s0 s"
  shows "runs st (safepoint H s) (\<lambda>(oc, s'). step_ok st rest s0 s')"
proof -
  have so1: "step_ok st rest s0 (clear_flags VM_JIT_ABORT s)" using so by simp
  have ds: "runs st (map_option (map_prod of_bool_out id) (deliver_signal H s3)) (\<lambda>(oc, s'). step_ok st rest s0 s')"
    if "step_ok st rest s0 s3" for s3
    using deliver_signal_step [OF that] by (auto simp: runs_def split: option.splits)
  have sl: "step_ok st rest s0 s3" if "stop_loop es s2 = (oc, s3)" "step_ok st rest s0 s2" for es s2 s3 oc
    using stop_loop_step [OF that(2), of es] that(1) by simp
  show ?thesis
    unfolding safepoint_def Let_def
    by (rule runs_bind [where Q = "\<lambda>(ok, s2). step_ok st rest s0 s2"])
      (use so1 deliver_signal_step [OF so1] in \<open>auto split: prod.split outcome.split intro!: ds dest: sl\<close>)
qed

lemma step_enter_step:
  assumes "step_ok st rest s0 s"
  shows "runs st (step_enter H s) (\<lambda>(oc, s'). step_ok st rest s0 s')"
  using assms by (auto simp: step_enter_def Let_def intro!: safepoint_step)

lemma step_runs:
  assumes so: "step_ok st rest s0 s" and fo: "\<And>s1. \<lbrakk>st; step_enter H s = Some (Go, s1)\<rbrakk> \<Longrightarrow> fetch_ok s1"
  shows "runs st (step F H s) (\<lambda>(oc, s'). step_ok st rest s0 s')"
proof (cases "step_enter H s")
  case None
  then show ?thesis using step_enter_step [OF so] by (simp add: step_def)
next
  case (Some x)
  obtain oc s1 where x: "x = (oc, s1)" by fastforce
  have so1: "step_ok st rest s0 s1" using step_enter_step [OF so] Some x by simp
  have "runs st (fetch_exec F H s1) (\<lambda>(oc, s'). step_ok st rest s0 s')" if "oc = Go"
    using fetch_exec_step [OF so1] fo Some x that by blast
  then show ?thesis using Some x so1 by (simp add: step_def)
qed

end

end
