(* ===== verification/Frame_Props.thy ===== *)
theory Frame_Props
  imports Frame_Safety
begin

text \<open>
  What the frame operations do: the fields of the packed frame word, the words a call leaves on the
  stack, the registers a return restores, and the region a dynamic allocation hands out.
\<close>

subsection \<open>The packed word\<close>

lemma frame_masks: "FRAME_SIZE_MASK = mask 24" "FRAME_ALLOCA_MASK = mask 24"
  by (simp_all add: FRAME_SIZE_MASK_def FRAME_ALLOCA_MASK_def mask_eq_exp_minus_1)

definition frame_word :: "bool \<Rightarrow> bool \<Rightarrow> u64 \<Rightarrow> u64 \<Rightarrow> u64" where
  "frame_word sg si n a = frame_flags_make sg n a OR (if si then FRAME_FLAG_SIGINFO else 0)"

lemma bit_single: "bit (push_bit n 1 :: 'a::len word) k \<longleftrightarrow> k = n \<and> n < LENGTH('a)"
  by (auto simp: bit_simps)

lemma bit_frame_flags: "bit FRAME_FLAG_SIGNAL k \<longleftrightarrow> k = 48" "bit FRAME_FLAG_SIGINFO k \<longleftrightarrow> k = 49"
  unfolding FRAME_FLAG_SIGNAL_def FRAME_FLAG_SIGINFO_def bit_single by simp_all

lemma bit_frame_word:
  "bit (frame_word sg si n a) k \<longleftrightarrow>
     (k < 24 \<and> bit n k) \<or> (24 \<le> k \<and> k < 48 \<and> bit a (k - 24)) \<or> (k = 48 \<and> sg) \<or> (k = 49 \<and> si)"
  unfolding frame_word_def frame_flags_make_def frame_masks
  by (cases sg; cases si) (auto simp: bit_frame_flags bit_or_iff bit_and_iff bit_mask_iff bit_push_bit_iff)

lemma frame_word_fields:
  "frame_stack_size (frame_word sg si n a) = take_bit 24 n"
  "frame_alloca_len (frame_word sg si n a) = take_bit 24 a"
  by (rule bit_word_eqI, auto simp: frame_stack_size_def frame_alloca_len_def bit_frame_word frame_masks bit_simps)+

lemma and_single_bit: "(w AND push_bit k 1 \<noteq> 0) \<longleftrightarrow> bit (w :: 'a::len word) k"
proof (cases "bit w k")
  case True
  then have "bit (w AND push_bit k 1) k"
    using bit_imp_le_length [OF True] unfolding bit_and_iff bit_single by simp
  then show ?thesis using True by auto
next
  case False
  have "\<not> bit (w AND push_bit k 1) j" for j
    using False unfolding bit_and_iff bit_single by blast
  then have "w AND push_bit k 1 = 0" by (intro bit_word_eqI) simp
  then show ?thesis using False by simp
qed

lemma frame_word_flags:
  "frame_is_signal (frame_word sg si n a) = sg" "frame_has_siginfo (frame_word sg si n a) = si"
  unfolding frame_is_signal_def frame_has_siginfo_def FRAME_FLAG_SIGNAL_def FRAME_FLAG_SIGINFO_def
    and_single_bit bit_frame_word by auto

subsection \<open>Words in memory\<close>

lemma unat_small: "x < 2 ^ 64 \<Longrightarrow> unat (of_nat x :: u64) = x"
  by (simp add: unsigned_of_nat take_bit_eq_mod)

lemma gput_other: "(unat x < unat a \<or> unat a + length bs \<le> unat x) \<Longrightarrow> gput a bs g x = g x"
  by (auto simp: gput_def)

lemma concat_u64_nth:
  assumes "k < length ws" "i < 8"
  shows "concat (map u64_bytes ws) ! (8 * k + i) = u64_bytes (ws ! k) ! i"
  using assms(1)
proof (induction ws arbitrary: k)
  case (Cons w ws)
  then show ?case using assms(2) by (cases k) (simp_all add: nth_append)
qed simp

lemma length_concat_u64 [simp]: "length (concat (map u64_bytes ws)) = 8 * length ws"
  by (induction ws) simp_all

lemma gword_gput:
  assumes "k < length ws" "unat a + 8 * length ws \<le> 2 ^ 64"
  shows "gword (gput a (concat (map u64_bytes ws)) g) (a + of_nat (8 * k)) = Some (ws ! k)"
proof -
  have b: "gput a (concat (map u64_bytes ws)) g (a + of_nat (8 * k) + of_nat i) = Some (u64_bytes (ws ! k) ! i)" if "i < 8" for i
  proof -
    have "8 * k + i < 8 * length ws" using assms(1) that by simp
    then have lt: "unat a + (8 * k + i) < 2 ^ 64" using assms(2) by linarith
    have "unat (a + of_nat (8 * k) + of_nat i) = unat (a + of_nat (8 * k + i))" by (simp add: add.assoc)
    also have "\<dots> = unat a + (8 * k + i)"
      using lt unat_small [of "8 * k + i"] by (subst word_add_nat) (simp_all del: of_nat_add of_nat_mult)
    finally have u: "unat (a + of_nat (8 * k) + of_nat i) = unat a + (8 * k + i)" .
    show ?thesis
      using \<open>8 * k + i < 8 * length ws\<close> concat_u64_nth [OF assms(1) that] by (simp add: gput_def u del: of_nat_add of_nat_mult)
  qed
  have "gget (gput a (concat (map u64_bytes ws)) g) (a + of_nat (8 * k)) 8 = Some (u64_bytes (ws ! k))"
    using b by (auto simp: gget_def list_all_iff intro!: nth_equalityI simp del: of_nat_mult)
  then show ?thesis by (simp add: gword_def u64_bytes_def)
qed

lemma gword_cong: "(\<And>i. i < 8 \<Longrightarrow> g (a + of_nat i) = g' (a + of_nat i)) \<Longrightarrow> gword g a = gword g' a"
  unfolding gword_def gget_def
  by (intro arg_cong [where f = "map_option _"] if_cong arg_cong [where f = Some] map_cong list.pred_cong) auto

subsection \<open>Returning\<close>

lemma frame_words_nth:
  "length (frame_words sg si lim ret r) = (if sg then 13 else 7)"
  "frame_words sg si lim ret r ! 0 = frame_word sg si lim 0"
  "take 7 (frame_words sg si lim ret r) = [frame_word sg si lim 0, r 10, ret, r 6, r 7, r 8, r 9]"
  "sg \<Longrightarrow> drop 7 (frame_words sg si lim ret r) = [r 0, r 1, r 2, r 3, r 4, r 5]"
  by (simp_all add: frame_words_def frame_word_def)

lemma peek_words_eq:
  assumes "step_ok st rest s0 s" "m \<in> set (v_maps s)" "covers m a n" "8 * (j + k) \<le> unat n" "j + k \<le> length ws"
    and w: "\<And>i. i < length ws \<Longrightarrow> gword (mem_at s) (a + of_nat (8 * i)) = Some (ws ! i)"
  shows "runs st (peek_words s (hadd (m_off m a) (8 * j)) k) (\<lambda>vs. vs = take k (drop j ws))"
proof (rule runs_mono [OF peek_words_step [OF assms(1-3), of "8 * j" k]])
  show "8 * j + 8 * k \<le> unat n" using assms(4) by simp
  fix vs assume vs: "map Some vs = map (\<lambda>i. gword (mem_at s) (a + of_nat (8 * j + 8 * i))) [0..<k]"
  have len: "length vs = k" using arg_cong [OF vs, of length] by simp
  show "vs = take k (drop j ws)"
  proof (rule nth_equalityI)
    show "length vs = length (take k (drop j ws))" using len assms(5) by simp
    fix i assume i: "i < length vs"
    have "map Some vs ! i = gword (mem_at s) (a + of_nat (8 * (j + i)))"
      unfolding vs using i len by (simp add: distrib_left del: of_nat_add of_nat_mult)
    then show "vs ! i = take k (drop j ws) ! i"
      using w [of "j + i"] i len assms(5) by (simp del: of_nat_add of_nat_mult)
  qed
qed

text \<open>The registers after a return through a frame that saved the register file r.\<close>

definition returned :: "bool \<Rightarrow> (nat \<Rightarrow> u64) \<Rightarrow> (nat \<Rightarrow> u64) \<Rightarrow> nat \<Rightarrow> u64" where
  "returned sg r cur n = (if n \<in> {6..10} \<or> sg \<and> n \<le> 5 then r n else cur n)"

lemma restored:
  "(v_reg (restore_regs [6, 7, 8, 9] [r 6, r 7, r 8, r 9] s))(10 := r 10) = returned False r (v_reg s)"
  "(v_reg (restore_regs [0, 1, 2, 3, 4, 5] [r 0, r 1, r 2, r 3, r 4, r 5]
     ((restore_regs [6, 7, 8, 9] [r 6, r 7, r 8, r 9] s)\<lparr>v_signal_depth := d\<rparr>)))(10 := r 10) = returned True r (v_reg s)"
  by (auto simp: fun_eq_iff returned_def restore_regs_def set_reg_def)

lemma restore_depth [simp]: "v_signal_depth (restore_regs rs ws s) = v_signal_depth s"
  unfolding restore_regs_def by (induction rs ws arbitrary: s rule: list_induct2') auto

lemma pop_frame_result:
  assumes so: "step_ok st rest s0 s" and res: "resolve (v_maps s) (v_reg s 10) 104 \<noteq> None"
    and w: "\<And>i. i < length (frame_words sg False lim ret r) \<Longrightarrow>
       gword (mem_at s) (v_reg s 10 + of_nat (8 * i)) = Some (frame_words sg False lim ret r ! i)"
  shows "runs st (pop_frame H s) (\<lambda>(pc, s'). pc = ret \<and> step_ok st rest s0 s' \<and> mem_at s' = mem_at s
     \<and> v_reg s' = returned sg r (v_reg s) \<and> v_signal_depth s' = (if sg then v_signal_depth s - 1 else v_signal_depth s))"
proof -
  let ?ws = "frame_words sg False lim ret r"
  obtain q s1 where mm: "mmu s (v_reg s 10) 104 = (q, s1)" by fastforce
  note s1 = mmu_step [OF so _ mm]
  obtain p where q: "q = Some p" using s1(4) res by auto
  then obtain m where m: "m \<in> set (v_maps s1)" "covers m (v_reg s 10) 104" "p = m_off m (v_reg s 10)" using s1(3) [of p] by auto
  have so1: "step_ok st rest s0 s1" "mem_at s1 = mem_at s" using s1(1,5) by simp_all
  have e: "s1 = s\<lparr>v_tlb := v_tlb s1\<rparr>" using s1(2) by simp
  have v: "v_reg s1 = v_reg s" "v_signal_depth s1 = v_signal_depth s" by (subst e, simp)+
  have pk: "runs st (peek_words s1 p 7) (\<lambda>vs. vs = [frame_word sg False lim 0, r 10, ret, r 6, r 7, r 8, r 9])"
    using peek_words_eq [OF so1(1) m(1,2), of 0 7 ?ws] w so1(2) by (simp add: frame_words_nth m(3))
  have pk2: "runs st (peek_words s1 (hadd p 56) 6) (\<lambda>vs. vs = [r 0, r 1, r 2, r 3, r 4, r 5])" if sg
    using peek_words_eq [OF so1(1) m(1,2), of 7 6 ?ws] w so1(2) that by (simp add: frame_words_nth m(3))
  show ?thesis
    using pk pk2 so1 v
    by (cases sg; cases "peek_words s1 p 7"; cases "peek_words s1 (hadd p 56) 6")
      (simp_all add: pop_frame_def Let_def mm q frame_word_flags restored del: One_nat_def)
qed

end
