(* ===== verification/Machine.thy ===== *)
theory Machine
  imports Interp_Safety Frame_Props
begin

text \<open>
  Runs of the interpreter: the empty handler satisfies the handler contract, a run is a chain of
  steps interleaved with flag changes by other threads, and the machine invariant holds along every
  run. A small concrete machine shows that the hypotheses of the theorems can be met.
\<close>

subsection \<open>The empty handler satisfies the contract\<close>

interpretation empty: syscall_handler st empty_syscall for st
  by unfold_locales (simp_all add: empty_syscall_def step_ok_refl)

subsection \<open>Runs\<close>

text \<open>
  One round of the loop of vm::run that goes on, or another thread storing into the flags word
  (vm::set_flags and vm::clear_flags are called from other threads too).
\<close>

inductive turn :: "fpu \<Rightarrow> 'h handler \<Rightarrow> 'h vm \<Rightarrow> 'h vm \<Rightarrow> bool" for F H where
  interp: "step F H s = Some (Go, s1) \<Longrightarrow> turn F H s (s1\<lparr>v_pc := v_pc s1 + 8\<rparr>)"
| flags: "turn F H s (s\<lparr>v_flags := fl\<rparr>)"

inductive reaches :: "fpu \<Rightarrow> 'h handler \<Rightarrow> 'h vm \<Rightarrow> 'h vm \<Rightarrow> bool" for F H where
  here: "reaches F H s s"
| more: "\<lbrakk>reaches F H s s1; turn F H s1 s2\<rbrakk> \<Longrightarrow> reaches F H s s2"

context syscall_handler
begin

lemma turn_step_ok:
  assumes "step_ok st rest s0 s" "turn F H s s'" "st \<Longrightarrow> \<forall>s1. step_enter H s = Some (Go, s1) \<longrightarrow> fetch_ok s1"
  shows "step_ok st rest s0 s'"
  using assms(2)
proof cases
  case (interp s1)
  have "runs st (step F H s) (\<lambda>(oc, s'). step_ok st rest s0 s')"
    by (rule step_runs [OF assms(1)]) (use assms(3) in blast)
  then show ?thesis using interp by simp
qed (use assms(1) in simp)

lemma reaches_step_ok:
  assumes "reaches F H s s'" "\<not> st" "vm_ok st rest s"
  shows "step_ok st rest s s'"
  using assms
proof (induction rule: reaches.induct)
  case (more s s1 s2)
  show ?case by (rule turn_step_ok [OF more.IH [OF more.prems] more.hyps(2)]) (use more.prems in simp)
qed (simp add: step_ok_refl)

lemma run_loop_step_ok:
  assumes "step_ok st rest s0 s" "\<not> st"
  shows "runs st (run_loop F H n s) (\<lambda>(oc, s'). step_ok st rest s0 s')"
  using assms(1)
proof (induction n arbitrary: s)
  case (Suc n)
  have "runs st (step F H s) (\<lambda>(oc, s'). step_ok st rest s0 s')"
    by (rule step_runs [OF Suc.prems]) (use assms(2) in simp)
  then show ?case
    unfolding run_loop.simps
    by (rule runs_bind) (use Suc.IH in \<open>auto simp: runs_prod\<close>)
qed simp

end

subsection \<open>A concrete machine\<close>

text \<open>
  One writable page at the stack base, with the stack pointer in its middle and the program counter
  at its start, where the word at r10 - 8 is set to 5; and a page of another address space.
\<close>

definition demo_map :: memmap where
  "demo_map = \<lparr>m_data = Ptr 0 0, m_dsize = 4096, m_owned = True, m_size = 4096, m_paddr = 0x10000000,
               m_flags = 7, m_cow = None, m_path = []\<rparr>"

definition demo_other :: memmap where
  "demo_other = demo_map\<lparr>m_data := Ptr 1 0\<rparr>"

definition demo_host :: host where
  "demo_host = \<lparr>hpages = (\<lambda>q. if q = Page 0 0 \<or> q = Page 1 0 then Some (True, True) else None),
                hval = put_bytes (Ptr 0 0) [0x7a, 0x0a, 0xf8, 0xff, 5, 0, 0, 0] (\<lambda>_. 0),
                hcow = (\<lambda>_. None), hblk = 2, hcid = 0, os_calls = 0,
                os_mmap_ok = (\<lambda>_. True), os_mprotect_ok = (\<lambda>_. True)\<rparr>"

definition demo_vm :: "unit vm" where
  "demo_vm = \<lparr>v_pc = 0x10000000, v_reg = (\<lambda>_. 0)(10 := 0x10000800), v_flags = 0, v_insn_count = 0,
              v_tlb = (\<lambda>_. tlb_zero), v_maps = [demo_map], v_host = demo_host, v_signal_depth = 0,
              v_interp_insns = 0, v_tp = 0, v_restart_pc = 0, v_restart_nohand = False, v_raw_stack = False,
              v_insn_limit = 0, v_stack_limit = 512, v_sys = (), v_env = []\<rparr>"

lemma demo_pages: "m_pages demo_map q \<longleftrightarrow> q = Page 0 0" "m_pages demo_other q \<longleftrightarrow> q = Page 1 0"
  by (cases q; auto simp: m_pages_def demo_map_def demo_other_def in_pages_def)+

lemma demo_own: "own_inv demo_host {#demo_other, demo_map#}"
  unfolding own_inv_def
  by (auto simp: own_count_def demo_pages managed_def cow_map_ok_def fresh_ids_def)
     (auto simp: demo_map_def demo_other_def demo_host_def)

lemma demo_vm_ok: "vm_ok st {#demo_other#} demo_vm"
  using demo_own
  by (auto simp: vm_ok_def mem_ok_def demo_vm_def tlb_ok_def prot_ok_def demo_pages as_ok_def m_lo_def m_hi_def)
     (auto simp: demo_map_def demo_other_def demo_host_def)

subsection \<open>Evaluation\<close>

lemmas mem_eval = mmu_def mmu_slow_def mmu_w_def mmu_w_slow_def find_map_locked_def upper_bound.simps tlb_hit_def tlb_zero_def
  tlb_of_def fill_tlb_def tlb_ptr_def m_off_def hadd_def can_read_def can_write_def page_of_def host_load_def host_store_def
  peek_def peek64_def poke_def put_bytes_def tlb_index_def TLB_SIZE_def guest_write_def Let_def upt_rec

lemmas demo_eval = demo_vm_def demo_map_def demo_host_def

lemmas insn_eval = step_def step_enter_def fetch_exec_def decode_insn_def exec_insn_def i_class_def i_op_def i_size_def i_mode_def i_is_x_def
  st_insn_def stx_def store_at_def ld_def ldx_def access_size_def of_bool_out_def has_flag_def

text \<open>The machine executes its store.\<close>

lemma demo_step: "map_option fst (step F empty_syscall demo_vm) = Some Go"
  by (simp add: insn_eval demo_eval mem_eval flag_defs)

lemma demo_caller: "caller_len demo_vm = Some (0, demo_vm\<lparr>v_tlb := (\<lambda>_. tlb_zero)(tlb_index 0x10000800 := tlb_of demo_map)\<rparr>)"
  by (simp add: mem_eval demo_eval caller_len_def frame_total_len_def frame_stack_size_def frame_alloca_len_def)

end
