(* ===== verification/Core_Props.thy ===== *)
theory Core_Props
  imports Machine
begin

text \<open>
  The properties of the memory system, the instructions, the frames and the interpreter loop.
\<close>

subsection \<open>The interpreter\<close>


lemma demo_fetch: "fetch_ok s" if "step_enter empty_syscall demo_vm = Some (Go, s)"
proof -
  have "resolve [demo_map] 0x10000000 16 \<noteq> None"
    by (simp add: resolve_def covers_def m_lo_def m_hi_def demo_map_def)
  then show ?thesis
    using that by (auto simp: step_enter_def demo_vm_def Let_def fetch_ok_def ld_fits_def has_flag_def)
qed






subsection \<open>Address translation\<close>

text \<open>C7: The binary search of find_map_locked finds a mapping exactly when one mapping of the address
  space covers the whole range, and then it is that mapping.\<close>

theorem find_map_locked_correct:
  assumes "as_ok ms" "0 < n"
  shows "find_map_locked ms a n = Some i \<longleftrightarrow> i < length ms \<and> covers (ms ! i) a n"
  using find_map_locked_iff [OF assms] .

theorem find_map_locked_correct_witness:
  "find_map_locked [demo_map] 0x10000010 16 = Some 0"
  using find_map_locked_correct [of "[demo_map]" 16 "0x10000010" 0]
  by (simp add: as_ok_def m_lo_def m_hi_def demo_map_def covers_def)

text \<open>C6: The TLB is transparent: with a TLB that only caches mappings of the address space, the read
  translation gives the pointer of the linear search over all mappings, on the fast path and on
  the slow path alike, and changes nothing but the TLB, which stays a cache of the address space.\<close>

theorem mmu_transparent:
  assumes "as_ok (v_maps s)" "tlb_ok (v_maps s) (v_tlb s)" "0 < n"
  shows "fst (mmu s a n) = resolve (v_maps s) a n
     \<and> snd (mmu s a n) = s\<lparr>v_tlb := v_tlb (snd (mmu s a n))\<rparr> \<and> tlb_ok (v_maps s) (v_tlb (snd (mmu s a n)))"
  using mmu_spec [OF assms, of a] by (metis fst_conv snd_conv vm.select_convs(5) vm.surjective vm.update_convs(5))

theorem mmu_transparent_witness:
  "fst (mmu demo_vm 0x10000010 8) = resolve (v_maps demo_vm) 0x10000010 8"
  using mmu_transparent [OF vm_okD(1,2) [OF demo_vm_ok [of True]], of 8 "0x10000010"] by simp

text \<open>C4: A write translation keeps the invariant, the guest's view of its memory and all other address
  spaces, and changes no register; the pointer it returns covers the range, and no byte of
  the range is shared with a mapping of another address space, even after a fork.\<close>

theorem mmu_w_exclusive:
  assumes ok: "vm_ok st rest s" and n: "0 < n" and r: "mmu_w s a n = Some (r, s')"
  shows "vm_ok st rest s' \<and> mem_at s' = mem_at s \<and> isolated rest (v_host s) (v_host s') \<and> v_reg s' = v_reg s
     \<and> (\<forall>p. r = Some p \<longrightarrow> resolve (v_maps s') a n = Some p
          \<and> (\<forall>m \<in># rest. \<forall>i < unat n. \<not> m_pages m (page_of (hadd p i))))"
proof -
  have post: "mmu_w_post st rest s a n r s'" using runs_result [OF mmu_w_runs [OF ok] r] by simp
  note so = mmu_w_post_step_ok [OF ok post]
  have "resolve (v_maps s') a n = Some p \<and> (\<forall>m' \<in># rest. \<forall>i < unat n. \<not> m_pages m' (page_of (hadd p i)))" if p: "r = Some p" for p
  proof -
    obtain m where m: "m \<in> set (v_maps s')" "covers m a n" "p = m_off m a" "m_owned m"
      using post p by (auto simp: mmu_w_post_def)
    have hi: "m_hi m < 2 ^ 64" using vm_okD(1) [OF so(3)] m(1) by (simp add: as_ok_def)
    have inv: "own_inv (v_host s') (add_mset m (mset (v_maps s') - {#m#} + rest))"
      using vm_okD(3) [OF so(3)] m(1) by (simp add: mem_ok_def)
    show ?thesis
      using resolve_covers [OF vm_okD(1) [OF so(3)] n m(1,2)] m(3)
        own_inv_exclusive [OF inv m(4) covered_page [OF m(2) hi]] by simp
  qed
  then show ?thesis using so same_cpuD(2) [OF so(4)] by (simp add: step_ok_def)
qed

lemma demo_mmu_w: "map_option fst (mmu_w demo_vm 0x10000010 8) = Some (Some (Ptr 0 16))"
  by (simp add: mem_eval demo_eval)

theorem mmu_w_exclusive_witness:
  "\<exists>s'. mmu_w demo_vm 0x10000010 8 = Some (Some (Ptr 0 16), s') \<and> vm_ok True {#demo_other#} s'
     \<and> \<not> m_pages demo_other (page_of (hadd (Ptr 0 16) 7))"
proof -
  obtain s' where s': "mmu_w demo_vm 0x10000010 8 = Some (Some (Ptr 0 16), s')"
    using demo_mmu_w by auto
  show ?thesis
    using mmu_w_exclusive [OF demo_vm_ok [of True] _ s'] s' by simp
qed

text \<open>C8: A guest store that succeeds sets exactly the bytes of its range in the guest's view, and one
  that is refused changes none; both leave other address spaces alone.\<close>

theorem guest_write_effect:
  assumes "vm_ok st rest s" "0 < length bs" "length bs < 2 ^ 64" "guest_write s a bs = Some (b, s')"
  shows "mem_at s' = (if b then gput a bs (mem_at s) else mem_at s) \<and> vm_ok st rest s'
     \<and> isolated rest (v_host s) (v_host s') \<and> v_reg s' = v_reg s"
  using runs_result [OF guest_write_runs [OF assms(1-3)] assms(4)] by (auto simp: step_ok_def dest: same_cpuD(2))

lemma demo_guest_write: "map_option fst (guest_write demo_vm 0x10000010 [1, 2]) = Some True"
  by (simp add: mem_eval demo_eval)

theorem guest_write_effect_witness:
  "\<exists>s'. guest_write demo_vm 0x10000010 [1, 2] = Some (True, s') \<and> mem_at s' 0x10000011 = Some 2"
proof -
  obtain s' where s': "guest_write demo_vm 0x10000010 [1, 2] = Some (True, s')" using demo_guest_write by auto
  show ?thesis
    using guest_write_effect [OF demo_vm_ok [of True] _ _ s'] s' by (simp add: gput_def)
qed

text \<open>C9: A guest load yields the bytes of the guest's view at its address, little endian, or
  reports that the range is not mapped; in strict mode it never faults.\<close>

theorem guest_read_effect:
  assumes "vm_ok True rest s" "0 < n" "n < 2 ^ 64"
  shows "\<exists>r s'. guest_read s a n = Some (r, s') \<and> mem_at s' = mem_at s \<and> vm_ok True rest s'
     \<and> (case r of None \<Rightarrow> resolve (v_maps s) a (of_nat n) = None
        | Some v \<Rightarrow> \<exists>bs. gget (mem_at s) a n = Some bs \<and> v = le_val bs)"
  using runs_strictD [OF guest_read_runs [OF assms, of a]] by (auto simp: step_ok_def)

theorem guest_read_effect_witness:
  "\<exists>r s'. guest_read demo_vm 0x10000000 8 = Some (r, s') \<and> mem_at s' = mem_at demo_vm"
  using guest_read_effect [OF demo_vm_ok, of 8 "0x10000000"] by auto

subsection \<open>Instructions\<close>

text \<open>C10: The 64-bit arithmetic of vm::alu64 is the eBPF reference arithmetic at width 64 on every
  operation but moves and byte swaps: wrap-around, division by zero, the overflowing quotient and
  the masked shift amounts included; the destination register alone changes.\<close>

theorem alu64_reference:
  assumes "arith_op (i_op cur)" "i_dst cur < 10"
  shows "alu64 cur s =
    (True, set_reg (i_dst cur)
       (alu_ref (i_op cur) (i_off cur \<noteq> 0) (v_reg s (i_dst cur))
          (if i_is_x cur then v_reg s (i_src cur) else sx32 (i_imm cur))) s)"
  using assms by (simp add: alu64_def alu64_op_ref)

theorem alu64_reference_witness:
  "alu64 \<lparr>i_code = 0x3f, i_dst = 1, i_src = 2, i_off = 0, i_imm = 0\<rparr> demo_vm = (True, set_reg 1 0 demo_vm)"
  using alu64_reference [of "\<lparr>i_code = 0x3f, i_dst = 1, i_src = 2, i_off = 0, i_imm = 0\<rparr>" demo_vm]
  by (simp add: arith_op_def i_op_def i_is_x_def alu_ref_def demo_vm_def)

text \<open>C11: The 32-bit arithmetic of vm::alu is the reference arithmetic at width 32 on the low halves of
  the operands, and the upper half of the result is zero.\<close>

theorem alu32_reference:
  assumes "arith_op (i_op cur)" "i_dst cur < 10"
  shows "alu cur s =
    (True, set_reg (i_dst cur)
       (ucast (alu_ref (i_op cur) (i_off cur \<noteq> 0) (ucast (v_reg s (i_dst cur)) :: u32)
          (if i_is_x cur then ucast (v_reg s (i_src cur)) else i_imm cur))) s)
     \<and> drop_bit 32 (v_reg (snd (alu cur s)) (i_dst cur)) = 0"
proof -
  have "drop_bit 32 (ucast (w :: u32) :: u64) = 0" for w
    by (rule bit_word_eqI) (auto simp: bit_simps dest: bit_imp_le_length)
  then show ?thesis
    using assms by (simp add: alu_def alu_op_ref arith_op_def set_reg_def)
qed

theorem alu32_reference_witness:
  "v_reg (snd (alu \<lparr>i_code = 0x04, i_dst = 1, i_src = 0, i_off = 0, i_imm = 0xFFFFFFFF\<rparr> demo_vm)) 1 = 0xFFFFFFFF"
  using alu32_reference [of "\<lparr>i_code = 0x04, i_dst = 1, i_src = 0, i_off = 0, i_imm = 0xFFFFFFFF\<rparr>" demo_vm]
  by (simp add: arith_op_def i_op_def i_is_x_def alu_ref_def demo_vm_def set_reg_def)

text \<open>Decoding an encoded instruction gives the instruction back.\<close>

lemma insn_roundtrip:
  assumes "i_dst i < 16" "i_src i < 16"
  shows "decode_insn (encode_insn i) = i"
  by (rule decode_encode [OF assms])

lemma log_mem_violation_r10: "log_mem_violation s = Some s' \<Longrightarrow> vm_ok False rest s \<Longrightarrow> v_reg s' 10 = v_reg s 10"
proof -
  assume l: "log_mem_violation s = Some s'" and ok: "vm_ok False rest s"
  obtain s1 where s1: "backtrace 64 (v_reg s 10) s = Some s1" "s' = set_reg 0 137 (set_flags VM_KILLED s1)"
    using l by (auto simp: log_mem_violation_def bind_eq_Some_conv)
  have "s1 = s\<lparr>v_tlb := v_tlb s1\<rparr>"
    using runs_result [OF backtrace_step [OF step_ok_refl [OF ok]] s1(1)] by simp
  then have "v_reg s1 = v_reg s" by (metis vm.select_convs(2) vm.surjective vm.update_convs(5))
  then show "v_reg s' 10 = v_reg s 10" using s1(2) by (simp add: set_flags_def)
qed

lemma mmu_regs:
  assumes "vm_ok False rest s" "0 < n" "mmu s a n = (r, s1)"
  shows "v_reg s1 = v_reg s" "vm_ok False rest s1"
  using mmu_step [OF step_ok_refl [OF assms(1)] assms(2,3)]
  by (metis vm.select_convs(2) vm.surjective vm.update_convs(5), auto dest: step_ok_vm_ok)

text \<open>C13: Loads, wide loads and both kinds of arithmetic never change the frame pointer r10: an
  instruction that names it as its destination is refused.\<close>

theorem r10_read_only:
  assumes ok: "vm_ok False rest s" and c: "i_class cur \<in> {BPF_LD, BPF_LDX, BPF_ALU, BPF_ALU64}"
    and ex: "exec_insn F H cur p s = Some (oc, s')"
  shows "v_reg s' 10 = v_reg s 10"
proof -
  have n: "0 < (of_nat (access_size (i_code cur)) :: u64)" by (rule access_size_word(2))
  have a: "v_reg (snd (alu cur s)) 10 = v_reg s 10" "v_reg (snd (alu64 cur s)) 10 = v_reg s 10"
    by (auto simp: alu_def alu64_def Let_def split: option.split)
  have l: "ld cur p s = Some (b, s') \<Longrightarrow> v_reg s' 10 = v_reg s 10" for b
    using mmu_regs [OF ok, of 8 "v_pc s + 8"] log_mem_violation_r10 [of _ s' rest]
    by (fastforce simp: ld_def bind_eq_Some_conv split: if_splits prod.splits option.splits)
  have x: "ldx cur s = Some (b, s') \<Longrightarrow> v_reg s' 10 = v_reg s 10" for b
    using mmu_regs [OF ok n] log_mem_violation_r10 [of _ s' rest]
    by (fastforce simp: ldx_def Let_def bind_eq_Some_conv split: if_splits prod.splits option.splits)
  show ?thesis
    using c ex a l x by (cases "alu cur s"; cases "alu64 cur s") (auto simp: exec_insn_def Let_def)
qed

theorem r10_read_only_witness:
  "\<forall>F. exec_insn F empty_syscall \<lparr>i_code = 0x07, i_dst = 10, i_src = 0, i_off = 0, i_imm = 16\<rparr> (Ptr 0 0) demo_vm = Some (Halt, demo_vm)
     \<and> v_reg demo_vm 10 = 0x10000800"
proof
  fix F
  let ?c = "\<lparr>i_code = 0x07, i_dst = 10, i_src = 0, i_off = 0, i_imm = 16\<rparr>"
  have e: "exec_insn F empty_syscall ?c (Ptr 0 0) demo_vm = Some (Halt, demo_vm)"
    by (simp add: exec_insn_def i_class_def alu64_def of_bool_out_def Let_def)
  show "exec_insn F empty_syscall ?c (Ptr 0 0) demo_vm = Some (Halt, demo_vm) \<and> v_reg demo_vm 10 = 0x10000800"
    using r10_read_only [OF demo_vm_ok _ e] e by (simp add: i_class_def demo_vm_def)
qed

subsection \<open>Frames\<close>

text \<open>C5: A call followed by a return comes back: when the frame words a push wrote are intact and r10
  is back at the frame, the pop yields the return address, restores r6 to r10 (and r0 to r5 from a
  signal frame) to what they were at the push, leaves the other registers and the memory alone,
  and undoes the signal depth.\<close>

theorem call_return:
  assumes ok: "vm_ok st rest s" and push: "push_frame ret callee sg False s = Some (True, s1)"
    and ok2: "vm_ok st' rest' s2" and sp: "v_reg s2 10 = v_reg s1 10"
    and keep: "\<And>i. i < (if sg then 104 else 56) \<Longrightarrow> mem_at s2 (v_reg s1 10 + of_nat i) = mem_at s1 (v_reg s1 10 + of_nat i)"
    and mapped: "resolve (v_maps s2) (v_reg s1 10) 104 \<noteq> None"
    and pop: "pop_frame H s2 = Some (pc, s3)"
  shows "pc = ret \<and> v_reg s3 = returned sg (v_reg s) (v_reg s2) \<and> mem_at s3 = mem_at s2
     \<and> v_signal_depth s3 = (if sg then v_signal_depth s2 - 1 else v_signal_depth s2)
     \<and> v_signal_depth s1 = (if sg then v_signal_depth s + 1 else v_signal_depth s)"
proof -
  have pu: "pushed sg False ret s s1"
    using runs_result [OF push_frame_post [OF step_ok_refl [OF ok]] push] by simp
  then obtain lim where mem: "mem_at s1 = gput (v_reg s1 10) (concat (map u64_bytes (frame_words sg False lim ret (v_reg s)))) (mem_at s)"
    and fit: "unat (v_reg s1 10) + unat (frame_size_for sg False) < 2 ^ 64"
    by (auto simp: pushed_def)
  let ?ws = "frame_words sg False lim ret (v_reg s)"
  have len: "8 * length ?ws = (if sg then 104 else 56)" by (simp add: frame_words_nth)
  have fit': "unat (v_reg s1 10) + 8 * length ?ws \<le> 2 ^ 64"
    using fit by (auto simp: len frame_size_for_def frame_consts split: if_splits)
  have w: "gword (mem_at s2) (v_reg s2 10 + of_nat (8 * i)) = Some (?ws ! i)" if i: "i < length ?ws" for i
  proof -
    have "gword (mem_at s2) (v_reg s1 10 + of_nat (8 * i)) = gword (mem_at s1) (v_reg s1 10 + of_nat (8 * i))"
    proof (rule gword_cong)
      fix j :: nat assume "j < 8"
      then have "8 * i + j < 8 * length ?ws" using i by simp
      then show "mem_at s2 (v_reg s1 10 + of_nat (8 * i) + of_nat j) = mem_at s1 (v_reg s1 10 + of_nat (8 * i) + of_nat j)"
        using keep [of "8 * i + j"] unfolding len by (simp add: add.assoc)
    qed
    then show ?thesis using gword_gput [OF i fit', of "mem_at s"] mem sp by simp
  qed
  show ?thesis
    using runs_result [OF pop_frame_result [OF step_ok_refl [OF ok2] mapped [folded sp] w] pop] pu
    unfolding pushed_def by blast
qed

lemma demo_call: "case push_frame 0x10000008 0x10000100 False False demo_vm of
    Some (True, s1) \<Rightarrow> resolve (v_maps s1) (v_reg s1 10) 104 \<noteq> None
  | _ \<Rightarrow> False"
  by (simp add: push_frame_def demo_caller frame_size_for_def frame_consts)
     (simp add: mem_eval demo_eval frame_size_of_def frame_words_def FRAME_SLOT_MAGIC_def FRAME_SLOT_SIZE_MASK_def
        FRAME_SLOT_FALLBACK_def set_reg_def resolve_def covers_def m_lo_def m_hi_def)

theorem call_return_witness:
  "\<exists>s1 s3. push_frame 0x10000008 0x10000100 False False demo_vm = Some (True, s1)
     \<and> pop_frame empty_syscall s1 = Some (0x10000008, s3) \<and> v_reg s3 10 = v_reg demo_vm 10"
proof -
  obtain s1 where s1: "push_frame 0x10000008 0x10000100 False False demo_vm = Some (True, s1)"
    "resolve (v_maps s1) (v_reg s1 10) 104 \<noteq> None"
    using demo_call by (auto split: option.splits bool.splits)
  have ok1: "vm_ok True {#demo_other#} s1"
    using runs_result [OF push_frame_step [OF step_ok_refl [OF demo_vm_ok [of True]]] s1(1)]
    by (simp add: step_ok_def)
  obtain pc s3 where s3: "pop_frame empty_syscall s1 = Some (pc, s3)"
    using runs_strictD [OF empty.pop_frame_step [OF step_ok_refl [OF ok1]]] by auto
  have "pc = 0x10000008 \<and> v_reg s3 = returned False (v_reg demo_vm) (v_reg s1)"
    using call_return [OF demo_vm_ok [of True] s1(1) ok1 refl refl s1(2) s3] by blast
  then show ?thesis using s1(1) s3 by (auto simp: returned_def)
qed

text \<open>The packed frame word keeps its four fields apart: the size and the length of the dynamic
  area come back modulo 2^24, and the two flags come back as they were set.\<close>

lemma frame_word_fields_kept:
  "frame_stack_size (frame_word sg si n a) = take_bit 24 n \<and> frame_alloca_len (frame_word sg si n a) = take_bit 24 a
     \<and> frame_is_signal (frame_word sg si n a) = sg \<and> frame_has_siginfo (frame_word sg si n a) = si"
  by (simp add: frame_word_fields frame_word_flags)

text \<open>C12: Resizing the dynamic stack area either fails with EFAULT, EINVAL or ENOMEM and changes no
  memory, or records the new length, below 2^24, in the frame word and returns the new lower end of
  the frame, which is not below the stack base; when it grew, the whole frame is mapped.\<close>

theorem alloca_correct:
  assumes "vm_ok True rest s" "- (2 ^ 63) \<le> inc" "inc < 2 ^ 63"
  shows "\<exists>r s'. alloca inc s = Some (r, s') \<and> vm_ok True rest s' \<and> alloca_post inc s r s'"
  using runs_strictD [OF alloca_runs [OF step_ok_refl [OF assms(1)] assms(2,3)]] by (auto simp: step_ok_def)

theorem alloca_correct_witness:
  "\<exists>r s'. alloca 64 demo_vm = Some (r, s') \<and> vm_ok True {#demo_other#} s' \<and> alloca_post 64 demo_vm r s'"
  using alloca_correct [OF demo_vm_ok, of 64] by simp

subsection \<open>Faults\<close>

text \<open>A fetch from an address that is not mapped ends the run: the machine is marked killed, r0 is
  128 + 9, and the guest's memory is what it was.\<close>

lemma fetch_violation_kills:
  assumes ok: "vm_ok True rest s" and pc: "resolve (v_maps s) (v_pc s) 8 = None"
  shows "\<exists>s'. fetch_exec F H s = Some (Halt, s') \<and> has_flag s' VM_KILLED \<and> v_reg s' 0 = 137 \<and> vm_ok True rest s'
     \<and> isolated rest (v_host s) (v_host s')"
proof -
  obtain r s1 where mm: "mmu s (v_pc s) 8 = (r, s1)" by fastforce
  note s1 = mmu_step [OF step_ok_refl [OF ok] _ mm]
  have "r = None" "step_ok True rest s s1" using s1(1,4) pc by simp_all
  then show ?thesis
    using runs_strictD [OF log_mem_violation_step, of rest s s1] mm by (auto simp: fetch_exec_def step_ok_def)
qed

text \<open>A wide load in the last slot of a page; the next guest page is mapped, but from another host block.\<close>

definition straddle_vm :: "unit vm" where
  "straddle_vm = demo_vm\<lparr>v_pc := 0x10000ff8, v_maps := [demo_map, demo_other\<lparr>m_paddr := 0x10001000\<rparr>],
     v_host := demo_host\<lparr>hval := put_bytes (Ptr 0 0xff8) [0x18] (\<lambda>_. 0)\<rparr>\<rparr>"

lemma straddle_ok: "vm_ok True {#} straddle_vm"
proof -
  have pg: "m_pages (demo_other\<lparr>m_paddr := a\<rparr>) q = m_pages demo_other q" for a q by (simp add: m_pages_def)
  have "own_inv demo_host {#demo_map, demo_other\<lparr>m_paddr := 0x10001000\<rparr>#}"
    unfolding own_inv_def
    by (auto simp: own_count_def demo_pages pg managed_def cow_map_ok_def fresh_ids_def)
       (auto simp: demo_map_def demo_other_def demo_host_def)
  then have "own_inv (v_host straddle_vm) (mset (v_maps straddle_vm))"
    by (simp add: straddle_vm_def add_mset_commute)
  then show ?thesis
    by (auto simp: vm_ok_def mem_ok_def straddle_vm_def tlb_ok_def prot_ok_def demo_pages pg as_ok_def m_lo_def m_hi_def)
       (auto simp: demo_eval demo_other_def)
qed

text \<open>C14: The second slot of a wide load is checked through the guest address space but read through the
  host pointer of the first slot: from a machine in which everything is mapped readable and the
  invariant holds, executing it at the end of a mapping faults in the host.\<close>

theorem lddw_straddle_faults:
  "vm_ok True {#} straddle_vm \<and> resolve (v_maps straddle_vm) (v_pc straddle_vm + 8) 8 \<noteq> None
     \<and> step F empty_syscall straddle_vm = None"
proof (intro conjI)
  show "resolve (v_maps straddle_vm) (v_pc straddle_vm + 8) 8 \<noteq> None"
    by (simp add: straddle_vm_def demo_eval demo_other_def resolve_def covers_def m_lo_def m_hi_def)
  show "step F empty_syscall straddle_vm = None"
    by (simp add: insn_eval straddle_vm_def demo_eval demo_other_def mem_eval flag_defs)
qed (rule straddle_ok)

text \<open>An atomic fetch-and-add whose source register is r10 replaces the frame pointer, which other
  instructions cannot: the machine's stack pointer becomes the old contents of the memory cell.\<close>

lemma atomic_fetch_writes_r10:
  "map_option (\<lambda>(b, s'). (b, v_reg s' 10)) (stx \<lparr>i_code = 0xdb, i_dst = 10, i_src = 10, i_off = 0, i_imm = 1\<rparr> demo_vm) = Some (True, 0)"
  by (simp add: insn_eval atomic_def atomic_cell_def do_atomic_def set_reg_opt_def set_reg_def demo_eval mem_eval, blast)

end
