(* ===== verification/Posix_Memory.thy ===== *)
theory Posix_Memory
  imports Machine
begin

text \<open>
  The memory system calls of src/posix/memory.cpp: punching a hole, mmap, munmap, mprotect and
  madvise, on the address space of the calling machine. Open files and the error numbers of the
  host's calls are parameters. A file mapping starts with the file's bytes; that a shared mapping
  writes back to its file is not modelled.
\<close>

record mm_env =
  mm_file :: "int \<Rightarrow> (string \<times> (u64 \<Rightarrow> nat \<Rightarrow> u8)) option"
  mm_errno :: "nat \<Rightarrow> int"

subsection \<open>Splitting a mapping\<close>

text \<open>The part of m from guest address lo to hi, on the host pages of m, which a control block owns.\<close>

definition piece :: "memmap \<Rightarrow> u64 \<Rightarrow> u64 \<Rightarrow> u32 \<Rightarrow> string \<Rightarrow> memmap" where
  "piece m lo hi fl path =
     \<lparr>m_data = m_off m lo, m_dsize = hi - lo, m_owned = False, m_size = hi - lo, m_paddr = lo,
      m_flags = fl, m_cow = m_cow m, m_path = path\<rparr>"

definition cow_ref :: "memmap \<Rightarrow> host \<Rightarrow> host" where
  "cow_ref m h = (case m_cow m of None \<Rightarrow> h | Some i \<Rightarrow> cow_copy i h)"

text \<open>One round of the loop of punch_hole: what is kept of m, and m itself when it is dropped.\<close>

definition punch_one :: "u64 \<Rightarrow> u64 \<Rightarrow> memmap \<Rightarrow> host \<Rightarrow> memmap list \<times> memmap list \<times> host" where
  "punch_one lo hi m h =
     (let m_end = m_paddr m + m_size m in
      if hi \<le> m_paddr m \<or> lo \<ge> m_end then ([m], [], h)
      else (let (m1, h1) = share_data m h;
                (ls, h2) = (if m_paddr m1 < lo then ([piece m1 (m_paddr m1) lo (m_flags m1) (m_path m1)], cow_ref m1 h1) else ([], h1));
                (rs, h3) = (if hi < m_end then ([piece m1 hi m_end (m_flags m1) (m_path m1)], cow_ref m1 h2) else ([], h2))
            in (ls @ rs, [m1], h3)))"

fun punch_list :: "u64 \<Rightarrow> u64 \<Rightarrow> memmap list \<Rightarrow> host \<Rightarrow> memmap list \<times> memmap list \<times> host" where
  "punch_list lo hi [] h = ([], [], h)"
| "punch_list lo hi (m # ms) h =
     (let (ps, ds, h1) = punch_one lo hi m h; (ps', ds', h2) = punch_list lo hi ms h1 in (ps @ ps', ds @ ds', h2))"

text \<open>The old elements are destroyed when the new vector replaces the old one.\<close>

definition punch_hole :: "memmap list \<Rightarrow> u64 \<Rightarrow> u64 \<Rightarrow> host \<Rightarrow> memmap list \<times> host" where
  "punch_hole ms lo hi h = (let (ps, ds, h1) = punch_list lo hi ms h in (ps, fold memmap_destroy ds h1))"

subsection \<open>mmap and munmap\<close>

definition MAP_FIXED :: nat where "MAP_FIXED = 4"
definition MAP_ANONYMOUS :: nat where "MAP_ANONYMOUS = 5"

text \<open>MAP_FIXED and MAP_ANONYMOUS are given by the number of their bit.\<close>

definition page_up :: "u64 \<Rightarrow> u64" where
  "page_up x = (x + 0xFFF) AND NOT 0xFFF"

definition prot_flags :: "u32 \<Rightarrow> u32" where
  "prot_flags prot = (if bit prot 0 then 4 else 0) OR (if bit prot 1 then 2 else 0) OR (if bit prot 2 then 1 else 0)"

abbreviation (input) EBADF :: int where "EBADF \<equiv> 9"
abbreviation (input) EACCES :: int where "EACCES \<equiv> 13"

definition new_map :: "hptr \<Rightarrow> u64 \<Rightarrow> u32 \<Rightarrow> u64 \<Rightarrow> string \<Rightarrow> memmap" where
  "new_map p len prot paddr path =
     \<lparr>m_data = p, m_dsize = len, m_owned = True, m_size = len, m_paddr = paddr,
      m_flags = prot_flags prot, m_cow = None, m_path = path\<rparr>"

text \<open>Placing a fresh host block: at the given address after punching a hole, or after the last mapping.\<close>

definition place_fixed :: "hptr \<Rightarrow> u64 \<Rightarrow> u32 \<Rightarrow> u64 \<Rightarrow> string \<Rightarrow> 'h vm \<Rightarrow> int \<times> 'h vm" where
  "place_fixed p len prot addr path s =
     (let (ms, h) = punch_hole (v_maps s) addr (addr + len) (v_host s);
          s1 = flush_tlb (s\<lparr>v_maps := ms, v_host := h\<rparr>)
      in (sint addr, flush_tlb (addmem (new_map p len prot addr path) s1)))"

definition place_tail :: "hptr \<Rightarrow> u64 \<Rightarrow> u32 \<Rightarrow> string \<Rightarrow> 'h vm \<Rightarrow> (int \<times> 'h vm) option" where
  "place_tail p len prot path s =
     (if v_maps s = [] then None
      else (let back = last (v_maps s); paddr = page_up (m_paddr back + m_size back) in
            Some (sint paddr, flush_tlb (s\<lparr>v_maps := insert_map (new_map p len prot paddr path) (v_maps s)\<rparr>))))"

text \<open>From the host's mmap on: the error, or the placed block.\<close>

definition map_block :: "mm_env \<Rightarrow> u64 \<Rightarrow> u32 \<Rightarrow> u64 option \<Rightarrow> string \<Rightarrow> (nat \<Rightarrow> u8) \<Rightarrow> 'h vm \<Rightarrow> (int \<times> 'h vm) option" where
  "map_block E len prot fixed_at path cont s =
     (case host_mmap (v_host s) (unat len) prot cont of
        (None, h) \<Rightarrow> Some (- mm_errno E (os_calls (v_host s)), s\<lparr>v_host := h\<rparr>)
      | (Some p, h) \<Rightarrow>
          (case fixed_at of
             Some addr \<Rightarrow> Some (place_fixed p len prot addr path (s\<lparr>v_host := h\<rparr>))
           | None \<Rightarrow> place_tail p len prot path (s\<lparr>v_host := h\<rparr>)))"

definition do_mmap :: "mm_env \<Rightarrow> 'h vm \<Rightarrow> (int \<times> 'h vm) option" where
  "do_mmap E s =
     (let addr_hint = v_reg s 1; len = page_up (v_reg s 2); prot = ucast (v_reg s 3) :: u32; flags = ucast (v_reg s 4) :: u32;
          fd = sint (ucast (v_reg s 5) :: u32); offset = v_reg s 0; fixed = bit flags MAP_FIXED in
      if len = 0 then Some (- EINVAL, s)
      else if fixed \<and> addr_hint mod 0x1000 \<noteq> 0 then Some (- EINVAL, s)
      else (case (if bit flags MAP_ANONYMOUS then Some ([], \<lambda>_ _. 0) else mm_file E fd) of
              None \<Rightarrow> Some (- EBADF, s)
            | Some (path, bytes) \<Rightarrow>
                map_block E len prot (if fixed then Some addr_hint else None) path (bytes offset) s))"

definition do_munmap :: "'h vm \<Rightarrow> int \<times> 'h vm" where
  "do_munmap s = (let (ok, s1) = unmap (v_reg s 1) s in (if ok then 0 else - EINVAL, s1))"

definition do_madvise :: "'h vm \<Rightarrow> int \<times> 'h vm" where
  "do_madvise s = (0, s)"

subsection \<open>mprotect\<close>

definition m_end_of :: "memmap \<Rightarrow> u64" where
  "m_end_of m = m_paddr m + m_size m"

definition mp_overlap :: "u64 \<Rightarrow> u64 \<Rightarrow> memmap \<Rightarrow> bool" where
  "mp_overlap lo hi m \<longleftrightarrow> \<not> (hi \<le> m_paddr m \<or> lo \<ge> m_end_of m)"

definition sub_lo :: "u64 \<Rightarrow> memmap \<Rightarrow> u64" where
  "sub_lo lo m = max lo (m_paddr m)"

definition sub_hi :: "u64 \<Rightarrow> memmap \<Rightarrow> u64" where
  "sub_hi hi m = min hi (m_end_of m)"

definition need_split :: "u64 \<Rightarrow> u64 \<Rightarrow> memmap \<Rightarrow> bool" where
  "need_split lo hi m \<longleftrightarrow> m_paddr m < sub_lo lo m \<or> sub_hi hi m < m_end_of m"

definition new_prot :: "u32 \<Rightarrow> memmap \<Rightarrow> u32" where
  "new_prot new_flags m = (m_flags m AND NOT 7) OR new_flags"

text \<open>The pieces left, mid and right of a mapping that the range covers in part.\<close>

definition split_pieces :: "u64 \<Rightarrow> u64 \<Rightarrow> u32 \<Rightarrow> memmap \<Rightarrow> host \<Rightarrow> memmap list \<times> host" where
  "split_pieces lo hi nf m h =
     (let (ls, h1) = (if m_paddr m < sub_lo lo m then ([piece m (m_paddr m) (sub_lo lo m) (m_flags m) []], cow_ref m h) else ([], h));
          (mid, h2) = (piece m (sub_lo lo m) (sub_hi hi m) (new_prot nf m) [], cow_ref m h1);
          (rs, h3) = (if sub_hi hi m < m_end_of m then ([piece m (sub_hi hi m) (m_end_of m) (m_flags m) []], cow_ref m h2) else ([], h2))
      in (ls @ mid # rs, h3))"

text \<open>
  The branch that splits: on success the pieces replace the mapping, which is destroyed; when the
  host refuses the protection, the pieces are destroyed and the mapping stays, shared.
\<close>

definition mprotect_split :: "mm_env \<Rightarrow> u64 \<Rightarrow> u64 \<Rightarrow> u32 \<Rightarrow> u32 \<Rightarrow> memmap \<Rightarrow> host \<Rightarrow> int option \<times> memmap list \<times> host" where
  "mprotect_split E lo hi nf prot m h =
     (let (m1, h1) = share_data m h;
          (ps, h2) = split_pieces lo hi nf m1 h1;
          (ok, h3) = (if m_owned m then host_mprotect (m_off m1 (sub_lo lo m1)) (unat (sub_hi hi m1 - sub_lo lo m1)) prot h2 else (True, h2))
      in if ok then (None, ps, memmap_destroy m1 h3)
         else (Some (- mm_errno E (os_calls h2)), [m1], fold memmap_destroy ps h3))"

text \<open>The branch for a mapping inside the range.\<close>

definition mprotect_whole :: "mm_env \<Rightarrow> u32 \<Rightarrow> u32 \<Rightarrow> memmap \<Rightarrow> host \<Rightarrow> int option \<times> memmap \<times> host" where
  "mprotect_whole E nf prot m h =
     (if nf = m_flags m AND 7 then (None, m, h)
      else (let (ok, h1) = (if m_owned m then host_mprotect (m_data m) (unat (m_size m)) prot h else (True, h)) in
            if ok then (None, m\<lparr>m_flags := new_prot nf m\<rparr>, h1) else (Some (- mm_errno E (os_calls h)), m, h1)))"

definition splits_left :: "u64 \<Rightarrow> u64 \<Rightarrow> memmap list \<Rightarrow> nat" where
  "splits_left lo hi ms = length (filter (\<lambda>m. mp_overlap lo hi m \<and> need_split lo hi m) ms)"

lemma share_data_geo:
  assumes "share_data m h = (m1, h1)"
  shows "m_paddr m1 = m_paddr m" "m_size m1 = m_size m" "m_data m1 = m_data m" "m_flags m1 = m_flags m" "m_dsize m1 = m_dsize m"
    "m_path m1 = m_path m" "hval h1 = hval h" "hpages h1 = hpages h" "os_mprotect_ok h1 = os_mprotect_ok h" "hblk h1 = hblk h"
  using assms by (auto simp: share_data_def cow_new_def split: if_splits)

lemma piece_simps [simp]:
  "m_paddr (piece m lo hi fl p) = lo" "m_size (piece m lo hi fl p) = hi - lo" "m_flags (piece m lo hi fl p) = fl"
  "m_owned (piece m lo hi fl p) = False" "m_cow (piece m lo hi fl p) = m_cow m" "m_data (piece m lo hi fl p) = m_off m lo"
  "m_dsize (piece m lo hi fl p) = hi - lo" "m_end_of (piece m lo hi fl p) = hi"
  by (simp_all add: piece_def m_end_of_def)

text \<open>No piece of a split has to be split again, so the loop ends although it starts over after a split.\<close>

lemma split_pieces_done:
  assumes "split_pieces lo hi nf m h = (ps, h')"
  shows "splits_left lo hi ps = 0"
  using assms
  by (auto simp: split_pieces_def splits_left_def mp_overlap_def need_split_def sub_lo_def sub_hi_def min_def max_def
        split: if_splits)

lemma mprotect_split_done:
  assumes "mprotect_split E lo hi nf prot m h = (None, ps, h')"
  shows "splits_left lo hi ps = 0"
  using assms split_pieces_done by (auto simp: mprotect_split_def Let_def split: prod.splits if_splits)

function mprotect_loop :: "mm_env \<Rightarrow> u64 \<Rightarrow> u64 \<Rightarrow> u32 \<Rightarrow> u32 \<Rightarrow> nat \<Rightarrow> bool \<Rightarrow> memmap list \<Rightarrow> host \<Rightarrow> (int + bool) \<times> memmap list \<times> host" where
  "mprotect_loop E lo hi nf prot i any ms h =
     (if length ms \<le> i then (Inr any, ms, h)
      else if \<not> mp_overlap lo hi (ms ! i) then mprotect_loop E lo hi nf prot (Suc i) any ms h
      else if bit (m_flags (ms ! i)) PF_X \<and> \<not> bit nf PF_X then (Inl (- EACCES), ms, h)
      else if need_split lo hi (ms ! i) then
        (case mprotect_split E lo hi nf prot (ms ! i) h of
           (Some e, ps, h1) \<Rightarrow> (Inl e, take i ms @ ps @ drop (Suc i) ms, h1)
         | (None, ps, h1) \<Rightarrow> mprotect_loop E lo hi nf prot 0 True (take i ms @ ps @ drop (Suc i) ms) h1)
      else
        (case mprotect_whole E nf prot (ms ! i) h of
           (Some e, m, h1) \<Rightarrow> (Inl e, ms[i := m], h1)
         | (None, m, h1) \<Rightarrow> mprotect_loop E lo hi nf prot (Suc i) True (ms[i := m]) h1))"
  by pat_completeness auto


lemma splits_left_append [simp]: "splits_left lo hi (xs @ ys) = splits_left lo hi xs + splits_left lo hi ys"
  by (simp add: splits_left_def)

lemma splits_left_at:
  "i < length ms \<Longrightarrow> splits_left lo hi ms = splits_left lo hi (take i ms) + splits_left lo hi [ms ! i] + splits_left lo hi (drop (Suc i) ms)"
  using arg_cong [OF id_take_nth_drop, of i ms "splits_left lo hi"] by (simp add: splits_left_def)

lemma mprotect_whole_geo:
  assumes "mprotect_whole E nf prot m h = (e, m', h')"
  shows "m_paddr m' = m_paddr m" "m_size m' = m_size m" "m_data m' = m_data m" "m_cow m' = m_cow m" "m_owned m' = m_owned m"
    "m_dsize m' = m_dsize m"
  using assms by (auto simp: mprotect_whole_def split: if_splits prod.splits)

termination mprotect_loop
proof (relation "measures [\<lambda>(E, lo, hi, nf, prot, i, any, ms, h). splits_left lo hi ms, \<lambda>(E, lo, hi, nf, prot, i, any, ms, h). length ms - i]",
    simp, goal_cases)
  case (1 E lo hi nf prot i any ms h)
  then show ?case by simp
next
  case (2 E lo hi nf prot i any ms h e y ps h1)
  then have "mprotect_split E lo hi nf prot (ms ! i) h = (None, ps, h1)" by simp
  then show ?case
    using 2(1-4) mprotect_split_done [of E lo hi nf prot "ms ! i" h ps h1] splits_left_at [of i ms lo hi] by (simp add: splits_left_def)
next
  case (3 E lo hi nf prot i any ms h e y m h1)
  have w: "mprotect_whole E nf prot (ms ! i) h = (None, m, h1)" using 3 by simp
  note geo = mprotect_whole_geo(1,2) [OF w]
  have "splits_left lo hi [m] = splits_left lo hi [ms ! i]"
    using geo by (simp add: splits_left_def mp_overlap_def need_split_def sub_lo_def sub_hi_def m_end_of_def)
  then have "splits_left lo hi (ms[i := m]) = splits_left lo hi ms"
    using 3(1) splits_left_at [of i ms lo hi] splits_left_at [of i "ms[i := m]" lo hi] by simp
  then show ?case using 3(1) by simp
qed

declare mprotect_loop.simps [simp del]

definition do_mprotect :: "mm_env \<Rightarrow> 'h vm \<Rightarrow> int \<times> 'h vm" where
  "do_mprotect E s =
     (let addr = v_reg s 1; len = v_reg s 2; prot = ucast (v_reg s 3) :: u32 in
      case mprotect_loop E addr (addr + len) (prot_flags prot) prot 0 False (v_maps s) (v_host s) of
        (Inl e, ms, h) \<Rightarrow> (e, s\<lparr>v_maps := ms, v_host := h\<rparr>)
      | (Inr any, ms, h) \<Rightarrow> (if any then 0 else - ENOMEM, flush_tlb (s\<lparr>v_maps := ms, v_host := h\<rparr>)))"

end
