(* ===== verification/Posix_Memory_Props.thy ===== *)
theory Posix_Memory_Props
  imports Posix_Memory
begin

text \<open>
  What the memory system calls do to the address space: splitting and punching keep the ownership of
  host pages and the bytes outside the range, mmap adds exactly its range, munmap takes one mapping
  out, and mprotect changes permissions only.
\<close>

subsection \<open>Pieces\<close>

definition within :: "memmap \<Rightarrow> u64 \<Rightarrow> u64 \<Rightarrow> bool" where
  "within m lo hi \<longleftrightarrow> m_lo m \<le> unat lo \<and> unat lo \<le> unat hi \<and> unat hi \<le> m_hi m \<and> m_hi m < 2 ^ 64"

lemma piece_geo:
  assumes "within m lo hi"
  shows "m_lo (piece m lo hi fl p) = unat lo" "m_hi (piece m lo hi fl p) = unat hi"
proof -
  have "lo \<le> hi" using assms by (simp add: within_def word_le_nat_alt)
  then show "m_lo (piece m lo hi fl p) = unat lo" "m_hi (piece m lo hi fl p) = unat hi"
    by (simp_all add: m_lo_def m_hi_def unat_sub word_le_nat_alt)
qed

lemma piece_data:
  assumes "within m lo hi"
  shows "hp_off (m_data (piece m lo hi fl p)) = hp_off (m_data m) + (unat lo - m_lo m)"
  using assms by (simp add: within_def m_off_def unat_sub m_lo_def word_le_nat_alt)

lemma piece_off:
  assumes w: "within m lo hi" and c: "covers (piece m lo hi fl p) a n"
  shows "m_off (piece m lo hi fl p) a = m_off m a"
proof -
  have a: "unat lo \<le> unat a" using c piece_geo(1) [OF w] by (simp add: covers_def)
  have "m_lo m \<le> unat lo" using w by (simp add: within_def)
  then have "unat (lo - m_paddr m) + unat (a - lo) = unat (a - m_paddr m)"
    using a by (simp add: unat_sub word_le_nat_alt m_lo_def)
  then show ?thesis by (simp add: m_off_def)
qed

lemma piece_covers:
  assumes "within m lo hi"
  shows "covers (piece m lo hi fl p) a 1 \<longleftrightarrow> covers m a 1 \<and> unat lo \<le> unat a \<and> unat a < unat hi"
  using assms piece_geo [OF assms, of fl p] by (auto simp: covers_def within_def)

lemma piece_inside:
  assumes w: "within m lo hi" and i: "inside m q n"
  shows "inside (piece m lo hi fl p) q n"
proof -
  have sz: "unat (hi - lo) = unat hi - unat lo" using w by (simp add: within_def unat_sub word_le_nat_alt)
  have "m_hi m = m_lo m + unat (m_size m)" by (simp add: m_lo_def m_hi_def)
  then show ?thesis
    using i w piece_data [OF w, of fl p] sz unfolding inside_def within_def by (simp add: m_off_def) linarith
qed

lemma piece_pages: "within m lo hi \<Longrightarrow> m_pages (piece m lo hi fl p) q \<Longrightarrow> m_pages m q"
  using inside_pages [OF piece_inside [OF _ inside_self]] by (simp add: m_pages_def)

subsection \<open>Keeping the host consistent\<close>

lemma hval_cow [simp]:
  "hval (cow_copy i h) = hval h" "hval (cow_reset i h) = hval h" "hval (host_munmap p n h) = hval h"
  "hpages (cow_copy i h) = hpages h" "os_mprotect_ok (cow_copy i h) = os_mprotect_ok h"
  "os_mprotect_ok (cow_reset i h) = os_mprotect_ok h" "os_mprotect_ok (host_munmap p n h) = os_mprotect_ok h"
  by (auto simp: cow_copy_def cow_reset_def host_munmap_def Let_def split: option.split)

lemma destroy_simps [simp]:
  "hval (memmap_destroy m h) = hval h" "os_mprotect_ok (memmap_destroy m h) = os_mprotect_ok h"
  by (auto simp: memmap_destroy_def DataDeleter_def split: option.split)

lemma destroy_pages: "hpages (memmap_destroy m h) q \<noteq> None \<Longrightarrow> hpages (memmap_destroy m h) q = hpages h q"
  by (auto simp: memmap_destroy_def DataDeleter_def cow_reset_def host_munmap_def Let_def split: option.splits if_splits)

lemma mem_ok_destroy:
  assumes "mem_ok st h (add_mset m M)"
  shows "mem_ok st (memmap_destroy m h) M"
proof -
  have inv: "own_inv (memmap_destroy m h) M" using assms by (simp add: mem_ok_def own_inv_memmap_destroy)
  have "prot_ok (memmap_destroy m h) x" if "st" "x \<in># M" for x
    using that assms own_inv_live [OF inv that(2)] destroy_pages [of m h] unfolding prot_ok_def mem_ok_def
    by (metis insert_iff set_mset_add_mset_insert)
  then show ?thesis using inv assms by (simp add: mem_ok_def)
qed

lemma mem_ok_destroy_all:
  "mem_ok st h (mset ds + M) \<Longrightarrow> mem_ok st (fold memmap_destroy ds h) M \<and> hval (fold memmap_destroy ds h) = hval h"
proof (induction ds arbitrary: h)
  case (Cons d ds)
  then show ?case using mem_ok_destroy [of st h d "mset ds + M"] by simp
qed simp

lemma prot_ok_cong: "\<lbrakk>prot_ok h m; hpages h' = hpages h; \<And>q. m_pages m' q \<Longrightarrow> m_pages m q; bit (m_flags m') PF_W \<Longrightarrow> bit (m_flags m) PF_W\<rbrakk> \<Longrightarrow> prot_ok h' m'"
  unfolding prot_ok_def by metis

lemma mem_ok_share:
  assumes ok: "mem_ok st h (add_mset m M)" and sh: "share_data m h = (m1, h1)"
  shows "mem_ok st h1 (add_mset m1 M)" "\<exists>i. m_cow m1 = Some i"
proof -
  note g = share_data_geo [OF sh]
  have "own_inv h (add_mset m M)" using ok by (simp add: mem_ok_def)
  note s = own_inv_share [OF this sh]
  have "prot_ok h1 x" if "prot_ok h x" for x using that g by (simp add: prot_ok_def)
  moreover have "prot_ok h1 m1" if "prot_ok h m" using that g by (simp add: prot_ok_def m_pages_def)
  ultimately show "mem_ok st h1 (add_mset m1 M)" using s(1) ok g(9) by (simp add: mem_ok_def)
  show "\<exists>i. m_cow m1 = Some i" by (rule s(2))
qed

lemma mem_ok_piece:
  assumes ok: "mem_ok st h M" and m: "m \<in># M" "m_cow m = Some i" and w: "within m lo hi" and fl: "st \<Longrightarrow> bit fl PF_W \<Longrightarrow> bit (m_flags m) PF_W"
  shows "mem_ok st (cow_ref m h) (add_mset (piece m lo hi fl p) M)"
proof -
  have inv: "own_inv h M" using ok by (simp add: mem_ok_def)
  have "cow_map_ok h m" using inv m(1) by (simp add: own_inv_def)
  then obtain cb where cb: "hcow h i = Some cb" "inside m (cb_ptr cb) (cb_size cb)"
    using m(2) by (auto simp: cow_map_ok_def)
  have "own_inv (cow_copy i h) (add_mset (piece m lo hi fl p) M)"
    by (rule own_inv_cow_copy [OF inv cb(1)]) (use m(2) piece_inside [OF w cb(2)] in \<open>simp_all add: managed_def\<close>)
  moreover have "prot_ok (cow_copy i h) x" if "prot_ok h x" for x using that by (simp add: prot_ok_def)
  moreover have "prot_ok (cow_copy i h) (piece m lo hi fl p)" if st
    by (rule prot_ok_cong [of h m]) (use that ok m piece_pages [OF w] fl in \<open>auto simp: mem_ok_def\<close>)
  ultimately show ?thesis using ok m(2) by (simp add: mem_ok_def cow_ref_def)
qed

subsection \<open>Punching a hole\<close>

text \<open>Where the byte at a guest address is found among a list of mappings.\<close>

definition at_byte :: "memmap list \<Rightarrow> u64 \<Rightarrow> hptr \<Rightarrow> bool" where
  "at_byte ms a x \<longleftrightarrow> (\<exists>m \<in> set ms. covers m a 1 \<and> m_off m a = x)"

definition in_range :: "u64 \<Rightarrow> u64 \<Rightarrow> u64 \<Rightarrow> bool" where
  "in_range lo hi a \<longleftrightarrow> unat lo \<le> unat a \<and> unat a < unat hi"

lemma at_byte_resolve: "as_ok ms \<Longrightarrow> resolve ms a 1 = Some x \<longleftrightarrow> at_byte ms a x"
  using resolve_covers [of ms 1 _ a] by (auto simp: at_byte_def elim!: resolve_Some)

lemma at_byte_append [simp]: "at_byte (xs @ ys) a x \<longleftrightarrow> at_byte xs a x \<or> at_byte ys a x"
  by (auto simp: at_byte_def)

lemma resolve_eqI:
  assumes "as_ok ms" "as_ok ms'" "\<And>x. at_byte ms' a x \<longleftrightarrow> at_byte ms a x"
  shows "resolve ms' a 1 = resolve ms a 1"
  using assms at_byte_resolve by (metis option.exhaust)

definition punched :: "u64 \<Rightarrow> u64 \<Rightarrow> memmap list \<Rightarrow> memmap list \<Rightarrow> bool" where
  "punched lo hi ms ps \<longleftrightarrow> as_ok ps
     \<and> (\<forall>x \<in> set ps. (unat hi \<le> m_lo x \<or> m_hi x \<le> unat lo) \<and> (\<exists>m \<in> set ms. m_lo m \<le> m_lo x \<and> m_hi x \<le> m_hi m))
     \<and> (\<forall>a x. at_byte ps a x \<longleftrightarrow> at_byte ms a x \<and> \<not> in_range lo hi a)"

lemma punch_one_apart:
  assumes "m_lo m < m_hi m" "m_hi m < 2 ^ 64" "unat hi \<le> m_lo m \<or> m_hi m \<le> unat lo"
  shows "punched lo hi [m] [m]"
  using assms by (auto simp: punched_def as_ok_def at_byte_def in_range_def covers_def)

lemma punch_one_pieces:
  assumes g: "m_hi m < 2 ^ 64" and r: "m_lo m < unat hi" "unat lo < m_hi m" "unat lo < unat hi"
  shows "punched lo hi [m]
     ((if m_paddr m < lo then [piece m (m_paddr m) lo fl p] else []) @ (if hi < m_end_of m then [piece m hi (m_end_of m) fl p] else []))"
    "m_paddr m < lo \<Longrightarrow> within m (m_paddr m) lo" "hi < m_end_of m \<Longrightarrow> within m hi (m_end_of m)"
proof -
  have e: "unat (m_end_of m) = m_hi m" using g by (simp add: m_end_of_def m_end)
  show wl: "within m (m_paddr m) lo" if "m_paddr m < lo" using that r g by (simp add: within_def m_lo_def word_less_nat_alt)
  show wr: "within m hi (m_end_of m)" if "hi < m_end_of m" using that r g e by (simp add: within_def word_less_nat_alt)
  show "punched lo hi [m]
     ((if m_paddr m < lo then [piece m (m_paddr m) lo fl p] else []) @ (if hi < m_end_of m then [piece m hi (m_end_of m) fl p] else []))"
    using r g e piece_geo [OF wl, of fl p] piece_geo [OF wr, of fl p] piece_covers [OF wl, of fl p] piece_covers [OF wr, of fl p]
      piece_off [OF wl, of fl p _ 1] piece_off [OF wr, of fl p _ 1]
    by (auto simp: punched_def as_ok_def at_byte_def in_range_def word_less_nat_alt m_lo_def [symmetric] not_less)
       (auto simp: covers_def)
qed

lemma cow_ref_hval [simp]: "hval (cow_ref m h) = hval h"
  by (simp add: cow_ref_def split: option.split)

lemma punch_one_spec:
  assumes ok: "mem_ok st h (add_mset m M)" and g: "m_lo m < m_hi m" "m_hi m < 2 ^ 64" and r: "unat lo < unat hi"
    and p: "punch_one lo hi m h = (ps, ds, h')"
  shows "mem_ok st h' (mset ps + mset ds + M)" "hval h' = hval h" "punched lo hi [m] ps"
proof -
  have e: "unat (m_paddr m + m_size m) = m_hi m" using g by (simp add: m_end)
  have c: "(hi \<le> m_paddr m \<or> m_paddr m + m_size m \<le> lo) \<longleftrightarrow> (unat hi \<le> m_lo m \<or> m_hi m \<le> unat lo)"
    using e by (simp add: word_le_nat_alt m_lo_def)
  have "mem_ok st h' (mset ps + mset ds + M) \<and> hval h' = hval h \<and> punched lo hi [m] ps"
  proof (cases "hi \<le> m_paddr m \<or> m_paddr m + m_size m \<le> lo")
    case True
    then show ?thesis using p ok punch_one_apart [OF g] c by (auto simp: punch_one_def Let_def)
  next
    case False
    obtain m1 h1 where sh: "share_data m h = (m1, h1)" by fastforce
    note sg = share_data_geo [OF sh]
    note so = mem_ok_share [OF ok sh]
    have geo: "m_lo m1 = m_lo m" "m_hi m1 = m_hi m" "m_end_of m1 = m_paddr m + m_size m"
      using sg by (simp_all add: m_lo_def m_hi_def m_end_of_def)
    have rr: "m_hi m1 < 2 ^ 64" "m_lo m1 < unat hi" "unat lo < m_hi m1" using False c g(2) by (simp_all add: not_le geo)
    note pc' = punch_one_pieces [OF rr r]
    obtain i where i: "m_cow m1 = Some i" using so(2) by auto
    define h2 where "h2 = (if m_paddr m1 < lo then cow_ref m1 h1 else h1)"
    define ls where "ls = (if m_paddr m1 < lo then [piece m1 (m_paddr m1) lo (m_flags m1) (m_path m1)] else [])"
    define rs where "rs = (if hi < m_end_of m1 then [piece m1 hi (m_end_of m1) (m_flags m1) (m_path m1)] else [])"
    define h3 where "h3 = (if hi < m_end_of m1 then cow_ref m1 h2 else h2)"
    have out: "ps = ls @ rs" "ds = [m1]" "h' = h3"
      using p False sh by (auto simp: punch_one_def Let_def ls_def rs_def h2_def h3_def geo(3) split: if_splits)
    have 2: "mem_ok st h2 (mset ls + add_mset m1 M)"
      using so(1) mem_ok_piece [OF so(1) _ i pc'(2), of "m_flags m1"] by (simp add: h2_def ls_def add_mset_commute)
    have "mem_ok st h3 (mset rs + (mset ls + add_mset m1 M))"
      using 2 mem_ok_piece [OF 2 _ i pc'(3), of "m_flags m1"] by (simp add: h3_def rs_def add_mset_commute)
    then have "mem_ok st h' (mset ps + mset ds + M)" by (simp add: out ac_simps)
    moreover have "hval h' = hval h" using sg(7) by (simp add: out h3_def h2_def)
    moreover have "at_byte [m1] = at_byte [m]"
      using sg by (simp add: fun_eq_iff at_byte_def covers_def geo(1,2) m_off_def)
    then have "punched lo hi [m] ps"
      using pc'(1) unfolding out ls_def rs_def punched_def by (simp add: geo(1,2))
    ultimately show ?thesis by blast
  qed
  then show "mem_ok st h' (mset ps + mset ds + M)" "hval h' = hval h" "punched lo hi [m] ps" by blast+
qed

lemma punched_append:
  assumes "punched lo hi xs ps" "punched lo hi ys qs" "as_ok (xs @ ys)"
  shows "punched lo hi (xs @ ys) (ps @ qs)"
proof -
  have "m_hi p \<le> m_lo q" if pq: "p \<in> set ps" "q \<in> set qs" for p q
  proof -
    obtain x y where "x \<in> set xs" "m_hi p \<le> m_hi x" "y \<in> set ys" "m_lo y \<le> m_lo q"
      using assms(1,2) pq unfolding punched_def by blast
    moreover have "m_hi x \<le> m_lo y" using assms(3) calculation by (simp add: as_ok_append)
    ultimately show ?thesis by simp
  qed
  then have "as_ok (ps @ qs)" using assms(1,2) by (simp add: as_ok_append punched_def)
  then show ?thesis using assms(1,2) unfolding punched_def by (auto simp: Ball_def)
qed

lemma punch_list_spec:
  assumes "mem_ok st h (mset ms + M)" "as_ok ms" "unat lo < unat hi" "punch_list lo hi ms h = (ps, ds, h')"
  shows "mem_ok st h' (mset ps + mset ds + M) \<and> hval h' = hval h \<and> punched lo hi ms ps"
  using assms
proof (induction ms arbitrary: h M ps ds h')
  case Nil
  then show ?case by (simp add: punched_def at_byte_def as_ok_def)
next
  case (Cons m ms)
  obtain ps1 ds1 h1 where 1: "punch_one lo hi m h = (ps1, ds1, h1)" by (metis prod_cases3)
  obtain ps2 ds2 h2 where 2: "punch_list lo hi ms h1 = (ps2, ds2, h2)" by (metis prod_cases3)
  have out: "ps = ps1 @ ps2" "ds = ds1 @ ds2" "h' = h2" using Cons.prems(4) 1 2 by auto
  have ok: "mem_ok st h (add_mset m (mset ms + M))" using Cons.prems(1) by simp
  have g: "m_lo m < m_hi m" "m_hi m < 2 ^ 64" "as_ok ms" using Cons.prems(2) by (simp_all add: as_ok_Cons)
  note o = punch_one_spec [OF ok g(1,2) Cons.prems(3) 1]
  have "mem_ok st h1 (mset ms + (mset ps1 + mset ds1 + M))" using o(1) by (simp add: ac_simps)
  note ih = Cons.IH [OF this g(3) Cons.prems(3) 2]
  have "punched lo hi ([m] @ ms) (ps1 @ ps2)"
    by (rule punched_append [OF o(3)]) (use ih Cons.prems(2) in auto)
  then show ?case using ih o(2) by (simp add: out ac_simps)
qed

lemma punch_hole_spec:
  assumes "mem_ok st h (mset ms + M)" "as_ok ms" "unat lo < unat hi" "punch_hole ms lo hi h = (ps, h')"
  shows "mem_ok st h' (mset ps + M)" "hval h' = hval h" "punched lo hi ms ps"
proof -
  obtain ds h1 where p: "punch_list lo hi ms h = (ps, ds, h1)" "h' = fold memmap_destroy ds h1"
    using assms(4) by (auto simp: punch_hole_def Let_def split: prod.splits)
  note s = punch_list_spec [OF assms(1-3) p(1)]
  then have "mem_ok st h1 (mset ds + (mset ps + M))" by (simp add: ac_simps)
  then show "mem_ok st h' (mset ps + M)" "hval h' = hval h" "punched lo hi ms ps"
    using mem_ok_destroy_all [of st h1 ds "mset ps + M"] s p(2) by auto
qed

end
