(* ===== verification/Posix_Mmap.thy ===== *)
theory Posix_Mmap
  imports Posix_Memory_Props
begin

text \<open>
  The effect of mmap, munmap and mprotect on the machine: the invariant, the guest's view of its
  memory, and the bytes of the other address spaces.
\<close>

subsection \<open>Page rounding\<close>

lemma page_up_nat:
  assumes "unat x + 4095 < 2 ^ 64"
  shows "unat x \<le> unat (page_up x)" "unat (page_up x) \<le> unat x + 4095"
proof -
  let ?y = "x + 0xFFF"
  have "?y AND NOT (mask 12) = push_bit 12 (drop_bit 12 ?y)"
    by (rule bit_word_eqI) (auto simp: bit_simps)
  moreover have "(0xFFF :: u64) = mask 12" by (simp add: mask_eq_exp_minus_1)
  ultimately have p: "page_up x = ?y - take_bit 12 ?y"
    using bits_ident [of 12 ?y] unfolding page_up_def by (simp add: eq_diff_eq)
  have y: "unat ?y = unat x + 4095" using assms word_add_nat [of x "0xFFF"] by simp
  have "uint (take_bit 12 ?y) = take_bit 12 (uint ?y)" by (rule unsigned_take_bit_eq)
  then have t: "uint (take_bit 12 ?y) = uint ?y mod 4096" by (simp add: take_bit_eq_mod)
  then have t12: "unat (take_bit 12 ?y) < 4096" by (simp flip: nat_uint_eq)
  have le: "take_bit 12 ?y \<le> ?y" using t by (simp add: word_le_def zmod_le_nonneg_dividend)
  then have "unat (page_up x) = unat ?y - unat (take_bit 12 ?y)" by (simp add: p unat_sub)
  then show "unat x \<le> unat (page_up x)" "unat (page_up x) \<le> unat x + 4095" using y t12 by simp_all
qed

subsection \<open>A fresh block\<close>

lemma prot_flags_w: "bit (prot_flags prot) PF_W = bit prot 1"
  by (simp add: prot_flags_def bit_or_iff)

lemma mem_ok_mmap:
  assumes ok: "mem_ok st h M" and mm: "host_mmap h (unat len) prot cont = (Some p, h')" and pr: "st \<Longrightarrow> bit prot 0 \<or> bit prot 1"
  shows "mem_ok st h' (add_mset (new_map p len prot a path) M)" "old_same h h'" "\<And>i. hval h' (hadd p i) = cont i"
proof -
  let ?m = "new_map p len prot a path"
  note f = host_mmap_fresh(2) [OF mm refl]
  have inv: "own_inv h M" using ok by (simp add: mem_ok_def)
  have own: "own_inv h' (add_mset ?m M)"
    by (rule own_inv_mmap [OF inv]) (use mm in \<open>simp_all add: new_map_def\<close>)
  have "prot_ok h' x" if "x \<in># M" "prot_ok h x" for x
  proof -
    have "\<not> in_pages (Ptr (hblk h) 0) (unat len) q" if "m_pages x q" for q
      using fresh_block_unused(3) [OF inv, of q x] \<open>x \<in># M\<close> that by (auto simp: in_pages_def)
    then show ?thesis using that(2) f by (simp add: prot_ok_def)
  qed
  moreover have "prot_ok h' ?m" if st
    using pr [OF that] f by (auto simp: prot_ok_def m_pages_def new_map_def page_prot_def prot_flags_w simp del: One_nat_def)
  ultimately show "mem_ok st h' (add_mset ?m M)" using own ok f by (simp add: mem_ok_def)
  show "old_same h h'" "\<And>i. hval h' (hadd p i) = cont i" using f by (simp_all add: old_same_def)
qed

subsection \<open>Adding a mapping to the view\<close>

lemma insert_view:
  assumes ok: "as_ok ms" and g: "m_lo m < m_hi m" "m_hi m < 2 ^ 64" "disjoint_from m ms"
  shows "as_ok (insert_map m ms)"
    "gbyte h (insert_map m ms) a = (if covers m a 1 then Some (hval h (m_off m a)) else gbyte h ms a)"
proof -
  show ok': "as_ok (insert_map m ms)" by (rule as_ok_insert_map [OF ok g])
  show "gbyte h (insert_map m ms) a = (if covers m a 1 then Some (hval h (m_off m a)) else gbyte h ms a)"
  proof (cases "covers m a 1")
    case True
    then show ?thesis using resolve_covers [OF ok', of 1 m a] by (simp add: gbyte_def)
  next
    case False
    have "resolve (insert_map m ms) a 1 = resolve ms a 1"
      by (rule resolve_eqI [OF ok ok']) (use False in \<open>auto simp: at_byte_def\<close>)
    then show ?thesis using False by (simp add: gbyte_def)
  qed
qed

lemma punched_view:
  assumes "punched lo hi ms ps" "as_ok ms" "hval h' = hval h"
  shows "gbyte h' ps a = (if in_range lo hi a then None else gbyte h ms a)"
proof (cases "in_range lo hi a")
  case True
  have "resolve ps a 1 = None"
    using True assms(1) at_byte_resolve [of ps a] by (cases "resolve ps a 1") (auto simp: punched_def)
  then show ?thesis using True by (simp add: gbyte_def)
next
  case False
  have "resolve ps a 1 = resolve ms a 1"
    by (rule resolve_eqI [OF assms(2)]) (use False assms(1) in \<open>auto simp: punched_def\<close>)
  then show ?thesis using False assms(3) by (simp add: gbyte_def)
qed

subsection \<open>mmap\<close>

text \<open>The address at which a block of the given length goes, and that it fits there.\<close>

definition block_addr :: "'h vm \<Rightarrow> u64 option \<Rightarrow> u64" where
  "block_addr s at = (case at of Some addr \<Rightarrow> addr | None \<Rightarrow> page_up (m_paddr (last (v_maps s)) + m_size (last (v_maps s))))"

definition block_fits :: "'h vm \<Rightarrow> u64 option \<Rightarrow> u64 \<Rightarrow> bool" where
  "block_fits s at len = (case at of Some addr \<Rightarrow> unat addr + unat len < 2 ^ 64
     | None \<Rightarrow> v_maps s \<noteq> [] \<and> m_hi (last (v_maps s)) + 4095 + unat len < 2 ^ 64)"

text \<open>The range that an mmap call asks for fits below 2^64.\<close>

definition mmap_fits :: "'h vm \<Rightarrow> bool" where
  "mmap_fits s \<longleftrightarrow> block_fits s (if bit (ucast (v_reg s 4) :: u32) MAP_FIXED then Some (v_reg s 1) else None) (page_up (v_reg s 2))"

definition overlay :: "u64 \<Rightarrow> u64 \<Rightarrow> (nat \<Rightarrow> u8) \<Rightarrow> (u64 \<Rightarrow> u8 option) \<Rightarrow> u64 \<Rightarrow> u8 option" where
  "overlay addr len cont g a =
     (if unat addr \<le> unat a \<and> unat a < unat addr + unat len then Some (cont (unat a - unat addr)) else g a)"

lemma new_map_geo:
  "m_lo (new_map p len prot a path) = unat a" "m_hi (new_map p len prot a path) = unat a + unat len"
  "m_data (new_map p len prot a path) = p" "m_paddr (new_map p len prot a path) = a"
  by (simp_all add: new_map_def m_lo_def m_hi_def)

lemma new_map_byte:
  assumes "covers (new_map p len prot addr path) a 1" "\<And>i. hval h (hadd p i) = cont i"
  shows "Some (hval h (m_off (new_map p len prot addr path) a)) = overlay addr len cont g a"
  using assms by (simp add: covers_def new_map_geo m_off_def overlay_def unat_sub word_le_nat_alt)

text \<open>Placing the block that the host returned: st, the other address spaces and the old view are fixed.\<close>

definition placed :: "bool \<Rightarrow> memmap multiset \<Rightarrow> 'h vm \<Rightarrow> u64 \<Rightarrow> (nat \<Rightarrow> u8) \<Rightarrow> u64 \<Rightarrow> 'h vm \<Rightarrow> bool" where
  "placed st rest s len cont addr s' \<longleftrightarrow> vm_ok st rest s' \<and> mem_at s' = overlay addr len cont (mem_at s)
     \<and> hval (v_host s') = hval (v_host s) \<and> v_reg s' = v_reg s"

lemma insert_placed:
  assumes mo: "mem_ok st h (add_mset (new_map p len prot addr path) (mset ms + rest))"
    and cont: "\<And>i. hval h (hadd p i) = cont i" and as: "as_ok ms" and len: "0 < unat len" "unat addr + unat len < 2 ^ 64"
    and dis: "disjoint_from (new_map p len prot addr path) ms"
    and out: "\<And>a. \<not> covers (new_map p len prot addr path) a 1 \<Longrightarrow> gbyte h ms a = g a"
  shows "vm_ok st rest (flush_tlb (s\<lparr>v_host := h, v_maps := insert_map (new_map p len prot addr path) ms\<rparr>))"
    "gbyte h (insert_map (new_map p len prot addr path) ms) = overlay addr len cont g"
proof -
  let ?m = "new_map p len prot addr path"
  have g: "m_lo ?m < m_hi ?m" "m_hi ?m < 2 ^ 64" using len by (simp_all add: new_map_geo)
  note v = insert_view(1) [OF as g dis] insert_view(2) [OF as g dis, of h]
  show "vm_ok st rest (flush_tlb (s\<lparr>v_host := h, v_maps := insert_map ?m ms\<rparr>))"
    using v(1) mo by (simp add: vm_ok_def)
  have "overlay addr len cont g a = g a" if "\<not> covers ?m a 1" for a
    using that by (auto simp: overlay_def covers_def new_map_geo)
  then show "gbyte h (insert_map ?m ms) = overlay addr len cont g"
    using v(2) new_map_byte [OF _ cont, of len prot addr path _ g] out by (auto simp: fun_eq_iff)
qed

lemma place_fixed_placed:
  assumes ok: "as_ok (v_maps s)" and mo: "mem_ok st (v_host s) (add_mset (new_map p len prot addr path) (mset (v_maps s) + rest))"
    and cont: "\<And>i. hval (v_host s) (hadd p i) = cont i" and len: "0 < unat len" "unat addr + unat len < 2 ^ 64"
    and pl: "place_fixed p len prot addr path s = (r, s')"
  shows "placed st rest s len cont addr s' \<and> r = sint addr"
proof -
  let ?m = "new_map p len prot addr path"
  obtain ps h where ph: "punch_hole (v_maps s) addr (addr + len) (v_host s) = (ps, h)" by fastforce
  have e: "unat (addr + len) = unat addr + unat len" using len by (simp add: word_add_nat)
  have "mem_ok st (v_host s) (mset (v_maps s) + add_mset ?m rest)" using mo by simp
  note sp = punch_hole_spec [OF this ok _ ph, unfolded e]
  have lt: "unat addr < unat addr + unat len" using len by simp
  note sp' = sp [OF lt]
  have dis: "disjoint_from ?m ps" "as_ok ps"
    using sp'(3) by (auto simp: punched_def disjoint_from_def new_map_geo e)
  have out: "gbyte h ps a = mem_at s a" if "\<not> covers ?m a 1" for a
    using that punched_view [OF sp'(3) ok sp'(2)] by (auto simp: covers_def new_map_geo in_range_def e)
  have "mem_ok st h (add_mset ?m (mset ps + rest))" using sp'(1) by simp
  note ip = insert_placed [OF this _ dis(2) len dis(1) out, of cont]
  have "s' = flush_tlb (s\<lparr>v_host := h, v_maps := insert_map ?m ps\<rparr>)" "r = sint addr"
    using pl ph by (auto simp: place_fixed_def addmem_def flush_tlb_def)
  then show ?thesis using ip cont sp'(2) by (simp add: placed_def)
qed

lemma place_tail_placed:
  assumes ok: "as_ok (v_maps s)" "v_maps s \<noteq> []" and mo: "\<And>addr. mem_ok st (v_host s) (add_mset (new_map p len prot addr path) (mset (v_maps s) + rest))"
    and cont: "\<And>i. hval (v_host s) (hadd p i) = cont i" and len: "0 < unat len" "m_hi (last (v_maps s)) + 4095 + unat len < 2 ^ 64"
    and pl: "place_tail p len prot path s = Some (r, s')"
  shows "placed st rest s len cont (page_up (m_paddr (last (v_maps s)) + m_size (last (v_maps s)))) s'
    \<and> r = sint (page_up (m_paddr (last (v_maps s)) + m_size (last (v_maps s))))"
proof -
  let ?b = "last (v_maps s)"
  let ?a = "page_up (m_paddr ?b + m_size ?b)"
  let ?m = "new_map p len prot ?a path"
  have e: "unat (m_paddr ?b + m_size ?b) = m_hi ?b" using len by (simp add: m_end)
  note pu = page_up_nat [of "m_paddr ?b + m_size ?b", unfolded e]
  have a: "m_hi ?b \<le> unat ?a" "unat ?a + unat len < 2 ^ 64" using pu len by simp_all
  have "m_hi x \<le> m_hi ?b" if "x \<in> set (v_maps s)" for x
  proof -
    obtain xs where xs: "v_maps s = xs @ [?b]" using ok(2) by (metis append_butlast_last_id)
    then have "m_lo ?b < m_hi ?b" "\<forall>x \<in> set xs. m_hi x \<le> m_lo ?b"
      using ok(1) by (metis as_ok_append as_ok_Cons list.set_intros(1))+
    then show ?thesis using that xs by (metis Un_iff append_Nil2 dual_order.strict_implies_order le_trans order_refl set_ConsD set_append empty_iff empty_set)
  qed
  then have dis: "disjoint_from ?m (v_maps s)" using a(1) by (force simp: disjoint_from_def new_map_geo)
  note ip = insert_placed [OF mo cont ok(1) len(1) a(2) dis refl]
  have "s' = flush_tlb (s\<lparr>v_host := v_host s, v_maps := insert_map ?m (v_maps s)\<rparr>)" "r = sint ?a"
    using pl ok(2) by (auto simp: place_tail_def Let_def)
  then show ?thesis using ip(1) [of s] ip(2) by (simp add: placed_def)
qed

text \<open>
  The outcome of mmap: an error that leaves the machine's memory and registers alone, or a new range
  with the bytes of the file (zeros for an anonymous mapping), and no other change of the view.
\<close>

definition mmap_at :: "'h vm \<Rightarrow> u64" where
  "mmap_at s = block_addr s (if bit (ucast (v_reg s 4) :: u32) MAP_FIXED then Some (v_reg s 1) else None)"

definition mmap_post :: "mm_env \<Rightarrow> 'h vm \<Rightarrow> int \<Rightarrow> 'h vm \<Rightarrow> bool" where
  "mmap_post E s r s' \<longleftrightarrow> v_reg s' = v_reg s \<and>
     (mem_at s' = mem_at s \<and> (r \<in> {- EINVAL, - EBADF} \<or> r = - mm_errno E (os_calls (v_host s)))
      \<or> (\<exists>cont. (bit (ucast (v_reg s 4) :: u32) MAP_ANONYMOUS \<longrightarrow> cont = (\<lambda>_. 0)) \<and> r = sint (mmap_at s)
           \<and> mem_at s' = overlay (mmap_at s) (page_up (v_reg s 2)) cont (mem_at s)))"

lemma fresh_view:
  assumes ok: "vm_ok st rest s" and old: "old_same (v_host s) h"
  shows "gbyte h (v_maps s) = mem_at s" "isolated rest (v_host s) h"
proof -
  have "same_view (v_host s) (v_maps s) h (v_maps s)"
    using map_block_old [of "v_host s" "mset (v_maps s) + rest"] vm_okD(3) [OF ok] old
    by (auto simp: same_view_def list_all2_same same_map_def old_same_def mem_ok_def)
  then show "gbyte h (v_maps s) = mem_at s" using same_view_gbyte vm_okD(1) [OF ok] by (auto simp: fun_eq_iff)
  show "isolated rest (v_host s) h" by (rule old_same_isolated [OF old vm_okD(3) [OF ok]])
qed

lemma map_block_fail:
  assumes ok: "vm_ok st rest s" and mm: "host_mmap (v_host s) n prot cont = (None, h)"
  shows "step_ok st rest s (s\<lparr>v_host := h\<rparr>) \<and> gbyte h (v_maps s) = mem_at s"
proof -
  have h: "h = (v_host s)\<lparr>os_calls := Suc (os_calls (v_host s))\<rparr>" using host_mmap_fresh(1) [OF mm] by simp
  then show ?thesis using ok by (simp add: step_ok_def vm_ok_def isolated_def fun_eq_iff gbyte_def)
qed

lemma map_block_runs:
  assumes ok: "vm_ok st rest s" and len: "0 < unat len" and pr: "st \<Longrightarrow> bit prot 0 \<or> bit prot 1" and fit: "block_fits s at len"
  shows "runs True (map_block E len prot at path cont s) (\<lambda>(r, s'). step_ok st rest s s' \<and> v_reg s' = v_reg s
     \<and> (r = - mm_errno E (os_calls (v_host s)) \<and> mem_at s' = mem_at s
        \<or> r = sint (block_addr s at) \<and> mem_at s' = overlay (block_addr s at) len cont (mem_at s)))"
proof (cases "host_mmap (v_host s) (unat len) prot cont")
  case (Pair q h)
  let ?s = "s\<lparr>v_host := h\<rparr>"
  show ?thesis
  proof (cases q)
    case None
    then show ?thesis using Pair map_block_fail [OF ok] by (simp add: map_block_def)
  next
    case (Some p)
    note mk = mem_ok_mmap [OF vm_okD(3) [OF ok] Pair [unfolded Some] pr]
    note fv = fresh_view [OF ok mk(2)]
    have as: "as_ok (v_maps ?s)" using vm_okD(1) [OF ok] by simp
    have fin: "step_ok st rest s s' \<and> v_reg s' = v_reg s \<and> mem_at s' = overlay addr len cont (mem_at s)"
      if "placed st rest ?s len cont addr s'" for addr s'
      using that fv by (auto simp: placed_def step_ok_def isolated_def)
    show ?thesis
    proof (cases at)
      case at: (Some addr)
      obtain r s' where pl: "place_fixed p len prot addr path ?s = (r, s')" by fastforce
      have "placed st rest ?s len cont addr s' \<and> r = sint addr"
        by (rule place_fixed_placed [OF as _ _ len _ pl]) (use mk fit at in \<open>simp_all add: block_fits_def\<close>)
      then show ?thesis using fin [of addr s'] Pair Some at pl by (simp add: map_block_def block_addr_def)
    next
      case at: None
      have ft: "v_maps ?s \<noteq> []" "m_hi (last (v_maps ?s)) + 4095 + unat len < 2 ^ 64"
        using fit at by (simp_all add: block_fits_def)
      obtain r s' where pl: "place_tail p len prot path ?s = Some (r, s')" using ft(1) by (auto simp: place_tail_def Let_def)
      have "placed st rest ?s len cont (block_addr s at) s' \<and> r = sint (block_addr s at)"
        using place_tail_placed [OF as ft(1) _ _ len ft(2) pl, of st rest cont] mk at by (simp add: block_addr_def)
      then show ?thesis using fin [of "block_addr s at" s'] Pair Some at pl by (simp add: map_block_def)
    qed
  qed
qed

lemma do_mmap_runs:
  assumes ok: "vm_ok st rest s" and fit: "mmap_fits s" and pr: "st \<Longrightarrow> bit (ucast (v_reg s 3) :: u32) 0 \<or> bit (ucast (v_reg s 3) :: u32) 1"
  shows "runs True (do_mmap E s) (\<lambda>(r, s'). step_ok st rest s s' \<and> mmap_post E s r s')"
proof -
  let ?at = "if bit (ucast (v_reg s 4) :: u32) MAP_FIXED then Some (v_reg s 1) else None"
  have keep: "step_ok st rest s s \<and> mmap_post E s r s" if "r \<in> {- EINVAL, - EBADF}" for r
    using that step_ok_refl [OF ok] by (simp add: mmap_post_def)
  have fits: "block_fits s ?at (page_up (v_reg s 2))" using fit by (simp add: mmap_fits_def)
  have main: "runs True (map_block E (page_up (v_reg s 2)) (ucast (v_reg s 3)) ?at path cont s) (\<lambda>(r, s'). step_ok st rest s s' \<and> mmap_post E s r s')"
    if "page_up (v_reg s 2) \<noteq> 0" "bit (ucast (v_reg s 4) :: u32) MAP_ANONYMOUS \<longrightarrow> cont = (\<lambda>_. 0)" for cont path
  proof (rule runs_mono [OF map_block_runs [OF ok _ pr fits]])
    show "0 < unat (page_up (v_reg s 2))" using that(1) by (simp add: unat_gt_0)
  qed (use that(2) in \<open>auto simp: mmap_post_def mmap_at_def simp del: One_nat_def\<close>)
  show ?thesis
    unfolding do_mmap_def Let_def
  proof (intro runs_if runs_option)
    fix pb
    assume n: "page_up (v_reg s 2) \<noteq> 0"
      and pb: "(if bit (ucast (v_reg s 4) :: u32) MAP_ANONYMOUS then Some ([], \<lambda>_ _. 0) else mm_file E (sint (ucast (v_reg s 5) :: u32))) = Some pb"
    obtain path bytes where e: "pb = (path, bytes)" by fastforce
    show "runs True (case pb of (path, bytes) \<Rightarrow> map_block E (page_up (v_reg s 2)) (ucast (v_reg s 3)) ?at path (bytes (v_reg s 0)) s)
        (\<lambda>(r, s'). step_ok st rest s s' \<and> mmap_post E s r s')"
      unfolding e prod.case by (rule main [OF n]) (use pb e in \<open>auto split: if_splits\<close>)
  qed (use keep in auto)
qed

end
