(* ===== verification/Posix_Mprotect.thy ===== *)
theory Posix_Mprotect
  imports Posix_Mmap
begin

text \<open>
  munmap takes the mapping at its address out of the view; mprotect changes permissions inside its
  range only, and no byte of the view. The host protection of pages that mprotect leaves in a
  control block does not follow the guest flags, so mprotect is considered without strict mode.
\<close>

subsection \<open>munmap\<close>

lemma remove_at_bytes:
  assumes ok: "as_ok ms" and r: "remove_at a ms = Some (m, ms')"
  shows "at_byte ms' x p \<longleftrightarrow> at_byte ms x p \<and> \<not> covers m x 1"
  using assms
proof (induction ms arbitrary: ms')
  case (Cons y ms)
  have d: "\<not> (covers y x 1 \<and> covers z x 1)" if "z \<in> set ms" for z
    using Cons.prems(1) that by (auto simp: as_ok_Cons covers_def)
  show ?case
  proof (cases "m_paddr y = a")
    case True
    then have "m = y" "ms' = ms" using Cons.prems(2) by simp_all
    then show ?thesis using d by (auto simp: at_byte_def)
  next
    case False
    then obtain ms'' where r: "remove_at a ms = Some (m, ms'')" "ms' = y # ms''"
      using Cons.prems(2) by (auto split: option.splits)
    have "m \<in> set ms" using remove_at_mset [OF r(1)] by (metis set_mset_mset union_single_eq_member add_mset_add_single set_mset_add_mset_insert insertI1)
    then show ?thesis using Cons.IH [OF _ r(1)] Cons.prems(1) d r(2) by (auto simp: at_byte_def as_ok_Cons)
  qed
qed simp

definition unmapped :: "memmap \<Rightarrow> (u64 \<Rightarrow> u8 option) \<Rightarrow> u64 \<Rightarrow> u8 option" where
  "unmapped m g a = (if covers m a 1 then None else g a)"

lemma unmap_runs:
  assumes ok: "vm_ok st rest s" and u: "unmap a s = (b, s')"
  shows "step_ok st rest s s' \<and> v_reg s' = v_reg s
     \<and> (if b then \<exists>m \<in> set (v_maps s). m_paddr m = a \<and> mem_at s' = unmapped m (mem_at s)
        else s' = s \<and> (\<forall>m \<in> set (v_maps s). m_paddr m \<noteq> a))"
proof (cases "remove_at a (v_maps s)")
  case None
  then show ?thesis using u ok remove_at_None [of a "v_maps s"] by (auto simp: unmap_def step_ok_refl)
next
  case (Some p)
  obtain m ms where p: "p = (m, ms)" by fastforce
  then have r: "remove_at a (v_maps s) = Some (m, ms)" using Some by simp
  note ms = remove_at_mset [OF r]
  let ?h = "memmap_destroy m (v_host s)"
  have s': "b = True" "s' = flush_tlb (s\<lparr>v_maps := ms, v_host := ?h\<rparr>)" using u r by (simp_all add: unmap_def)
  have "mem_ok st (v_host s) (add_mset m (mset ms + rest))" using vm_okD(3) [OF ok] ms by simp
  then have "mem_ok st ?h (mset ms + rest)" by (rule mem_ok_destroy)
  then have "vm_ok st rest s'" using as_ok_remove_at [OF vm_okD(1) [OF ok] r] by (simp add: s'(2) vm_ok_def)
  moreover have "gbyte ?h ms x = unmapped m (mem_at s) x" for x
  proof -
    have as: "as_ok ms" by (rule as_ok_remove_at [OF vm_okD(1) [OF ok] r])
    note b = remove_at_bytes [OF vm_okD(1) [OF ok] r, of x]
    show ?thesis
    proof (cases "covers m x 1")
      case True
      then have "resolve ms x 1 = None" using b at_byte_resolve [OF as, of x] by (cases "resolve ms x 1") auto
      then show ?thesis using True by (simp add: gbyte_def unmapped_def)
    next
      case False
      then have "resolve ms x 1 = resolve (v_maps s) x 1" by (intro resolve_eqI [OF vm_okD(1) [OF ok] as]) (simp add: b)
      then show ?thesis using False by (simp add: gbyte_def unmapped_def)
    qed
  qed
  moreover have "m \<in> set (v_maps s)" using ms by (metis set_mset_mset union_single_eq_member set_mset_add_mset_insert insertI1)
  ultimately show ?thesis using s' ms by (auto simp: step_ok_def isolated_def fun_eq_iff)
qed

subsection \<open>Splitting for mprotect\<close>

text \<open>The same bytes at the same addresses, with flags kept or replaced inside the range.\<close>

definition reprot :: "u64 \<Rightarrow> u64 \<Rightarrow> u32 \<Rightarrow> memmap list \<Rightarrow> memmap list \<Rightarrow> bool" where
  "reprot lo hi nf ms ps \<longleftrightarrow> as_ok ps \<and> at_byte ps = at_byte ms
     \<and> (\<forall>x \<in> set ps. \<exists>m \<in> set ms. m_lo m \<le> m_lo x \<and> m_hi x \<le> m_hi m
          \<and> (m_flags x = m_flags m \<or> m_flags x = new_prot nf m \<and> unat lo \<le> m_lo x \<and> m_hi x \<le> unat hi))"

lemma new_prot_idem: "nf AND NOT 7 = 0 \<Longrightarrow> m_flags x = new_prot nf m \<Longrightarrow> new_prot nf x = new_prot nf m"
  by (simp add: new_prot_def bit.conj_disj_distrib2 and.assoc)

lemma reprot_refl: "as_ok ms \<Longrightarrow> reprot lo hi nf ms ms"
  by (auto simp: reprot_def)

lemma reprot_trans:
  assumes "nf AND NOT 7 = 0" "reprot lo hi nf ms ps" "reprot lo hi nf ps qs"
  shows "reprot lo hi nf ms qs"
  unfolding reprot_def
proof (intro conjI ballI)
  fix x assume "x \<in> set qs"
  then obtain y where y: "y \<in> set ps" "m_lo y \<le> m_lo x" "m_hi x \<le> m_hi y"
    "m_flags x = m_flags y \<or> m_flags x = new_prot nf y \<and> unat lo \<le> m_lo x \<and> m_hi x \<le> unat hi"
    using assms(3) unfolding reprot_def by blast
  obtain m where m: "m \<in> set ms" "m_lo m \<le> m_lo y" "m_hi y \<le> m_hi m"
    "m_flags y = m_flags m \<or> m_flags y = new_prot nf m \<and> unat lo \<le> m_lo y \<and> m_hi y \<le> unat hi"
    using assms(2) y(1) unfolding reprot_def by blast
  have "new_prot nf y = new_prot nf m" if "m_flags y = m_flags m" using that by (simp add: new_prot_def)
  then have "m_flags x = m_flags m \<or> m_flags x = new_prot nf m \<and> unat lo \<le> m_lo x \<and> m_hi x \<le> unat hi"
    using y m(4) new_prot_idem [OF assms(1), of y m] by auto
  then show "\<exists>m \<in> set ms. m_lo m \<le> m_lo x \<and> m_hi x \<le> m_hi m
      \<and> (m_flags x = m_flags m \<or> m_flags x = new_prot nf m \<and> unat lo \<le> m_lo x \<and> m_hi x \<le> unat hi)"
    using m y(2,3) by (meson le_trans)
qed (use assms in \<open>simp_all add: reprot_def\<close>)

lemma reprot_append:
  assumes "reprot lo hi nf xs ps" "reprot lo hi nf ys qs" "as_ok (xs @ ys)"
  shows "reprot lo hi nf (xs @ ys) (ps @ qs)"
proof -
  have "m_hi p \<le> m_lo q" if pq: "p \<in> set ps" "q \<in> set qs" for p q
  proof -
    obtain x y where "x \<in> set xs" "m_hi p \<le> m_hi x" "y \<in> set ys" "m_lo y \<le> m_lo q"
      using assms(1,2) pq unfolding reprot_def by blast
    moreover have "m_hi x \<le> m_lo y" using assms(3) calculation by (simp add: as_ok_append)
    ultimately show ?thesis by simp
  qed
  then have "as_ok (ps @ qs)" using assms(1,2) by (simp add: as_ok_append reprot_def)
  then show ?thesis using assms(1,2) unfolding reprot_def by (fastforce simp: fun_eq_iff)
qed

lemma sub_within:
  assumes g: "m_hi m < 2 ^ 64" and r: "mp_overlap lo hi m" "unat lo < unat hi" "m_lo m < m_hi m"
  shows "within m (m_paddr m) (sub_lo lo m)" "within m (sub_lo lo m) (sub_hi hi m)" "within m (sub_hi hi m) (m_end_of m)"
    "unat (sub_lo lo m) < unat (sub_hi hi m)" "unat lo \<le> unat (sub_lo lo m)" "unat (sub_hi hi m) \<le> unat hi"
    "m_paddr m < sub_lo lo m \<longleftrightarrow> m_lo m < unat (sub_lo lo m)" "sub_hi hi m < m_end_of m \<longleftrightarrow> unat (sub_hi hi m) < m_hi m"
proof -
  have e: "unat (m_end_of m) = m_hi m" using g by (simp add: m_end_of_def m_end)
  note d = within_def sub_lo_def sub_hi_def mp_overlap_def max_def min_def m_lo_def word_le_nat_alt word_less_nat_alt
  show "within m (m_paddr m) (sub_lo lo m)" "within m (sub_lo lo m) (sub_hi hi m)" "within m (sub_hi hi m) (m_end_of m)"
    "unat (sub_lo lo m) < unat (sub_hi hi m)" "unat lo \<le> unat (sub_lo lo m)" "unat (sub_hi hi m) \<le> unat hi"
    "m_paddr m < sub_lo lo m \<longleftrightarrow> m_lo m < unat (sub_lo lo m)" "sub_hi hi m < m_end_of m \<longleftrightarrow> unat (sub_hi hi m) < m_hi m"
    using r g e by (auto simp: d)
qed

lemma at_byte_piece:
  assumes "within m lo hi"
  shows "at_byte [piece m lo hi fl p] x y \<longleftrightarrow> at_byte [m] x y \<and> in_range lo hi x"
  using piece_covers [OF assms, of fl p x] piece_off [OF assms, of fl p x 1] assms
  by (auto simp: at_byte_def in_range_def covers_def within_def)

lemma split_pieces_reprot:
  assumes g: "m_hi m < 2 ^ 64" and r: "mp_overlap lo hi m" "unat lo < unat hi" "m_lo m < m_hi m"
    and s: "split_pieces lo hi nf m h = (ps, h')"
  shows "reprot lo hi nf [m] ps"
proof -
  note w = sub_within [OF g r]
  define ls where "ls = (if m_paddr m < sub_lo lo m then [piece m (m_paddr m) (sub_lo lo m) (m_flags m) []] else [])"
  define rs where "rs = (if sub_hi hi m < m_end_of m then [piece m (sub_hi hi m) (m_end_of m) (m_flags m) []] else [])"
  define mid where "mid = piece m (sub_lo lo m) (sub_hi hi m) (new_prot nf m) []"
  have ps: "ps = ls @ mid # rs" using s by (auto simp: split_pieces_def ls_def rs_def mid_def split: if_splits)
  have e: "unat (m_end_of m) = m_hi m" using g by (simp add: m_end_of_def m_end)
  note geo = piece_geo [OF w(1)] piece_geo [OF w(2)] piece_geo [OF w(3)]
  have lo: "unat (m_paddr m) = m_lo m" by (simp add: m_lo_def)
  have "as_ok ps" using w(4,7,8) r(3) g unsigned_less [of "sub_lo lo m"] unsigned_less [of "sub_hi hi m"] unfolding ps as_ok_append as_ok_Cons
    by (auto simp: ls_def rs_def mid_def geo as_ok_def e lo)
  moreover have "at_byte ps x y \<longleftrightarrow> at_byte [m] x y" for x y
  proof -
    have "at_byte ls x y \<longleftrightarrow> at_byte [m] x y \<and> in_range (m_paddr m) (sub_lo lo m) x"
      "at_byte rs x y \<longleftrightarrow> at_byte [m] x y \<and> in_range (sub_hi hi m) (m_end_of m) x"
      using w(7,8) e lo by (auto simp: ls_def rs_def at_byte_piece [OF w(1)] at_byte_piece [OF w(3)] in_range_def) (auto simp: at_byte_def)
    moreover have "at_byte ps x y \<longleftrightarrow> at_byte ls x y \<or> at_byte [mid] x y \<or> at_byte rs x y" by (auto simp: ps at_byte_def)
    moreover have "at_byte [m] x y \<Longrightarrow> m_lo m \<le> unat x \<and> unat x < m_hi m" by (auto simp: at_byte_def covers_def)
    ultimately show ?thesis using w(4) e lo by (auto simp: mid_def at_byte_piece [OF w(2)] in_range_def)
  qed
  moreover have "\<forall>x \<in> set ps. m_lo m \<le> m_lo x \<and> m_hi x \<le> m_hi m
      \<and> (m_flags x = m_flags m \<or> m_flags x = new_prot nf m \<and> unat lo \<le> m_lo x \<and> m_hi x \<le> unat hi)"
    using w(4,5,6) w(1-3) by (auto simp: ps ls_def rs_def mid_def geo e lo within_def split: if_splits)
  ultimately show ?thesis by (simp add: reprot_def fun_eq_iff)
qed

lemma split_pieces_mem:
  assumes ok: "mem_ok False h (add_mset m M)" "m_cow m = Some i"
    and g: "m_hi m < 2 ^ 64" and r: "mp_overlap lo hi m" "unat lo < unat hi" "m_lo m < m_hi m"
    and s: "split_pieces lo hi nf m h = (ps, h')"
  shows "mem_ok False h' (mset ps + add_mset m M)" "hval h' = hval h"
proof -
  note w = sub_within [OF g r]
  define h1 where "h1 = (if m_paddr m < sub_lo lo m then cow_ref m h else h)"
  define ls where "ls = (if m_paddr m < sub_lo lo m then [piece m (m_paddr m) (sub_lo lo m) (m_flags m) []] else [])"
  define mid where "mid = piece m (sub_lo lo m) (sub_hi hi m) (new_prot nf m) []"
  have 1: "mem_ok False h1 (mset ls + add_mset m M)"
    using ok(1) mem_ok_piece [OF ok(1) _ ok(2) w(1), of "m_flags m"] by (simp add: h1_def ls_def add_mset_commute)
  have 2: "mem_ok False (cow_ref m h1) (add_mset mid (mset ls + add_mset m M))"
    unfolding mid_def by (rule mem_ok_piece [OF 1 _ ok(2) w(2)]) simp_all
  define h2 where "h2 = cow_ref m h1"
  note 2 = 2 [folded h2_def]
  have sp: "(ps, h') = (if sub_hi hi m < m_end_of m then (ls @ [mid, piece m (sub_hi hi m) (m_end_of m) (m_flags m) []], cow_ref m h2) else (ls @ [mid], h2))"
    using s by (simp add: split_pieces_def ls_def mid_def h1_def h2_def split: if_splits)
  have "mem_ok False (cow_ref m h2) (add_mset (piece m (sub_hi hi m) (m_end_of m) (m_flags m) []) (add_mset mid (mset ls + add_mset m M)))"
    by (rule mem_ok_piece [OF 2 _ ok(2) w(3)]) simp_all
  then show "mem_ok False h' (mset ps + add_mset m M)"
    using sp 2 by (simp add: add_mset_commute split: if_splits)
  show "hval h' = hval h" using s by (auto simp: split_pieces_def split: if_splits)
qed

lemma mem_ok_mprotect: "mem_ok False h M \<Longrightarrow> host_mprotect p n prot h = (ok, h') \<Longrightarrow> mem_ok False h' M \<and> hval h' = hval h"
  using own_inv_mprotect [of h M p n prot] host_mprotect_cases(1) [of p n prot h ok h'] by (simp add: mem_ok_def)

lemma mprotect_split_spec:
  assumes ok: "mem_ok False h (add_mset m M)" and g: "m_hi m < 2 ^ 64"
    and r: "mp_overlap lo hi m" "unat lo < unat hi" "m_lo m < m_hi m"
    and s: "mprotect_split E lo hi nf prot m h = (e, ps, h')"
  shows "mem_ok False h' (mset ps + M) \<and> hval h' = hval h \<and> reprot lo hi nf [m] ps"
proof -
  obtain m1 h1 where sh: "share_data m h = (m1, h1)" by fastforce
  note sg = share_data_geo [OF sh]
  note so = mem_ok_share [OF ok sh]
  obtain i where i: "m_cow m1 = Some i" using so(2) by auto
  have geo: "m_lo m1 = m_lo m" "m_hi m1 = m_hi m" using sg by (simp_all add: m_lo_def m_hi_def)
  have ov: "mp_overlap lo hi m1" using r(1) sg by (simp add: mp_overlap_def m_end_of_def)
  have b: "reprot lo hi nf [m] qs" if "reprot lo hi nf [m1] qs" for qs
    using that sg by (simp add: reprot_def geo at_byte_def covers_def m_off_def fun_eq_iff new_prot_def)
  obtain qs h2 where p: "split_pieces lo hi nf m1 h1 = (qs, h2)" by fastforce
  have gr: "m_hi m1 < 2 ^ 64" "m_lo m1 < m_hi m1" using g r(3) geo by simp_all
  note rq = split_pieces_reprot [OF gr(1) ov r(2) gr(2) p]
  note mq = split_pieces_mem [OF so(1) i gr(1) ov r(2) gr(2) p]
  obtain ok h3 where pr: "(if m_owned m then host_mprotect (m_off m1 (sub_lo lo m1)) (unat (sub_hi hi m1 - sub_lo lo m1)) prot h2 else (True, h2)) = (ok, h3)"
    by fastforce
  have m3: "mem_ok False h3 (mset qs + add_mset m1 M)" "hval h3 = hval h"
    using mem_ok_mprotect [OF mq(1)] pr mq sg(7) by (auto split: if_splits)
  show ?thesis
  proof (cases ok)
    case True
    have "mem_ok False (memmap_destroy m1 h3) (mset qs + M)" by (rule mem_ok_destroy) (use m3 in simp)
    then show ?thesis using s sh p pr True m3(2) b [OF rq] by (auto simp: mprotect_split_def split: if_splits)
  next
    case False
    have "as_ok [m1]" using gr by (simp add: as_ok_def)
    moreover have "mem_ok False (fold memmap_destroy qs h3) (add_mset m1 M) \<and> hval (fold memmap_destroy qs h3) = hval h3"
      by (rule mem_ok_destroy_all) (use m3 in simp)
    ultimately show ?thesis using s sh p pr False m3(2) b [OF reprot_refl] by (auto simp: mprotect_split_def split: if_splits)
  qed
qed

lemma mprotect_whole_spec:
  assumes ok: "mem_ok False h (add_mset m M)" and g: "m_hi m < 2 ^ 64"
    and r: "mp_overlap lo hi m" "unat lo < unat hi" "m_lo m < m_hi m" "\<not> need_split lo hi m"
    and s: "mprotect_whole E nf prot m h = (e, m', h')" and nf: "nf AND NOT 7 = 0"
  shows "mem_ok False h' (add_mset m' M) \<and> hval h' = hval h \<and> reprot lo hi nf [m] [m']"
    "e = None \<Longrightarrow> m_flags m' AND 7 = nf"
proof -
  note w = sub_within [OF g r(1-3)]
  have inr: "unat lo \<le> m_lo m" "m_hi m \<le> unat hi" using r(4) w by (auto simp: need_split_def within_def)
  note geo = mprotect_whole_geo [OF s]
  have g': "m_lo m' = m_lo m" "m_hi m' = m_hi m" using geo by (simp_all add: m_lo_def m_hi_def)
  have fl: "m_flags m' = m_flags m \<or> m_flags m' = new_prot nf m" "h' = h \<or> (\<exists>p n ok. host_mprotect p n prot h = (ok, h'))"
    using s by (auto simp: mprotect_whole_def split: if_splits prod.splits)
  have "reprot lo hi nf [m] [m']"
    using g r(3) inr fl(1) geo(1,3) g' by (simp add: reprot_def as_ok_def at_byte_def covers_def m_off_def fun_eq_iff)
  moreover have "own_inv h (add_mset m' M)" if "own_inv h (add_mset m M)" for h
    using that by (rule own_inv_relabel) (use geo in simp_all)
  ultimately show "mem_ok False h' (add_mset m' M) \<and> hval h' = hval h \<and> reprot lo hi nf [m] [m']"
    using fl(2) ok mem_ok_mprotect [OF ok] by (auto simp: mem_ok_def)
  have "nf AND 7 = nf" using bit.conj_disj_distrib [of nf 7 "NOT 7"] nf by simp
  then have "new_prot nf m AND 7 = nf" by (simp add: new_prot_def bit.conj_disj_distrib2 and.assoc)
  then show "e = None \<Longrightarrow> m_flags m' AND 7 = nf"
    using s by (auto simp: mprotect_whole_def split: if_splits prod.splits)
qed

subsection \<open>The loop\<close>

text \<open>What the loop has settled for a mapping: it is apart from the range, or inside it with the new permissions.\<close>

definition settled :: "u64 \<Rightarrow> u64 \<Rightarrow> u32 \<Rightarrow> memmap \<Rightarrow> bool" where
  "settled lo hi nf m \<longleftrightarrow> (mp_overlap lo hi m \<longrightarrow> \<not> need_split lo hi m \<and> m_flags m AND 7 = nf)"

lemma reprot_at:
  assumes "as_ok ms" "i < length ms" "reprot lo hi nf [ms ! i] ps"
  shows "reprot lo hi nf ms (take i ms @ ps @ drop (Suc i) ms)"
proof -
  have ms: "take i ms @ [ms ! i] @ drop (Suc i) ms = ms" using assms(2) by (simp add: id_take_nth_drop [symmetric])
  have ok: "as_ok (take i ms)" "as_ok (drop (Suc i) ms)" "as_ok ([ms ! i] @ drop (Suc i) ms)" "as_ok (take i ms @ [ms ! i] @ drop (Suc i) ms)"
    using assms(1) ms by (metis as_ok_append)+
  have "reprot lo hi nf ([ms ! i] @ drop (Suc i) ms) (ps @ drop (Suc i) ms)"
    by (rule reprot_append [OF assms(3) reprot_refl [OF ok(2)] ok(3)])
  from reprot_append [OF reprot_refl [OF ok(1)] this ok(4)] show ?thesis by (simp only: ms)
qed

lemma mset_at: "i < length ms \<Longrightarrow> mset ms = add_mset (ms ! i) (mset (take i ms) + mset (drop (Suc i) ms))"
  using arg_cong [OF id_take_nth_drop, of i ms mset] by simp

text \<open>The result of the loop from index \<open>i\<close>.\<close>

definition mp_post :: "u64 \<Rightarrow> u64 \<Rightarrow> u32 \<Rightarrow> memmap multiset \<Rightarrow> bool \<Rightarrow> memmap list \<Rightarrow> host \<Rightarrow> (int + bool) \<times> memmap list \<times> host \<Rightarrow> bool" where
  "mp_post lo hi nf M any ms h = (\<lambda>(res, ms', h').
     reprot lo hi nf ms ms' \<and> mem_ok False h' (mset ms' + M) \<and> hval h' = hval h
     \<and> (\<forall>b. res = Inr b \<longrightarrow> (\<forall>m \<in> set ms'. settled lo hi nf m) \<and> (b \<longleftrightarrow> any)))"

lemma mprotect_loop_split:
  assumes "i < length ms" "mp_overlap lo hi (ms ! i)" "\<not> (bit (m_flags (ms ! i)) PF_X \<and> \<not> bit nf PF_X)" "need_split lo hi (ms ! i)"
    "mprotect_split E lo hi nf prot (ms ! i) h = (e, ps, h1)"
  shows "mprotect_loop E lo hi nf prot i any ms h =
     (case e of Some c \<Rightarrow> (Inl c, take i ms @ ps @ drop (Suc i) ms, h1)
      | None \<Rightarrow> mprotect_loop E lo hi nf prot 0 True (take i ms @ ps @ drop (Suc i) ms) h1)"
  using assms by (subst mprotect_loop.simps) (simp split: option.split del: de_Morgan_conj)

lemma mprotect_loop_whole:
  assumes "i < length ms" "mp_overlap lo hi (ms ! i)" "\<not> (bit (m_flags (ms ! i)) PF_X \<and> \<not> bit nf PF_X)" "\<not> need_split lo hi (ms ! i)"
    "mprotect_whole E nf prot (ms ! i) h = (e, m, h1)"
  shows "mprotect_loop E lo hi nf prot i any ms h =
     (case e of Some c \<Rightarrow> (Inl c, ms[i := m], h1) | None \<Rightarrow> mprotect_loop E lo hi nf prot (Suc i) True (ms[i := m]) h1)"
  using assms by (subst mprotect_loop.simps) (simp split: option.split del: de_Morgan_conj)

lemma mp_post_trans:
  assumes "nf AND NOT 7 = 0" "reprot lo hi nf ms ms1" "hval h1 = hval h" "mp_post lo hi nf M any ms1 h1 z"
  shows "mp_post lo hi nf M any ms h z"
  using assms reprot_trans [OF assms(1,2)] by (auto simp: mp_post_def)

lemma mprotect_loop_spec:
  assumes "nf AND NOT 7 = 0" "unat lo < unat hi"
    and "as_ok ms" "mem_ok False h (mset ms + M)" "\<forall>j < i. j < length ms \<longrightarrow> settled lo hi nf (ms ! j)"
  shows "mp_post lo hi nf M (any \<or> (\<exists>m \<in> set (drop i ms). mp_overlap lo hi m)) ms h (mprotect_loop E lo hi nf prot i any ms h)"
  using assms
proof (induction E lo hi nf prot i any ms h rule: mprotect_loop.induct)
  case (1 E lo hi nf prot i any ms h)
  note nf = 1(4) and r = 1(5) and as = 1(6) and mem = 1(7) and st = 1(8)
  let ?m = "ms ! i" and ?R = "mset (take i ms) + mset (drop (Suc i) ms) + M"
  show ?case
  proof (cases "length ms \<le> i")
    case True
    then have "\<forall>m \<in> set ms. settled lo hi nf m" using st by (auto simp: in_set_conv_nth)
    then show ?thesis using True as mem reprot_refl by (simp add: mprotect_loop.simps mp_post_def)
  next
    case False
    then have i: "i < length ms" by simp
    have dr: "drop i ms = ?m # drop (Suc i) ms" using i by (rule Cons_nth_drop_Suc [symmetric])
    have g: "m_lo ?m < m_hi ?m" "m_hi ?m < 2 ^ 64" using as i by (auto simp: as_ok_def)
    have mem': "mem_ok False h (add_mset ?m ?R)" using mem mset_at [OF i] by (simp add: ac_simps)
    consider (apart) "\<not> mp_overlap lo hi ?m" | (x) "mp_overlap lo hi ?m" "bit (m_flags ?m) PF_X \<and> \<not> bit nf PF_X"
      | (split) "mp_overlap lo hi ?m" "\<not> (bit (m_flags ?m) PF_X \<and> \<not> bit nf PF_X)" "need_split lo hi ?m"
      | (whole) "mp_overlap lo hi ?m" "\<not> (bit (m_flags ?m) PF_X \<and> \<not> bit nf PF_X)" "\<not> need_split lo hi ?m" by blast
    then show ?thesis
    proof cases
      case apart
      have "\<forall>j < Suc i. j < length ms \<longrightarrow> settled lo hi nf (ms ! j)" using st apart by (auto simp: less_Suc_eq settled_def)
      from 1(1) [OF False apart nf r as mem this] show ?thesis
        using apart False by (simp add: mprotect_loop.simps [of E lo hi nf prot i] dr)
    next
      case x
      then show ?thesis using False as mem reprot_refl by (simp add: mprotect_loop.simps [of E lo hi nf prot i] mp_post_def)
    next
      case split
      obtain e ps h1 where sp: "mprotect_split E lo hi nf prot ?m h = (e, ps, h1)" by (metis prod_cases3)
      note q = mprotect_split_spec [OF mem' g(2) split(1) r g(1) sp]
      note ra = reprot_at [OF as i q [THEN conjunct2, THEN conjunct2]]
      have mem1: "mem_ok False h1 (mset (take i ms @ ps @ drop (Suc i) ms) + M)" using q by (simp add: ac_simps)
      show ?thesis
      proof (cases e)
        case None
        have "as_ok (take i ms @ ps @ drop (Suc i) ms)" using ra by (simp add: reprot_def)
        then have ih: "mp_post lo hi nf M True (take i ms @ ps @ drop (Suc i) ms) h1
            (mprotect_loop E lo hi nf prot 0 True (take i ms @ ps @ drop (Suc i) ms) h1)"
          using 1(2) [OF False _ split(2,3) sp [symmetric] None refl nf r _ mem1] split(1) by simp
        have "hval h1 = hval h" using q by blast
        from mp_post_trans [OF nf ra this ih] show ?thesis
          unfolding mprotect_loop_split [OF i split sp] using None split(1) by (simp add: dr)
      next
        case (Some c)
        then show ?thesis using ra mem1 q unfolding mprotect_loop_split [OF i split sp] by (simp add: mp_post_def)
      qed
    next
      case whole
      obtain e m h1 where wh: "mprotect_whole E nf prot ?m h = (e, m, h1)" by (metis prod_cases3)
      note q = mprotect_whole_spec [OF mem' g(2) whole(1) r g(1) whole(3) wh nf]
      have up: "ms[i := m] = take i ms @ [m] @ drop (Suc i) ms" using i by (simp add: upd_conv_take_nth_drop)
      have ra: "reprot lo hi nf ms (ms[i := m])" unfolding up by (rule reprot_at [OF as i]) (use q(1) in simp)
      have mem1: "mem_ok False h1 (mset (ms[i := m]) + M)" using q(1) unfolding up by (simp add: ac_simps)
      show ?thesis
      proof (cases e)
        case None
        have "as_ok (ms[i := m])" using ra by (simp add: reprot_def)
        moreover have "settled lo hi nf m" using q(2) None whole mprotect_whole_geo [OF wh]
          by (simp add: settled_def mp_overlap_def need_split_def sub_lo_def sub_hi_def m_end_of_def)
        then have "\<forall>j < Suc i. j < length (ms[i := m]) \<longrightarrow> settled lo hi nf (ms[i := m] ! j)"
          using st i by (auto simp: less_Suc_eq nth_list_update)
        ultimately have ih: "mp_post lo hi nf M True (ms[i := m]) h1 (mprotect_loop E lo hi nf prot (Suc i) True (ms[i := m]) h1)"
          using 1(3) [OF False _ whole(2,3) wh [symmetric] None refl nf r _ mem1] whole(1) by simp
        have "hval h1 = hval h" using q(1) by blast
        from mp_post_trans [OF nf ra this ih] show ?thesis
          unfolding mprotect_loop_whole [OF i whole wh] using None whole(1) by (simp add: dr)
      next
        case (Some c)
        then show ?thesis using ra mem1 q(1) unfolding mprotect_loop_whole [OF i whole wh] by (simp add: mp_post_def)
      qed
    qed
  qed
qed

lemma mprotect_result:
  assumes ok: "vm_ok False rest s" and r: "v_reg s 2 \<noteq> 0" "unat (v_reg s 1) + unat (v_reg s 2) < 2 ^ 64"
    and l: "mprotect_loop E (v_reg s 1) (v_reg s 1 + v_reg s 2) (prot_flags (ucast (v_reg s 3))) (ucast (v_reg s 3)) 0 False (v_maps s) (v_host s) = (res, ms, h)"
  shows "mp_post (v_reg s 1) (v_reg s 1 + v_reg s 2) (prot_flags (ucast (v_reg s 3))) rest
      (\<exists>m \<in> set (v_maps s). mp_overlap (v_reg s 1) (v_reg s 1 + v_reg s 2) m) (v_maps s) (v_host s) (res, ms, h)"
    "gbyte h ms = mem_at s" "isolated rest (v_host s) h" "vm_ok False rest (flush_tlb (s\<lparr>v_maps := ms, v_host := h\<rparr>))"
proof -
  let ?lo = "v_reg s 1" and ?hi = "v_reg s 1 + v_reg s 2" and ?nf = "prot_flags (ucast (v_reg s 3))"
  have "0 < unat (v_reg s 2)" using r(1) by (simp add: unat_gt_0)
  then have "unat ?lo < unat ?hi" using r(2) by (simp add: unat_word_ariths)
  moreover have "?nf AND NOT 7 = 0" by (simp add: prot_flags_def)
  ultimately show p: "mp_post ?lo ?hi ?nf rest (\<exists>m \<in> set (v_maps s). mp_overlap ?lo ?hi m) (v_maps s) (v_host s) (res, ms, h)"
    using mprotect_loop_spec [of ?nf ?lo ?hi "v_maps s" "v_host s" rest 0 False E "ucast (v_reg s 3)"] vm_okD [OF ok] l by simp
  then have rp: "reprot ?lo ?hi ?nf (v_maps s) ms" and hv: "hval h = hval (v_host s)" and mm: "mem_ok False h (mset ms + rest)"
    by (simp_all add: mp_post_def)
  have as: "as_ok ms" and ab: "at_byte ms = at_byte (v_maps s)" using rp by (simp_all add: reprot_def)
  show "gbyte h ms = mem_at s" using resolve_eqI [OF vm_okD(1) [OF ok] as] ab hv unfolding gbyte_def hv by (auto simp: fun_eq_iff)
  show "isolated rest (v_host s) h" using hv by (simp add: isolated_def)
  show "vm_ok False rest (flush_tlb (s\<lparr>v_maps := ms, v_host := h\<rparr>))" using as mm by (simp add: vm_ok_def)
qed

text \<open>An error is negative when the host's error numbers are positive.\<close>

lemma mprotect_loop_err:
  assumes "\<forall>n. 0 < mm_errno E n" "mprotect_loop E lo hi nf prot i any ms h = (Inl e, ms', h')"
  shows "e < 0"
  using assms
proof (induction E lo hi nf prot i any ms h rule: mprotect_loop.induct)
  case (1 E lo hi nf prot i any ms h)
  note p = 1(5) [unfolded mprotect_loop.simps [of E lo hi nf prot i any ms h]]
  have sp: "c < 0" if "mprotect_split E lo hi nf prot m h = (Some c, z)" for c m z
    using that 1(4) by (auto simp: mprotect_split_def Let_def split: prod.splits if_splits)
  have wh: "c < 0" if "mprotect_whole E nf prot m h = (Some c, z)" for c m z
    using that 1(4) by (auto simp: mprotect_whole_def Let_def split: prod.splits if_splits)
  show ?case
    using p 1(1-3) [OF _ _ _] 1(4) sp wh
    by (auto split: if_splits option.splits prod.splits)
qed

end
