(* ===== verification/Posix_Memory_Claims.thy ===== *)
theory Posix_Memory_Claims
  imports Posix_Mprotect
begin

text \<open>
  The memory calls of src/posix/memory.cpp: what mmap, munmap and mprotect do to the guest's view,
  and what mprotect leaves behind when it fails half way.
\<close>

definition demo_env :: mm_env where
  "demo_env = \<lparr>mm_file = (\<lambda>_. None), mm_errno = (\<lambda>_. 12)\<rparr>"

definition demo_call :: "u64 list \<Rightarrow> unit vm" where
  "demo_call as = demo_vm\<lparr>v_reg := (\<lambda>i. if 0 < i \<and> i \<le> length as then as ! (i - 1) else 0)\<rparr>"

lemma demo_call_ok: "vm_ok st {#demo_other#} (demo_call as)"
  using demo_vm_ok [of st] by (simp add: demo_call_def vm_ok_def)

text \<open>
  C15: mmap always returns, without touching memory it must not. Either it fails with EINVAL, EBADF
  or the host's error and the guest sees the memory it saw before, or it returns the requested
  address (MAP_FIXED) or the end of the highest mapping, and the guest sees the new pages there,
  zero for an anonymous mapping, whatever was mapped before, and its old memory everywhere else. The
  other address spaces keep their bytes. The range must not wrap around.
\<close>

theorem do_mmap_effect:
  assumes "vm_ok st rest s" "mmap_fits s" "st \<longrightarrow> bit (ucast (v_reg s 3) :: u32) 0 \<or> bit (ucast (v_reg s 3) :: u32) 1"
  shows "\<exists>r s'. do_mmap E s = Some (r, s') \<and> step_ok st rest s s' \<and> mmap_post E s r s'"
  using do_mmap_runs [OF assms(1,2), of E] assms(3) by (cases "do_mmap E s") (auto simp: runs_def)

lemma do_mmap_effect_witness:
  "\<exists>r s'. do_mmap demo_env (demo_call [0, 4096, 3, 0x22]) = Some (r, s') \<and> step_ok True {#demo_other#} (demo_call [0, 4096, 3, 0x22]) s'
     \<and> mmap_post demo_env (demo_call [0, 4096, 3, 0x22]) r s'"
proof (rule do_mmap_effect [OF demo_call_ok])
  show "mmap_fits (demo_call [0, 4096, 3, 0x22])"
    by (simp add: mmap_fits_def block_fits_def demo_call_def demo_eval page_up_def m_hi_def m_lo_def)
  show "True \<longrightarrow> bit (ucast (v_reg (demo_call [0, 4096, 3, 0x22]) 3) :: u32) 0 \<or> bit (ucast (v_reg (demo_call [0, 4096, 3, 0x22]) 3) :: u32) 1"
    by (simp add: demo_call_def)
qed

text \<open>
  C16: munmap removes exactly the mapping that starts at its address, releases its host pages and
  keeps the invariant; without such a mapping it returns EINVAL and changes nothing.
\<close>

theorem do_munmap_effect:
  assumes "vm_ok st rest s"
  shows "case do_munmap s of (r, s') \<Rightarrow> step_ok st rest s s' \<and> v_reg s' = v_reg s
     \<and> (r = 0 \<and> (\<exists>m \<in> set (v_maps s). m_paddr m = v_reg s 1 \<and> mem_at s' = unmapped m (mem_at s))
        \<or> r = - EINVAL \<and> s' = s \<and> (\<forall>m \<in> set (v_maps s). m_paddr m \<noteq> v_reg s 1))"
proof (cases "unmap (v_reg s 1) s")
  case (Pair b s')
  show ?thesis using unmap_runs [OF assms Pair] by (cases b) (auto simp: do_munmap_def Pair simp del: One_nat_def)
qed

lemma do_munmap_effect_witness:
  "case do_munmap (demo_call [0x10000000]) of (r, s') \<Rightarrow> step_ok True {#demo_other#} (demo_call [0x10000000]) s' \<and> r = 0 \<and> mem_at s' 0x10000000 = None"
  using do_munmap_effect [OF demo_call_ok [of True "[0x10000000]"]]
  by (auto simp: demo_call_def demo_eval unmapped_def covers_def m_lo_def m_hi_def split: prod.splits)



text \<open>Two mappings, data and text, the first of them in the TLB; mprotect asks for PROT_READ on both.\<close>

definition stale_vm :: "unit vm" where
  "stale_vm = demo_vm\<lparr>v_maps := [demo_map\<lparr>m_flags := 6\<rparr>, demo_other\<lparr>m_paddr := 0x10001000\<rparr>],
     v_tlb := (\<lambda>_. tlb_zero)(tlb_index 0x10000000 := tlb_of (demo_map\<lparr>m_flags := 6\<rparr>)),
     v_reg := (\<lambda>_. 0)(1 := 0x10000000, 2 := 0x2000, 3 := 1)\<rparr>"

lemma stale_vm_ok: "vm_ok True {#} stale_vm"
proof -
  have "own_inv demo_host {#demo_map, demo_other#}" using demo_own by (simp add: add_mset_commute)
  then have "own_inv demo_host {#demo_map\<lparr>m_flags := 6\<rparr>, demo_other#}" by (rule own_inv_relabel) simp_all
  then have "own_inv demo_host {#demo_other, demo_map\<lparr>m_flags := 6\<rparr>#}" by (simp add: add_mset_commute)
  then have "own_inv demo_host {#demo_other\<lparr>m_paddr := 0x10001000\<rparr>, demo_map\<lparr>m_flags := 6\<rparr>#}" by (rule own_inv_relabel) simp_all
  moreover have pg: "m_pages (demo_map\<lparr>m_flags := 6\<rparr>) q = m_pages demo_map q"
    "m_pages (demo_other\<lparr>m_paddr := 0x10001000\<rparr>) q = m_pages demo_other q" for q by (simp_all add: m_pages_def)
  moreover have "as_ok (v_maps stale_vm)"
    by (simp add: stale_vm_def as_ok_def m_lo_def m_hi_def) (simp add: demo_map_def demo_other_def)
  moreover have "tlb_ok (v_maps stale_vm) (v_tlb stale_vm)" by (simp add: tlb_ok_def stale_vm_def)
  moreover have "prot_ok demo_host (demo_map\<lparr>m_flags := 6\<rparr>)" "prot_ok demo_host (demo_other\<lparr>m_paddr := 0x10001000\<rparr>)"
    unfolding prot_ok_def pg demo_pages by (simp_all add: demo_host_def ex_bool_eq)
  ultimately show ?thesis by (simp add: vm_ok_def mem_ok_def stale_vm_def demo_vm_def add_mset_commute) (simp add: demo_host_def)
qed

definition stale_host :: host where
  "stale_host = demo_host\<lparr>os_calls := 1, hpages := (\<lambda>q. if q = Page 0 0 then Some (True, False) else if q = Page 1 0 then Some (True, True) else None)\<rparr>"

lemma stale_mprotect: "host_mprotect (Ptr 0 0) 4096 1 demo_host = (True, stale_host)"
proof -
  have "in_pages (Ptr 0 0) 4096 q \<longleftrightarrow> q = Page 0 0" for q by (cases q) (auto simp: in_pages_def)
  then show ?thesis by (simp add: host_mprotect_def demo_host_def stale_host_def upt_rec page_prot_def fun_eq_iff Let_def ex_bool_eq)
qed

lemma stale_loop:
  "mprotect_loop E 0x10000000 0x10002000 4 1 0 False (v_maps stale_vm) (v_host stale_vm)
    = (Inl (- EACCES), [demo_map\<lparr>m_flags := 4\<rparr>, demo_other\<lparr>m_paddr := 0x10001000\<rparr>], stale_host)"
proof -
  note d = stale_vm_def demo_vm_def mp_overlap_def need_split_def sub_lo_def sub_hi_def m_end_of_def
  have m: "m_paddr demo_map = 0x10000000" "m_size demo_map = 4096" "m_owned demo_map" "m_data demo_map = Ptr 0 0"
    "m_size demo_other = 4096" "m_flags demo_other = 7"
    by (simp_all add: demo_map_def demo_other_def)
  have "mprotect_whole E 4 1 (v_maps stale_vm ! 0) (v_host stale_vm) = (None, demo_map\<lparr>m_flags := 4\<rparr>, stale_host)"
    by (simp add: mprotect_whole_def d m stale_mprotect new_prot_def)
  then show ?thesis
    by (subst mprotect_loop_whole [where e = None and m = "demo_map\<lparr>m_flags := 4\<rparr>" and ?h1.0 = stale_host])
       (simp_all add: d m mprotect_loop.simps [of E _ _ _ _ "Suc 0"])
qed

text \<open>
  C18: an mprotect that fails on its second mapping has changed the first and does not flush the
  TLB. From a state that satisfies the invariant in strict mode, the call returns EACCES, the TLB is
  stale, and the next store of the guest to the first mapping faults on the host instead of raising
  SIGSEGV in the guest.
\<close>

theorem mprotect_stale_tlb:
  "vm_ok True {#} stale_vm
   \<and> (case do_mprotect E stale_vm of (r, s') \<Rightarrow> r = - EACCES \<and> \<not> tlb_ok (v_maps s') (v_tlb s')
        \<and> guest_write s' 0x10000000 (replicate 8 0) = None
        \<and> map_option fst (guest_write (flush_tlb s') 0x10000000 (replicate 8 0)) = Some False)"
proof -
  have f: "prot_flags 1 = 4" by (simp add: prot_flags_def)
  have d: "do_mprotect E stale_vm =
      (- EACCES, stale_vm\<lparr>v_maps := [demo_map\<lparr>m_flags := 4\<rparr>, demo_other\<lparr>m_paddr := 0x10001000\<rparr>], v_host := stale_host\<rparr>)"
    using stale_loop [of E] by (simp add: do_mprotect_def stale_vm_def f Let_def)
  have "\<not> tlb_ok [demo_map\<lparr>m_flags := 4\<rparr>, demo_other\<lparr>m_paddr := 0x10001000\<rparr>] (v_tlb stale_vm)"
    unfolding tlb_ok_def by (auto simp: stale_vm_def tlb_of_def tlb_zero_def demo_map_def demo_other_def intro!: exI [of _ "tlb_index 0x10000000"])
  then show ?thesis unfolding d
    by (simp add: stale_vm_ok) (simp add: stale_vm_def flush_tlb_def demo_eval demo_other_def stale_host_def mem_eval ex_bool_eq)
qed

end
