(* ===== verification/Posix_Kernel.thy ===== *)
theory Posix_Kernel
  imports Interp
begin

text \<open>
  The state that the tasks of class PosixSyscall share (src/posix/posix_syscall.h): tasks, thread
  groups, process-level state, sessions, the process table and the futex table. Objects live under
  numbers; k_live says which vm objects still exist, so that locking a weak pointer succeeds. The
  process table is a list in the order in which the hash table iterates, which the sources leave
  open. Locks are not modelled: an operation is one step of its task.
\<close>

subsection \<open>Events and shared objects\<close>

record SigEvent =
  ev_sig :: int
  ev_sender :: u64
  ev_code :: int
  ev_status :: int
  ev_value :: u64

record signal_action =
  sa_handler :: u64
  sa_mask :: u64
  sa_flags :: int

record signalfd_siginfo =
  ssi_signo :: u32
  ssi_code :: int
  ssi_status :: int
  ssi_pid :: u32
  ssi_int :: int
  ssi_ptr :: u64

text \<open>
  Virtual files: a directory has its entries, each a name with its type, and the index of the next
  entry to list; a file of /proc has its text and the position of the next read.
\<close>

datatype virtual_file = NotVirtual | VirtualDir "(string \<times> u8) list" int | ProcFile string int

text \<open>
  A file descriptor object. fd_host tells descriptors of the host from virtual files; SignalFd has
  the set of signals it takes and the records that its pipe accepted; DevFd has its terminal and, on
  the master side, the token whose uses are counted. The path is the one the guest sees, and empty
  for objects without a name.
\<close>

record Fd =
  fd_cloexec :: bool
  fd_host :: bool
  fd_signal :: "(u64 \<times> signalfd_siginfo list) option"
  fd_tty :: "nat option"
  fd_master :: "nat option"
  fd_path :: string
  fd_virt :: virtual_file

record SharedState =
  ps_cwd :: string
  ps_actions :: "nat \<Rightarrow> signal_action"
  ps_root :: string
  ps_exe_path :: string
  ps_umask :: u32
  ps_fds :: "(int \<times> nat) list"

record ThreadGroup =
  tg_tgid :: u64
  tg_ppid :: u64
  tg_live_threads :: nat
  tg_exited :: bool
  tg_exit_code :: int
  tg_stopped :: bool
  tg_stop_sig :: int
  tg_stop_reported :: bool
  tg_waiters :: "nat list"
  tg_threads :: "nat list"

record GuestTty =
  tty_fg_pgrp :: u64
  tty_owner :: "nat option"
  tty_ptn :: int

record Session =
  ss_sid :: u64
  ss_ctty :: "nat option"

record task =
  t_pid :: u64
  t_flags :: u32
  t_sigmask :: u64
  t_pending :: "SigEvent list"
  t_tid_address :: u64
  t_tid :: bool
  t_tg :: nat
  t_ps :: nat
  t_pgid :: u64
  t_session :: nat
  t_comm :: string

text \<open>
  k_me is the task that runs; k_kicked lists the tasks whose host thread got SIGUSR1, which makes a
  blocking host call return; k_token counts the uses of a master token and k_ptmx is the registry of
  terminals by number; k_write_ok says which writes to signalfd pipes the host accepts.
\<close>

record kern =
  k_me :: nat
  k_task :: "nat \<Rightarrow> task"
  k_live :: "nat \<Rightarrow> bool"
  k_tg :: "nat \<Rightarrow> ThreadGroup"
  k_ps :: "nat \<Rightarrow> SharedState"
  k_session :: "nat \<Rightarrow> Session"
  k_tty :: "nat \<Rightarrow> GuestTty"
  k_fd :: "nat \<Rightarrow> Fd"
  k_token :: "nat \<Rightarrow> nat"
  k_ptmx :: "(int \<times> nat) list"
  k_pid_map :: "(u64 \<times> nat) list"
  k_futex :: "nat \<times> u64 \<Rightarrow> nat list option"
  k_next_pid :: u64
  k_kicked :: "nat list"
  k_write_ok :: "nat \<Rightarrow> bool"
  k_writes :: nat

subsection \<open>Updates\<close>

definition upd_task :: "nat \<Rightarrow> (task \<Rightarrow> task) \<Rightarrow> kern \<Rightarrow> kern" where
  "upd_task t f k = k\<lparr>k_task := (k_task k)(t := f (k_task k t))\<rparr>"

definition upd_tg :: "nat \<Rightarrow> (ThreadGroup \<Rightarrow> ThreadGroup) \<Rightarrow> kern \<Rightarrow> kern" where
  "upd_tg g f k = k\<lparr>k_tg := (k_tg k)(g := f (k_tg k g))\<rparr>"

definition upd_ps :: "nat \<Rightarrow> (SharedState \<Rightarrow> SharedState) \<Rightarrow> kern \<Rightarrow> kern" where
  "upd_ps p f k = k\<lparr>k_ps := (k_ps k)(p := f (k_ps k p))\<rparr>"

definition upd_fd :: "nat \<Rightarrow> (Fd \<Rightarrow> Fd) \<Rightarrow> kern \<Rightarrow> kern" where
  "upd_fd i f k = k\<lparr>k_fd := (k_fd k)(i := f (k_fd k i))\<rparr>"

definition or_flags :: "u32 \<Rightarrow> nat \<Rightarrow> kern \<Rightarrow> kern" where
  "or_flags fl t = upd_task t (\<lambda>T. T\<lparr>t_flags := t_flags T OR fl\<rparr>)"

definition and_flags :: "u32 \<Rightarrow> nat \<Rightarrow> kern \<Rightarrow> kern" where
  "and_flags fl t = upd_task t (\<lambda>T. T\<lparr>t_flags := t_flags T AND NOT fl\<rparr>)"

definition task_flag :: "kern \<Rightarrow> nat \<Rightarrow> u32 \<Rightarrow> bool" where
  "task_flag k t fl \<longleftrightarrow> t_flags (k_task k t) AND fl \<noteq> 0"

abbreviation tg_of :: "kern \<Rightarrow> nat \<Rightarrow> ThreadGroup" where
  "tg_of k t \<equiv> k_tg k (t_tg (k_task k t))"

abbreviation ps_of :: "kern \<Rightarrow> nat \<Rightarrow> SharedState" where
  "ps_of k t \<equiv> k_ps k (t_ps (k_task k t))"

text \<open>vm::wakeup: the broadcast lets a sleeping thread read its flags again.\<close>

definition wakeup :: "bool \<Rightarrow> nat \<Rightarrow> kern \<Rightarrow> kern" where
  "wakeup clear_blocked t k = (if clear_blocked then and_flags VM_BLOCKED t k else k)"

text \<open>The live threads of a group, in order.\<close>

definition live_threads :: "kern \<Rightarrow> nat \<Rightarrow> nat list" where
  "live_threads k g = filter (k_live k) (tg_threads (k_tg k g))"

definition wake_waiters :: "nat \<Rightarrow> kern \<Rightarrow> kern" where
  "wake_waiters g k =
     fold (wakeup True) (filter (k_live k) (tg_waiters (k_tg k g))) (upd_tg g (\<lambda>G. G\<lparr>tg_waiters := []\<rparr>) k)"

definition remove_waiter :: "nat \<Rightarrow> nat \<Rightarrow> kern \<Rightarrow> kern" where
  "remove_waiter g v k = upd_tg g (\<lambda>G. G\<lparr>tg_waiters := filter (\<lambda>w. k_live k w \<and> w \<noteq> v) (tg_waiters G)\<rparr>) k"

definition kick :: "nat \<Rightarrow> kern \<Rightarrow> kern" where
  "kick t k = (if t_tid (k_task k t) then k\<lparr>k_kicked := k_kicked k @ [t]\<rparr> else k)"

definition find_task :: "kern \<Rightarrow> u64 \<Rightarrow> nat option" where
  "find_task k p = map_of (k_pid_map k) p"

definition list_pids :: "kern \<Rightarrow> u64 list" where
  "list_pids k = map fst (k_pid_map k)"

subsection \<open>The file descriptor table\<close>

definition find_fd :: "SharedState \<Rightarrow> int \<Rightarrow> nat option" where
  "find_fd S fd = map_of (ps_fds S) fd"

text \<open>The lowest free number from min_fd; the search ends because the table is finite.\<close>

function first_free :: "(int \<times> 'a) list \<Rightarrow> int \<Rightarrow> int" where
  "first_free m fd = (if fd \<in> fst ` set m then first_free m (fd + 1) else fd)"
  by pat_completeness auto

lemma first_free_measure:
  assumes "fd \<in> fst ` set m"
  shows "card {i \<in> fst ` set m. fd + 1 \<le> i} < card {i \<in> fst ` set m. fd \<le> (i :: int)}"
proof (rule psubset_card_mono)
  show "{i \<in> fst ` set m. fd + 1 \<le> i} \<subset> {i \<in> fst ` set m. fd \<le> i}" using assms by force
qed simp

termination first_free
  by (relation "measure (\<lambda>(m, fd). card {i \<in> fst ` set m. fd \<le> i})") (auto simp: first_free_measure [simplified])

declare first_free.simps [simp del]

definition fds_emplace :: "nat \<Rightarrow> int \<Rightarrow> SharedState \<Rightarrow> int \<times> SharedState" where
  "fds_emplace h min_fd S = (let fd = first_free (ps_fds S) min_fd in (fd, S\<lparr>ps_fds := ps_fds S @ [(fd, h)]\<rparr>))"

subsection \<open>The signal queue\<close>

abbreviation (input) BPF_SIGNAL_QUE_SIZE :: nat where "BPF_SIGNAL_QUE_SIZE \<equiv> 1024"

definition queue_push :: "SigEvent \<Rightarrow> SigEvent list \<Rightarrow> bool \<times> SigEvent list" where
  "queue_push v q = (if length q \<ge> BPF_SIGNAL_QUE_SIZE then (False, q) else (True, q @ [v]))"

definition queue_pop :: "SigEvent list \<Rightarrow> (SigEvent \<times> SigEvent list) option" where
  "queue_pop q = (case q of [] \<Rightarrow> None | v # q' \<Rightarrow> Some (v, q'))"

definition queue_empty :: "SigEvent list \<Rightarrow> bool" where
  "queue_empty q \<longleftrightarrow> q = []"

subsection \<open>Simplification\<close>

lemma upd_simps [simp]:
  "k_task (upd_task t f k) = (k_task k)(t := f (k_task k t))" "k_live (upd_task t f k) = k_live k" "k_tg (upd_task t f k) = k_tg k"
  "k_ps (upd_task t f k) = k_ps k" "k_pid_map (upd_task t f k) = k_pid_map k" "k_kicked (upd_task t f k) = k_kicked k"
  "k_fd (upd_task t f k) = k_fd k" "k_futex (upd_task t f k) = k_futex k" "k_me (upd_task t f k) = k_me k" "k_session (upd_task t f k) = k_session k"
  "k_tg (upd_tg g h k) = (k_tg k)(g := h (k_tg k g))" "k_task (upd_tg g h k) = k_task k" "k_live (upd_tg g h k) = k_live k"
  "k_ps (upd_tg g h k) = k_ps k" "k_pid_map (upd_tg g h k) = k_pid_map k" "k_kicked (upd_tg g h k) = k_kicked k"
  "k_fd (upd_tg g h k) = k_fd k" "k_futex (upd_tg g h k) = k_futex k" "k_me (upd_tg g h k) = k_me k" "k_session (upd_tg g h k) = k_session k"
  by (simp_all add: upd_task_def upd_tg_def)

lemma flags_simps [simp]:
  "k_live (or_flags fl t k) = k_live k" "k_tg (or_flags fl t k) = k_tg k" "k_ps (or_flags fl t k) = k_ps k"
  "k_pid_map (or_flags fl t k) = k_pid_map k" "k_kicked (or_flags fl t k) = k_kicked k" "k_futex (or_flags fl t k) = k_futex k" "k_me (or_flags fl t k) = k_me k"
  "k_live (and_flags fl t k) = k_live k" "k_tg (and_flags fl t k) = k_tg k" "k_ps (and_flags fl t k) = k_ps k"
  "k_pid_map (and_flags fl t k) = k_pid_map k" "k_kicked (and_flags fl t k) = k_kicked k" "k_futex (and_flags fl t k) = k_futex k" "k_me (and_flags fl t k) = k_me k"
  by (simp_all add: or_flags_def and_flags_def)

lemma wakeup_simps [simp]:
  "k_live (wakeup b t k) = k_live k" "k_tg (wakeup b t k) = k_tg k" "k_ps (wakeup b t k) = k_ps k" "k_pid_map (wakeup b t k) = k_pid_map k"
  "k_futex (wakeup b t k) = k_futex k" "k_me (wakeup b t k) = k_me k" "k_kicked (wakeup b t k) = k_kicked k"
  by (simp_all add: wakeup_def)

lemma kick_simps [simp]:
  "k_task (kick t k) = k_task k" "k_live (kick t k) = k_live k" "k_tg (kick t k) = k_tg k" "k_ps (kick t k) = k_ps k" "k_pid_map (kick t k) = k_pid_map k"
  "k_futex (kick t k) = k_futex k" "k_me (kick t k) = k_me k"
  by (simp_all add: kick_def)

end
