(* ===== verification/Posix_Signal.thy ===== *)
theory Posix_Signal
  imports Posix_Kernel
begin

text \<open>
  Signals between tasks (src/posix/signal.cpp): default actions, queueing with its classes of
  signals, stopping and continuing a thread group, the choice of the next signal to deliver, signal
  descriptors, and the kill family. NSIG is 32, as posix_syscall.h defines it.
\<close>

abbreviation (input) NSIG :: int where "NSIG \<equiv> 32"

abbreviation (input) SIGKILL :: int where "SIGKILL \<equiv> 9"
abbreviation (input) SIGCHLD :: int where "SIGCHLD \<equiv> 17"
abbreviation (input) SIGCONT :: int where "SIGCONT \<equiv> 18"
abbreviation (input) SIGSTOP :: int where "SIGSTOP \<equiv> 19"

abbreviation (input) SI_USER :: int where "SI_USER \<equiv> 0"
abbreviation (input) SI_QUEUE :: int where "SI_QUEUE \<equiv> - 1"
abbreviation (input) SI_KERNEL :: int where "SI_KERNEL \<equiv> 128"
abbreviation (input) CLD_EXITED :: int where "CLD_EXITED \<equiv> 1"
abbreviation (input) CLD_KILLED :: int where "CLD_KILLED \<equiv> 2"
abbreviation (input) CLD_STOPPED :: int where "CLD_STOPPED \<equiv> 5"

abbreviation (input) EPERM :: int where "EPERM \<equiv> 1"
abbreviation (input) ESRCH :: int where "ESRCH \<equiv> 3"

definition handler_is_default :: "u64 \<Rightarrow> bool" where
  "handler_is_default h \<longleftrightarrow> h = 0"

definition handler_is_ignored :: "u64 \<Rightarrow> bool" where
  "handler_is_ignored h \<longleftrightarrow> h = 1"

subsection \<open>Classes of signals\<close>

definition is_default_term :: "int \<Rightarrow> bool" where
  "is_default_term sig \<longleftrightarrow> sig \<in> {1, 2, 3, 4, 5, 6, 7, 8, 10, 11, 12, 13, 14, 15, 16, 26, 27, 24, 25}"

definition is_default_stop :: "int \<Rightarrow> bool" where
  "is_default_stop sig \<longleftrightarrow> sig = 20 \<or> sig = 21 \<or> sig = 22"

definition action_of :: "kern \<Rightarrow> nat \<Rightarrow> int \<Rightarrow> signal_action" where
  "action_of k t sig = ps_actions (ps_of k t) (nat sig)"

definition signal_ignorable :: "kern \<Rightarrow> nat \<Rightarrow> int \<Rightarrow> bool" where
  "signal_ignorable k t sig \<longleftrightarrow>
     (if sig \<le> 0 \<or> sig \<ge> NSIG then False
      else if handler_is_ignored (sa_handler (action_of k t sig)) then True
      else if \<not> handler_is_default (sa_handler (action_of k t sig)) then False
      else \<not> is_default_term sig \<and> \<not> is_default_stop sig)"

definition sig_bit :: "int \<Rightarrow> u64" where
  "sig_bit sig = (if 1 \<le> sig \<and> sig < NSIG then push_bit (nat (sig - 1)) 1 else 0)"

definition blocked_by :: "u64 \<Rightarrow> int \<Rightarrow> bool" where
  "blocked_by mk sig \<longleftrightarrow> sig_bit sig \<noteq> 0 \<and> mk AND sig_bit sig \<noteq> 0"

subsection \<open>Queueing\<close>

text \<open>The end of queue_signal: the event enters the queue with the pending flag, unless the queue is full.\<close>

definition enqueue_signal :: "nat \<Rightarrow> SigEvent \<Rightarrow> kern \<Rightarrow> kern" where
  "enqueue_signal t ev k =
     (if length (t_pending (k_task k t)) \<ge> BPF_SIGNAL_QUE_SIZE then k
      else kick t (wakeup False t (or_flags VM_SIGNAL_PENDING t (upd_task t (\<lambda>T. T\<lparr>t_pending := t_pending T @ [ev]\<rparr>) k))))"

definition cont_group :: "nat \<Rightarrow> kern \<Rightarrow> kern" where
  "cont_group g k =
     fold (\<lambda>t k. wakeup False t (and_flags VM_STOPPED t k)) (live_threads k g) (upd_tg g (\<lambda>G. G\<lparr>tg_stopped := False\<rparr>) k)"

text \<open>queue_signal for the signals that do not stop the group at once.\<close>

definition queue_nonstop :: "nat \<Rightarrow> SigEvent \<Rightarrow> kern \<Rightarrow> kern" where
  "queue_nonstop t ev k =
     (let sig = ev_sig ev in
      if sig = SIGKILL then kick t (wakeup False t (or_flags VM_KILLED t k))
      else if sig = SIGCONT then cont_group (t_tg (k_task k t)) k
      else if signal_ignorable k t sig \<and> \<not> blocked_by (t_sigmask (k_task k t)) sig then k
      else enqueue_signal t ev k)"

definition child_report :: "ThreadGroup \<Rightarrow> int \<times> int" where
  "child_report G =
     (if tg_exited G then
        (if tg_exit_code G \<ge> 128 then (CLD_KILLED, tg_exit_code G - 128) else (CLD_EXITED, tg_exit_code G))
      else if tg_stopped G then (CLD_STOPPED, tg_stop_sig G)
      else (CLD_EXITED, 0))"

text \<open>SIGCHLD is never among the signals that stop a group, so the parent's queue_signal is queue_nonstop.\<close>

definition notify_parent_sigchld :: "nat \<Rightarrow> kern \<Rightarrow> kern" where
  "notify_parent_sigchld t k =
     (let g = t_tg (k_task k t); k1 = wake_waiters g k; G = k_tg k1 g in
      if tg_ppid G = 0 then k1
      else (case find_task k1 (tg_ppid G) of
              None \<Rightarrow> k1
            | Some p \<Rightarrow>
                queue_nonstop p \<lparr>ev_sig = SIGCHLD, ev_sender = t_pid (k_task k t), ev_code = fst (child_report G),
                                 ev_status = snd (child_report G), ev_value = 0\<rparr> k1))"

definition stop_process :: "nat \<Rightarrow> int \<Rightarrow> kern \<Rightarrow> kern" where
  "stop_process t sig k =
     (let g = t_tg (k_task k t);
          k1 = upd_tg g (\<lambda>G. G\<lparr>tg_stopped := True, tg_stop_sig := sig\<rparr>) k;
          k2 = fold (\<lambda>v k. wakeup False v (or_flags VM_STOPPED v k)) (live_threads k1 g) k1
      in if tg_stop_reported (k_tg k2 g) then k2
         else notify_parent_sigchld t (upd_tg g (\<lambda>G. G\<lparr>tg_stop_reported := True\<rparr>) k2))"

definition queue_signal :: "nat \<Rightarrow> SigEvent \<Rightarrow> kern \<Rightarrow> kern" where
  "queue_signal t ev k =
     (let sig = ev_sig ev;
          stop_dfl = (is_default_stop sig \<and> handler_is_default (sa_handler (action_of k t sig)))
      in if sig \<noteq> SIGKILL \<and> (sig = SIGSTOP \<or> stop_dfl) then stop_process t sig k else queue_nonstop t ev k)"

subsection \<open>Signal descriptors\<close>

definition siginfo_of :: "SigEvent \<Rightarrow> signalfd_siginfo" where
  "siginfo_of ev = \<lparr>ssi_signo = word_of_int (ev_sig ev), ssi_code = ev_code ev, ssi_status = ev_status ev,
     ssi_pid = ucast (ev_sender ev), ssi_int = sint (ucast (ev_value ev) :: u32), ssi_ptr = ev_value ev\<rparr>"

definition signalfd_deliver :: "nat \<Rightarrow> SigEvent \<Rightarrow> kern \<Rightarrow> bool \<times> kern" where
  "signalfd_deliver i ev k =
     (case fd_signal (k_fd k i) of
        None \<Rightarrow> (False, k)
      | Some (mk, out) \<Rightarrow>
          if ev_sig ev \<le> 0 \<or> ev_sig ev \<ge> NSIG \<or> mk AND push_bit (nat (ev_sig ev - 1)) 1 = 0 then (False, k)
          else (True, (if k_write_ok k (k_writes k) then upd_fd i (\<lambda>F. F\<lparr>fd_signal := Some (mk, out @ [siginfo_of ev])\<rparr>) k else k)
                        \<lparr>k_writes := Suc (k_writes k)\<rparr>))"

fun deliver_first :: "nat list \<Rightarrow> SigEvent \<Rightarrow> kern \<Rightarrow> bool \<times> kern" where
  "deliver_first [] ev k = (False, k)"
| "deliver_first (i # fs) ev k = (case signalfd_deliver i ev k of (True, k') \<Rightarrow> (True, k') | (False, k') \<Rightarrow> deliver_first fs ev k')"

definition signalfds_of :: "kern \<Rightarrow> nat \<Rightarrow> nat list" where
  "signalfds_of k t = filter (\<lambda>i. fd_signal (k_fd k i) \<noteq> None) (map snd (ps_fds (ps_of k t)))"

subsection \<open>Choosing the signal to deliver\<close>

text \<open>
  The loop of handle_signals over the queue: the chosen event, what is left of the queue, and the
  blocked events set aside. An event number 0 says that no event was chosen.
\<close>

definition no_event :: SigEvent where
  "no_event = \<lparr>ev_sig = 0, ev_sender = 0, ev_code = 0, ev_status = 0, ev_value = 0\<rparr>"

fun scan_pending :: "nat \<Rightarrow> u64 \<Rightarrow> nat list \<Rightarrow> SigEvent list \<Rightarrow> kern \<Rightarrow> SigEvent \<times> SigEvent list \<times> SigEvent list \<times> kern" where
  "scan_pending 0 mk sfds q k = (no_event, q, [], k)"
| "scan_pending (Suc n) mk sfds [] k = (no_event, [], [], k)"
| "scan_pending (Suc n) mk sfds (e # q) k =
     (if blocked_by mk (ev_sig e) then
        (case deliver_first sfds e k of
           (True, k') \<Rightarrow> scan_pending n mk sfds q k'
         | (False, k') \<Rightarrow> (case scan_pending n mk sfds q k' of (c, r, d, k'') \<Rightarrow> (c, r, e # d, k'')))
      else (e, q, [], k))"

definition take_signal :: "nat \<Rightarrow> kern \<Rightarrow> SigEvent \<times> kern" where
  "take_signal t k =
     (case scan_pending BPF_SIGNAL_QUE_SIZE (t_sigmask (k_task k t)) (signalfds_of k t) (t_pending (k_task k t)) k of
        (chosen, left, deferred, k1) \<Rightarrow>
          (let k2 = upd_task t (\<lambda>T. T\<lparr>t_pending := left @ deferred\<rparr>) k1 in
           (chosen, if ev_sig chosen = 0 \<and> deferred = [] \<and> left @ deferred = [] then and_flags VM_SIGNAL_PENDING t k2 else k2)))"

subsection \<open>The mask\<close>

text \<open>The bits a mask may have: numbers below NSIG, without SIGKILL and SIGSTOP.\<close>

definition mask_bits :: "u64 \<Rightarrow> u64" where
  "mask_bits bits = (bits AND (push_bit 31 1 - 1)) AND NOT (push_bit 8 1 OR push_bit 18 1)"

text \<open>A new mask; what is queued may have become deliverable, so the pending flag is set again.\<close>

definition set_mask :: "nat \<Rightarrow> u64 \<Rightarrow> kern \<Rightarrow> kern" where
  "set_mask t m k =
     (let k1 = upd_task t (\<lambda>T. T\<lparr>t_sigmask := m\<rparr>) k in
      if queue_empty (t_pending (k_task k1 t)) then k1 else wakeup False t (or_flags VM_SIGNAL_PENDING t k1))"

subsection \<open>Exit\<close>

definition set_exit_code :: "nat \<Rightarrow> int \<Rightarrow> kern \<Rightarrow> kern" where
  "set_exit_code g code = upd_tg g (\<lambda>G. if tg_exit_code G = - 1 then G\<lparr>tg_exit_code := code\<rparr> else G)"

definition sigkill :: "u64 \<Rightarrow> SigEvent" where
  "sigkill sender = \<lparr>ev_sig = SIGKILL, ev_sender = sender, ev_code = SI_USER, ev_status = 0, ev_value = 0\<rparr>"

definition exit_group :: "nat \<Rightarrow> int \<Rightarrow> kern \<Rightarrow> kern" where
  "exit_group t code k =
     (let g = t_tg (k_task k t); k1 = set_exit_code g code k in
      or_flags VM_EXITED t (fold (\<lambda>v. queue_signal v (sigkill (t_pid (k_task k t)))) (filter (\<lambda>v. v \<noteq> t) (live_threads k1 g)) k1))"

subsection \<open>Delivery\<close>

datatype delivery = Nothing | Terminate int | Caught SigEvent signal_action

text \<open>
  handle_signals without the registers: nothing to run, the exit code of a fatal signal, or the event
  and the action whose handler the machine enters.
\<close>

definition deliver_next :: "nat \<Rightarrow> kern \<Rightarrow> delivery \<times> kern" where
  "deliver_next t k =
     (let (ev, k1) = take_signal t k; sig = ev_sig ev; act = action_of k1 t sig in
      if sig \<le> 0 \<or> sig \<ge> NSIG then (Nothing, k1)
      else if handler_is_ignored (sa_handler act) then (Nothing, k1)
      else if handler_is_default (sa_handler act) then
        (if is_default_term sig then (Terminate (128 + sig), exit_group t (128 + sig) k1)
         else if is_default_stop sig then (Nothing, stop_process t sig k1)
         else (Nothing, k1))
      else (Caught ev act, k1))"

subsection \<open>The kill family\<close>

definition send_targets :: "kern \<Rightarrow> nat \<Rightarrow> int \<Rightarrow> nat list" where
  "send_targets k t target_pid =
     (if target_pid > 0 then (case find_task k (word_of_int target_pid) of None \<Rightarrow> [] | Some v \<Rightarrow> [v])
      else if target_pid = 0 then filter (\<lambda>v. t_pgid (k_task k v) = t_pgid (k_task k t)) (map snd (k_pid_map k))
      else if target_pid = - 1 then filter (\<lambda>v. t_pid (k_task k v) \<noteq> 1 \<and> t_pid (k_task k v) \<noteq> t_pid (k_task k t)) (map snd (k_pid_map k))
      else filter (\<lambda>v. t_pgid (k_task k v) = word_of_int (- target_pid)) (map snd (k_pid_map k)))"

definition send_one :: "SigEvent \<Rightarrow> nat \<Rightarrow> kern \<Rightarrow> kern" where
  "send_one ev v k =
     (if ev_sig ev = SIGKILL then fold (\<lambda>w. queue_signal w ev) (live_threads k (t_tg (k_task k v))) k
      else queue_signal v ev k)"

definition send_sig_info :: "nat \<Rightarrow> int \<Rightarrow> int \<Rightarrow> int \<Rightarrow> u64 \<Rightarrow> kern \<Rightarrow> int \<times> kern" where
  "send_sig_info t target_pid sig code value k =
     (let targets = send_targets k t target_pid in
      if targets = [] then (- ESRCH, k)
      else if sig = 0 then (0, k)
      else (0, fold (send_one \<lparr>ev_sig = sig, ev_sender = t_pid (k_task k t), ev_code = code, ev_status = 0, ev_value = value\<rparr>) targets k))"

definition kill_call :: "nat \<Rightarrow> int \<Rightarrow> int \<Rightarrow> kern \<Rightarrow> int \<times> kern" where
  "kill_call t target_pid sig k = (if sig < 0 \<or> sig \<ge> NSIG then (- EINVAL, k) else send_sig_info t target_pid sig SI_USER 0 k)"

definition tkill_call :: "nat \<Rightarrow> int \<Rightarrow> int \<Rightarrow> kern \<Rightarrow> int \<times> kern" where
  "tkill_call t tid sig k =
     (if sig < 0 \<or> sig \<ge> NSIG \<or> tid \<le> 0 then (- EINVAL, k)
      else (case find_task k (word_of_int tid) of
              None \<Rightarrow> (- ESRCH, k)
            | Some v \<Rightarrow> if sig = 0 then (0, k)
                else (0, queue_signal v \<lparr>ev_sig = sig, ev_sender = t_pid (k_task k t), ev_code = SI_USER, ev_status = 0, ev_value = 0\<rparr> k)))"

definition tgkill_call :: "nat \<Rightarrow> int \<Rightarrow> int \<Rightarrow> int \<Rightarrow> kern \<Rightarrow> int \<times> kern" where
  "tgkill_call t tgid tid sig k =
     (if sig < 0 \<or> sig \<ge> NSIG \<or> tid \<le> 0 \<or> tgid \<le> 0 then (- EINVAL, k)
      else (case find_task k (word_of_int tid) of
              None \<Rightarrow> (- ESRCH, k)
            | Some v \<Rightarrow>
                if tg_tgid (tg_of k v) \<noteq> word_of_int tgid then (- ESRCH, k)
                else if sig = 0 then (0, k)
                else (0, queue_signal v \<lparr>ev_sig = sig, ev_sender = t_pid (k_task k t), ev_code = SI_USER, ev_status = 0, ev_value = 0\<rparr> k)))"

text \<open>
  Signals from the host terminal: the foreground group of the controlling terminal, or the group of
  the task when its session has none.
\<close>

definition ctty_targets :: "kern \<Rightarrow> nat \<Rightarrow> nat option \<Rightarrow> nat list" where
  "ctty_targets k t tty =
     filter (\<lambda>v. t_pgid (k_task k v) = (case tty of Some y \<Rightarrow> tty_fg_pgrp (k_tty k y) | None \<Rightarrow> t_pgid (k_task k t))
                 \<and> (case tty of Some y \<Rightarrow> ss_ctty (k_session k (t_session (k_task k v))) = Some y
                     | None \<Rightarrow> t_session (k_task k v) = t_session (k_task k t)))
            (map snd (k_pid_map k))"

definition deliver_to_ctty_fg :: "nat \<Rightarrow> nat option \<Rightarrow> int \<Rightarrow> kern \<Rightarrow> kern" where
  "deliver_to_ctty_fg t tty sig k =
     (let ev = \<lparr>ev_sig = sig, ev_sender = 0, ev_code = SI_KERNEL, ev_status = 0, ev_value = 0\<rparr> in
      if sig \<le> 0 then k
      else if (case tty of Some y \<Rightarrow> tty_owner (k_tty k y) = None | None \<Rightarrow> False) then k
      else if ctty_targets k t tty = [] then (if tty \<noteq> None then k else queue_signal t ev k)
      else fold (\<lambda>v. queue_signal v ev) (ctty_targets k t tty) k)"

definition host_signal :: "nat \<Rightarrow> int \<Rightarrow> kern \<Rightarrow> kern" where
  "host_signal t sig k =
     (if sig = 0 then kick t (wakeup False t k)
      else deliver_to_ctty_fg t (ss_ctty (k_session k (t_session (k_task k t)))) sig k)"

end
