(* ===== verification/Posix_Fd.thy ===== *)
theory Posix_Fd
  imports Posix_Signal
begin

text \<open>
  File descriptors (src/posix/fd_ops.cpp, src/posix/fs.cpp and do_close of src/posix/file_io.cpp):
  the table of a process, duplication and closing with the hang-up of a pseudo terminal, job control
  through a terminal, and the translation of poll and select. What the host does with its own
  descriptors is an argument: an error number, zero for success, or the answer of the host's poll.
  Objects get numbers that are not in use.
\<close>

abbreviation (input) EBADF :: int where "EBADF \<equiv> 9"
abbreviation (input) ENOTTY :: int where "ENOTTY \<equiv> 25"
abbreviation (input) SIGHUP :: int where "SIGHUP \<equiv> 1"

subsection \<open>The table\<close>

definition put_fd :: "int \<Rightarrow> nat \<Rightarrow> SharedState \<Rightarrow> SharedState" where
  "put_fd fd i S = S\<lparr>ps_fds := (fd, i) # filter (\<lambda>(f, j). f \<noteq> fd) (ps_fds S)\<rparr>"

definition erase_fd :: "int \<Rightarrow> SharedState \<Rightarrow> SharedState" where
  "erase_fd fd S = S\<lparr>ps_fds := filter (\<lambda>(f, j). f \<noteq> fd) (ps_fds S)\<rparr>"

definition emplace_fd :: "nat \<Rightarrow> nat \<Rightarrow> int \<Rightarrow> kern \<Rightarrow> int \<times> kern" where
  "emplace_fd t i min_fd k =
     (case fds_emplace i min_fd (ps_of k t) of (fd, S) \<Rightarrow> (fd, upd_ps (t_ps (k_task k t)) (\<lambda>_. S) k))"

subsection \<open>Objects\<close>

definition host_fd_obj :: "bool \<Rightarrow> Fd" where
  "host_fd_obj cloexec = \<lparr>fd_cloexec = cloexec, fd_host = True, fd_signal = None, fd_tty = None, fd_master = None, fd_path = [], fd_virt = NotVirtual\<rparr>"

definition new_fd :: "nat \<Rightarrow> Fd \<Rightarrow> kern \<Rightarrow> kern" where
  "new_fd i F k = k\<lparr>k_fd := (k_fd k)(i := F), k_token := (case fd_master F of None \<Rightarrow> k_token k | Some m \<Rightarrow> (k_token k)(m := k_token k m + 1))\<rparr>"

text \<open>
  The virtual method clone. A descriptor of the host is duplicated without its close-on-exec flag, a
  signal descriptor gets a pipe of its own, a terminal keeps its terminal and token; a virtual file is
  copied with its flag and starts from its beginning.
\<close>

fun rewind :: "virtual_file \<Rightarrow> virtual_file" where
  "rewind NotVirtual = NotVirtual"
| "rewind (VirtualDir es n) = VirtualDir es 0"
| "rewind (ProcFile d n) = ProcFile d 0"

definition fd_clone_obj :: "Fd \<Rightarrow> Fd" where
  "fd_clone_obj F = (if fd_host F then F\<lparr>fd_cloexec := False, fd_signal := map_option (\<lambda>(mk, out). (mk, [])) (fd_signal F)\<rparr>
     else F\<lparr>fd_virt := rewind (fd_virt F)\<rparr>)"

definition fd_clone :: "int \<Rightarrow> nat \<Rightarrow> nat \<Rightarrow> kern \<Rightarrow> int + kern" where
  "fd_clone err j i k = (if fd_host (k_fd k i) \<and> err \<noteq> 0 then Inl (- err) else Inr (new_fd j (fd_clone_obj (k_fd k i)) k))"

definition fd_on_close :: "nat \<Rightarrow> nat \<Rightarrow> kern \<Rightarrow> kern" where
  "fd_on_close t i k =
     (case fd_master (k_fd k i) of
        None \<Rightarrow> k
      | Some m \<Rightarrow>
          if k_token k m \<noteq> 1 then k
          else deliver_to_ctty_fg t (fd_tty (k_fd k i)) SIGHUP
            (case fd_tty (k_fd k i) of
               Some y \<Rightarrow> if tty_ptn (k_tty k y) \<ge> 0 then k\<lparr>k_ptmx := filter (\<lambda>(n, z). n \<noteq> tty_ptn (k_tty k y)) (k_ptmx k)\<rparr> else k
             | None \<Rightarrow> k))"

text \<open>The end of an object that leaves its table: the token loses a use.\<close>

definition fd_release :: "nat \<Rightarrow> kern \<Rightarrow> kern" where
  "fd_release i k = (case fd_master (k_fd k i) of None \<Rightarrow> k | Some m \<Rightarrow> k\<lparr>k_token := (k_token k)(m := k_token k m - 1)\<rparr>)"

subsection \<open>Calls on the table\<close>

definition dup_call :: "int \<Rightarrow> nat \<Rightarrow> nat \<Rightarrow> int \<Rightarrow> kern \<Rightarrow> int \<times> kern" where
  "dup_call err j t old_fd k =
     (if old_fd < 0 then (- EBADF, k)
      else (case find_fd (ps_of k t) old_fd of
              None \<Rightarrow> (- EBADF, k)
            | Some i \<Rightarrow> (case fd_clone err j i k of Inl e \<Rightarrow> (e, k) | Inr k1 \<Rightarrow> emplace_fd t j 0 k1)))"

abbreviation (input) BPF_O_CLOEXEC :: u32 where "BPF_O_CLOEXEC \<equiv> 0x80000"

definition dup3_call :: "int \<Rightarrow> nat \<Rightarrow> nat \<Rightarrow> int \<Rightarrow> int \<Rightarrow> u32 \<Rightarrow> kern \<Rightarrow> int \<times> kern" where
  "dup3_call err j t old_fd nfd flags k =
     (if old_fd < 0 \<or> nfd < 0 then (- EBADF, k)
      else if old_fd = nfd then (- EINVAL, k)
      else if flags AND NOT BPF_O_CLOEXEC \<noteq> 0 then (- EINVAL, k)
      else (case find_fd (ps_of k t) old_fd of
              None \<Rightarrow> (- EBADF, k)
            | Some i \<Rightarrow>
                (case fd_clone err j i k of
                   Inl e \<Rightarrow> (e, k)
                 | Inr k1 \<Rightarrow>
                     (let k2 = (if flags AND BPF_O_CLOEXEC \<noteq> 0 then upd_fd j (\<lambda>F. F\<lparr>fd_cloexec := True\<rparr>) k1 else k1);
                          existing = find_fd (ps_of k2 t) nfd;
                          k3 = (case existing of None \<Rightarrow> k2 | Some x \<Rightarrow> fd_on_close t x k2);
                          k4 = upd_ps (t_ps (k_task k3 t)) (put_fd nfd j) k3
                      in (nfd, case existing of None \<Rightarrow> k4 | Some x \<Rightarrow> fd_release x k4)))))"

definition close_call :: "nat \<Rightarrow> int \<Rightarrow> kern \<Rightarrow> int \<times> kern" where
  "close_call t fd k =
     (case find_fd (ps_of k t) fd of
        None \<Rightarrow> (- EBADF, k)
      | Some i \<Rightarrow> (let k1 = fd_on_close t i k in (0, fd_release i (upd_ps (t_ps (k_task k1 t)) (erase_fd fd) k1))))"

text \<open>Both ends of a pipe enter the table at once; the answer is the pair of numbers.\<close>

definition pipe_pair :: "(int \<times> nat) list \<Rightarrow> int \<times> int" where
  "pipe_pair m = (let fd0 = first_free m 0 in (fd0, first_free m (fd0 + 1)))"

definition pipe2_call :: "int \<Rightarrow> nat \<Rightarrow> nat \<Rightarrow> nat \<Rightarrow> u32 \<Rightarrow> kern \<Rightarrow> (int + int \<times> int) \<times> kern" where
  "pipe2_call err j0 j1 t flags k =
     (if err \<noteq> 0 then (Inl (- err), k)
      else (let F = host_fd_obj (flags AND BPF_O_CLOEXEC \<noteq> 0); (fd0, fd1) = pipe_pair (ps_fds (ps_of k t)) in
            (Inr (fd0, fd1), upd_ps (t_ps (k_task k t)) (\<lambda>S. put_fd fd1 j1 (put_fd fd0 j0 S)) (new_fd j1 F (new_fd j0 F k)))))"

abbreviation (input) F_DUPFD :: int where "F_DUPFD \<equiv> 0"
abbreviation (input) F_GETFD :: int where "F_GETFD \<equiv> 1"
abbreviation (input) F_SETFD :: int where "F_SETFD \<equiv> 2"
abbreviation (input) F_DUPFD_CLOEXEC :: int where "F_DUPFD_CLOEXEC \<equiv> 1030"

text \<open>do_fcntl for the commands of the table; the other commands are the host's.\<close>

definition fcntl_table :: "int \<Rightarrow> nat \<Rightarrow> nat \<Rightarrow> int \<Rightarrow> int \<Rightarrow> u64 \<Rightarrow> (nat \<Rightarrow> kern \<Rightarrow> int \<times> kern) \<Rightarrow> kern \<Rightarrow> int \<times> kern" where
  "fcntl_table err j t fd cmd arg host k =
     (case find_fd (ps_of k t) fd of
        None \<Rightarrow> (- EBADF, k)
      | Some i \<Rightarrow>
          if cmd = F_DUPFD \<or> cmd = F_DUPFD_CLOEXEC then
            (let min_fd = sint (ucast arg :: u32) in
             if min_fd < 0 then (- EINVAL, k)
             else (case fd_clone err j i k of
                     Inl e \<Rightarrow> (e, k)
                   | Inr k1 \<Rightarrow> emplace_fd t j min_fd (if cmd = F_DUPFD_CLOEXEC then upd_fd j (\<lambda>F. F\<lparr>fd_cloexec := True\<rparr>) k1 else k1)))
          else if cmd = F_GETFD then ((if fd_cloexec (k_fd k i) then 1 else 0), k)
          else if cmd = F_SETFD then (0, upd_fd i (\<lambda>F. F\<lparr>fd_cloexec := (arg AND 1 \<noteq> 0)\<rparr>) k)
          else if \<not> fd_host (k_fd k i) then (- EINVAL, k)
          else host i k)"

definition eventfd2_call :: "int \<Rightarrow> nat \<Rightarrow> nat \<Rightarrow> u32 \<Rightarrow> kern \<Rightarrow> int \<times> kern" where
  "eventfd2_call err j t flags k =
     (if err \<noteq> 0 then (- err, k) else emplace_fd t j 0 (new_fd j (host_fd_obj (flags AND BPF_O_CLOEXEC \<noteq> 0)) k))"

text \<open>A new signal descriptor, or a new set of signals for one that exists.\<close>

definition signalfd4_call :: "int \<Rightarrow> nat \<Rightarrow> nat \<Rightarrow> int \<Rightarrow> u64 \<Rightarrow> u32 \<Rightarrow> kern \<Rightarrow> int \<times> kern" where
  "signalfd4_call err j t fd mk flags k =
     (if fd < 0 then
        (if err \<noteq> 0 then (- err, k)
         else emplace_fd t j 0 (new_fd j ((host_fd_obj (flags AND BPF_O_CLOEXEC \<noteq> 0))\<lparr>fd_signal := Some (mk, [])\<rparr>) k))
      else (case find_fd (ps_of k t) fd of
              None \<Rightarrow> (- EBADF, k)
            | Some i \<Rightarrow>
                (case fd_signal (k_fd k i) of
                   None \<Rightarrow> (- EINVAL, k)
                 | Some (_, out) \<Rightarrow> (fd, upd_fd i (\<lambda>F. F\<lparr>fd_signal := Some (mk, out)\<rparr>) k))))"

definition umask_call :: "nat \<Rightarrow> u32 \<Rightarrow> kern \<Rightarrow> int \<times> kern" where
  "umask_call t new_mask k =
     (sint (ps_umask (ps_of k t)), upd_ps (t_ps (k_task k t)) (\<lambda>S. S\<lparr>ps_umask := new_mask AND 0x1ff\<rparr>) k)"

text \<open>The end of a process closes all its descriptors; exec closes those marked close-on-exec.\<close>

definition close_all :: "nat \<Rightarrow> kern \<Rightarrow> kern" where
  "close_all t k =
     (let fs = map snd (ps_fds (ps_of k t)); k1 = fold (fd_on_close t) fs k in
      fold fd_release fs (upd_ps (t_ps (k_task k t)) (\<lambda>S. S\<lparr>ps_fds := []\<rparr>) k1))"

definition close_on_exec :: "nat \<Rightarrow> kern \<Rightarrow> kern" where
  "close_on_exec t k =
     (let gone = map snd (filter (\<lambda>(fd, i). fd_cloexec (k_fd k i)) (ps_fds (ps_of k t)));
          kept = filter (\<lambda>(fd, i). \<not> fd_cloexec (k_fd k i)) (ps_fds (ps_of k t));
          k1 = fold (fd_on_close t) gone k
      in fold fd_release gone (upd_ps (t_ps (k_task k t)) (\<lambda>S. S\<lparr>ps_fds := kept\<rparr>) k1))"

subsection \<open>Job control through a terminal\<close>

abbreviation tty_of_fd :: "kern \<Rightarrow> nat \<Rightarrow> nat option" where
  "tty_of_fd k i \<equiv> fd_tty (k_fd k i)"

definition upd_session :: "nat \<Rightarrow> (Session \<Rightarrow> Session) \<Rightarrow> kern \<Rightarrow> kern" where
  "upd_session s f k = k\<lparr>k_session := (k_session k)(s := f (k_session k s))\<rparr>"

definition upd_tty :: "nat \<Rightarrow> (GuestTty \<Rightarrow> GuestTty) \<Rightarrow> kern \<Rightarrow> kern" where
  "upd_tty y f k = k\<lparr>k_tty := (k_tty k)(y := f (k_tty k y))\<rparr>"

text \<open>TIOCSCTTY: the leader of a session takes a terminal, by force from another session if force is not 0.\<close>

definition ioctl_sctty :: "nat \<Rightarrow> nat option \<Rightarrow> int \<Rightarrow> kern \<Rightarrow> int \<times> kern" where
  "ioctl_sctty t tty force k =
     (let T = k_task k t; s = t_session T in
      case tty of
        None \<Rightarrow> (- ENOTTY, k)
      | Some y \<Rightarrow>
          if ss_sid (k_session k s) \<noteq> t_pid T then (- EPERM, k)
          else if ss_ctty (k_session k s) = Some y then (0, k)
          else if tty_owner (k_tty k y) \<noteq> None \<and> tty_owner (k_tty k y) \<noteq> Some s \<and> force = 0 then (- EPERM, k)
          else (let k1 = (case tty_owner (k_tty k y) of
                            Some o' \<Rightarrow> if o' \<noteq> s then upd_session o' (\<lambda>S. S\<lparr>ss_ctty := None\<rparr>) k else k
                          | None \<Rightarrow> k)
                in (0, upd_tty y (\<lambda>Y. Y\<lparr>tty_owner := Some s, tty_fg_pgrp := t_pgid T\<rparr>)
                         (upd_session s (\<lambda>S. S\<lparr>ss_ctty := Some y\<rparr>) k1))))"

text \<open>TIOCSPGRP with the number read from the guest, or None if it cannot be read.\<close>

definition ioctl_spgrp :: "nat \<Rightarrow> nat option \<Rightarrow> int option \<Rightarrow> kern \<Rightarrow> int \<times> kern" where
  "ioctl_spgrp t tty arg k =
     (let T = k_task k t; s = t_session T in
      case ss_ctty (k_session k s) of
        None \<Rightarrow> (- ENOTTY, k)
      | Some y \<Rightarrow>
          if tty \<noteq> Some y then (- ENOTTY, k)
          else (case arg of
                  None \<Rightarrow> (- EFAULT, k)
                | Some g \<Rightarrow>
                    if g \<le> 0 then (- EINVAL, k)
                    else if \<not> (\<exists>v \<in> snd ` set (k_pid_map k). t_session (k_task k v) = s \<and> t_pgid (k_task k v) = word_of_int g) then (- EPERM, k)
                    else (0, upd_tty y (\<lambda>Y. Y\<lparr>tty_fg_pgrp := word_of_int g\<rparr>) k)))"

text \<open>TIOCGPGRP: the foreground group, which the call stores as a 32-bit number.\<close>

definition ioctl_gpgrp :: "nat \<Rightarrow> nat option \<Rightarrow> kern \<Rightarrow> int + u32" where
  "ioctl_gpgrp t tty k =
     (case ss_ctty (k_session k (t_session (k_task k t))) of
        None \<Rightarrow> Inl (- ENOTTY)
      | Some y \<Rightarrow> if tty \<noteq> Some y then Inl (- ENOTTY) else Inr (ucast (tty_fg_pgrp (k_tty k y))))"

text \<open>
  The size of the buffer of any other request and whether the host writes it; struct termios has 60
  bytes, struct winsize 8.
\<close>

definition ioctl_buffer :: "u64 \<Rightarrow> bool \<times> nat" where
  "ioctl_buffer request =
     (if request \<in> {0x5401, 0x5402, 0x5403, 0x5404} then (request = 0x5401, 60)
      else if request \<in> {0x5413, 0x5414} then (request = 0x5413, 8)
      else if request \<in> {0x5421, 0x541B} then (request = 0x541B, 4)
      else (let n = unat (drop_bit 16 request AND 0x3fff) in (n \<noteq> 0 \<and> drop_bit 30 request AND 2 \<noteq> 0, n)))"

end
