(* ===== verification/Posix_Process.thy ===== *)
theory Posix_Process
  imports Posix_Fd
begin

text \<open>
  Processes (src/posix/process.cpp, the end of a task in src/posix/posix_syscall.cpp and
  src/posix/session.cpp): exit, the end of a thread and of a thread group, waiting for children with
  its two interfaces, creating tasks, process groups and sessions.
\<close>

abbreviation (input) ECHILD :: int where "ECHILD \<equiv> 10"

subsection \<open>The end of a task\<close>

definition do_exit_task :: "nat \<Rightarrow> int \<Rightarrow> kern \<Rightarrow> kern" where
  "do_exit_task t code k = or_flags VM_EXITED t (set_exit_code (t_tg (k_task k t)) code k)"

definition erase_pid :: "u64 \<Rightarrow> kern \<Rightarrow> kern" where
  "erase_pid p k = k\<lparr>k_pid_map := filter (\<lambda>(q, v). q \<noteq> p) (k_pid_map k)\<rparr>"

text \<open>Orphans of the group go to process 1.\<close>

definition reparent :: "u64 \<Rightarrow> kern \<Rightarrow> kern" where
  "reparent tgid k =
     fold (\<lambda>v k. if tg_ppid (tg_of k v) = tgid then upd_tg (t_tg (k_task k v)) (\<lambda>G. G\<lparr>tg_ppid := 1\<rparr>) k else k)
          (map snd (k_pid_map k)) k"

text \<open>PosixSyscall::fini behind the release of the address space and the clearing of the child tid.\<close>

definition fini_task :: "nat \<Rightarrow> kern \<Rightarrow> kern" where
  "fini_task t k =
     (let g = t_tg (k_task k t);
          last = (tg_live_threads (k_tg k g) = 1);
          k1 = upd_tg g (\<lambda>G. G\<lparr>tg_live_threads := tg_live_threads G - 1\<rparr>) k;
          k2 = (if t_pid (k_task k t) \<noteq> tg_tgid (k_tg k g) then erase_pid (t_pid (k_task k t)) k1 else k1)
      in if \<not> last then wake_waiters g k2
         else (let k3 = close_all t k2 in
               if t_pid (k_task k t) = 1 then erase_pid 1 k3
               else reparent (tg_tgid (k_tg k g))
                      (notify_parent_sigchld t (upd_tg g (\<lambda>G. G\<lparr>tg_exited := True\<rparr>) (set_exit_code g (128 + 9) k3)))))"

subsection \<open>Waiting for children\<close>

record wait_event =
  we_child :: "nat option"
  we_exited :: bool
  we_stop_sig :: int
  we_exit_code :: u64

definition no_wait_event :: wait_event where
  "no_wait_event = \<lparr>we_child = None, we_exited = False, we_stop_sig = 0, we_exit_code = 0\<rparr>"

definition match_child :: "kern \<Rightarrow> nat \<Rightarrow> int \<Rightarrow> int \<Rightarrow> nat \<Rightarrow> bool" where
  "match_child k t idtype wid v \<longleftrightarrow>
     tg_ppid (tg_of k v) = tg_tgid (tg_of k t) \<and> t_pid (k_task k v) = tg_tgid (tg_of k v)
     \<and> (if idtype = 0 then True
        else if idtype = 1 then t_pid (k_task k v) = word_of_int wid
        else if idtype = 2 then t_pgid (k_task k v) = word_of_int wid
        else False)"

definition child_has_event :: "kern \<Rightarrow> nat \<Rightarrow> bool" where
  "child_has_event k v \<longleftrightarrow> tg_exited (tg_of k v) \<or> tg_stopped (tg_of k v) \<and> tg_stop_reported (tg_of k v)"

datatype claim = Claimed wait_event | No_Event | No_Child

definition exit_event :: "kern \<Rightarrow> nat \<Rightarrow> wait_event" where
  "exit_event k v = \<lparr>we_child = Some v, we_exited = True, we_stop_sig = 0, we_exit_code = word_of_int (tg_exit_code (tg_of k v))\<rparr>"

definition stop_event :: "kern \<Rightarrow> nat \<Rightarrow> wait_event" where
  "stop_event k v = \<lparr>we_child = Some v, we_exited = False, we_stop_sig = tg_stop_sig (tg_of k v), we_exit_code = 0\<rparr>"

text \<open>The loop of claim_one over the process table; nowait is the option WNOWAIT.\<close>

fun claim_loop :: "nat \<Rightarrow> int \<Rightarrow> int \<Rightarrow> bool \<Rightarrow> (u64 \<times> nat) list \<Rightarrow> bool \<Rightarrow> kern \<Rightarrow> claim \<times> kern" where
  "claim_loop t idtype wid nowait [] any_match k = ((if any_match then No_Event else No_Child), k)"
| "claim_loop t idtype wid nowait ((p, v) # m) any_match k =
     (if \<not> match_child k t idtype wid v then claim_loop t idtype wid nowait m any_match k
      else if tg_exited (tg_of k v) then
        (Claimed (exit_event k v), if nowait then k else erase_pid p k)
      else if tg_stopped (tg_of k v) \<and> tg_stop_reported (tg_of k v) then
        (Claimed (stop_event k v), if nowait then k else upd_tg (t_tg (k_task k v)) (\<lambda>G. G\<lparr>tg_stop_reported := False\<rparr>) k)
      else claim_loop t idtype wid nowait m True k)"

definition claim_one :: "nat \<Rightarrow> int \<Rightarrow> int \<Rightarrow> bool \<Rightarrow> kern \<Rightarrow> claim \<times> kern" where
  "claim_one t idtype wid nowait k = claim_loop t idtype wid nowait (k_pid_map k) False k"

text \<open>One round of the waiting loop: the answer of the call, or going to sleep registered with every child.\<close>

datatype wait_round = Answer int wait_event | Sleep "nat list" bool

definition wait_kids :: "kern \<Rightarrow> nat \<Rightarrow> int \<Rightarrow> int \<Rightarrow> nat list" where
  "wait_kids k t idtype wid = filter (match_child k t idtype wid) (map snd (k_pid_map k))"

fun register_waits :: "nat \<Rightarrow> nat list \<Rightarrow> kern \<Rightarrow> bool \<times> kern" where
  "register_waits t [] k = (False, k)"
| "register_waits t (v # vs) k =
     (if child_has_event k v then (True, snd (register_waits t vs k))
      else register_waits t vs (upd_tg (t_tg (k_task k v)) (\<lambda>G. G\<lparr>tg_waiters := tg_waiters G @ [t]\<rparr>) k))"

definition wait_try :: "nat \<Rightarrow> int \<Rightarrow> int \<Rightarrow> bool \<Rightarrow> bool \<Rightarrow> kern \<Rightarrow> (int \<times> wait_event) option \<times> kern" where
  "wait_try t idtype wid nohang nowait k =
     (case claim_one t idtype wid nowait k of
        (Claimed e, k1) \<Rightarrow> (Some (0, e), k1)
      | (No_Child, k1) \<Rightarrow> (Some (- ECHILD, no_wait_event), k1)
      | (No_Event, k1) \<Rightarrow> (if nohang then Some (0, no_wait_event) else None, k1))"

definition wait_round :: "nat \<Rightarrow> int \<Rightarrow> int \<Rightarrow> bool \<Rightarrow> kern \<Rightarrow> wait_round \<times> kern" where
  "wait_round t idtype wid nowait k =
     (if task_flag k t (VM_KILLED OR VM_STOPPED OR VM_SIGNAL_PENDING OR VM_DEBUG_STOP) then (Answer SYSCALL_RESTART no_wait_event, k)
      else (case wait_try t idtype wid False nowait k of
              (Some (r, e), k1) \<Rightarrow> (Answer r e, k1)
            | (None, k1) \<Rightarrow>
                (let kids = wait_kids k1 t idtype wid; (ev, k2) = register_waits t kids (or_flags VM_BLOCKED t k1) in (Sleep kids ev, k2))))"

definition wait_leave :: "nat \<Rightarrow> nat list \<Rightarrow> kern \<Rightarrow> kern" where
  "wait_leave t kids k = fold (\<lambda>v k. remove_waiter (t_tg (k_task k v)) t k) kids (and_flags VM_BLOCKED t k)"

subsection \<open>Status words\<close>

definition wait4_exit_status :: "u64 \<Rightarrow> u32" where
  "wait4_exit_status exit_code =
     (if exit_code \<ge> 128 then ucast (exit_code - 128) AND 0x7f else push_bit 8 (ucast exit_code AND 0xff))"

definition wait4_stop_status :: "int \<Rightarrow> u32" where
  "wait4_stop_status stop_sig = push_bit 8 (word_of_int stop_sig AND 0xff) OR 0x7f"

definition wait4_status :: "wait_event \<Rightarrow> u32" where
  "wait4_status e = (if we_exited e then wait4_exit_status (we_exit_code e) else wait4_stop_status (we_stop_sig e))"

text \<open>The pid argument of wait4 as idtype and id.\<close>

definition wait4_id :: "int \<Rightarrow> u64 \<Rightarrow> int \<times> int" where
  "wait4_id target_pid pgid =
     (if target_pid > 0 then (1, target_pid)
      else if target_pid = - 1 then (0, 0)
      else if target_pid = 0 then (2, sint pgid)
      else (2, - target_pid))"

text \<open>si_code and si_status of waitid.\<close>

definition waitid_report :: "wait_event \<Rightarrow> int \<times> int" where
  "waitid_report e =
     (if we_exited e then
        (if we_exit_code e \<ge> 128 then (CLD_KILLED, sint (ucast (we_exit_code e - 128) :: u32)) else (CLD_EXITED, sint (ucast (we_exit_code e) :: u32)))
      else (CLD_STOPPED, we_stop_sig e))"

subsection \<open>Process groups and sessions\<close>

definition setpgid_call :: "nat \<Rightarrow> int \<Rightarrow> int \<Rightarrow> kern \<Rightarrow> int \<times> kern" where
  "setpgid_call t pid_arg pgrp_arg k =
     (if pgrp_arg < 0 then (- EINVAL, k)
      else (case (if pid_arg = 0 then Some t else find_task k (word_of_int pid_arg)) of
              None \<Rightarrow> (- ESRCH, k)
            | Some v \<Rightarrow>
                (let V = k_task k v; T = k_task k t in
                 if pid_arg \<noteq> 0 \<and> word_of_int pid_arg \<noteq> tg_tgid (tg_of k t) \<and> tg_ppid (tg_of k v) \<noteq> tg_tgid (tg_of k t) then (- ESRCH, k)
                 else if t_session V \<noteq> t_session T then (- EPERM, k)
                 else if ss_sid (k_session k (t_session V)) = t_pid V then (- EPERM, k)
                 else if t_pgid V = word_of_int pgrp_arg \<and> pgrp_arg \<noteq> 0 then (0, k)
                 else (let new_pgid = (if pgrp_arg = 0 then t_pid V else word_of_int pgrp_arg) in
                       if new_pgid \<noteq> t_pid V \<and>
                          (case find_task k new_pgid of None \<Rightarrow> True | Some l \<Rightarrow> t_session (k_task k l) \<noteq> t_session T) then (- EPERM, k)
                       else (0, upd_task v (\<lambda>V. V\<lparr>t_pgid := new_pgid\<rparr>) k)))))"

definition getpgid_call :: "nat \<Rightarrow> int \<Rightarrow> kern \<Rightarrow> int" where
  "getpgid_call t pid_arg k =
     (if pid_arg = 0 then sint (t_pgid (k_task k t))
      else (case find_task k (word_of_int pid_arg) of None \<Rightarrow> - ESRCH | Some v \<Rightarrow> sint (t_pgid (k_task k v))))"

definition getsid_call :: "nat \<Rightarrow> int \<Rightarrow> kern \<Rightarrow> int" where
  "getsid_call t pid_arg k =
     (if pid_arg = 0 then sint (ss_sid (k_session k (t_session (k_task k t))))
      else (case find_task k (word_of_int pid_arg) of None \<Rightarrow> - ESRCH | Some v \<Rightarrow> sint (ss_sid (k_session k (t_session (k_task k v))))))"

text \<open>A new session object under a number that is not in use.\<close>

definition setsid_call :: "nat \<Rightarrow> nat \<Rightarrow> kern \<Rightarrow> int \<times> kern" where
  "setsid_call fresh t k =
     (let T = k_task k t in
      if t_pgid T = t_pid T then (- EPERM, k)
      else (sint (t_pid T),
            upd_task t (\<lambda>T. T\<lparr>t_pgid := t_pid T, t_session := fresh\<rparr>)
              (k\<lparr>k_session := (k_session k)(fresh := \<lparr>ss_sid = t_pid T, ss_ctty = None\<rparr>)\<rparr>)))"

end
