(* ===== verification/Posix_Signal_Props.thy ===== *)
theory Posix_Signal_Props
  imports Posix_Signal "HOL-Library.Sublist"
begin

text \<open>
  Properties of signals: the queue invariant under every operation, what the choice of the next
  signal takes from the queue, and the effect of stopping, continuing and killing a group.
\<close>

subsection \<open>Flags\<close>

lemma and_distinct_not: "(a :: u32) AND b = 0 \<Longrightarrow> (f AND NOT a) AND b = f AND b"
  by (simp add: and.assoc and.commute [of "NOT a"]) (simp add: bit_eq_iff bit_simps, blast)

lemma or_flag_keeps: "(a :: u32) AND b = 0 \<Longrightarrow> (f OR a) AND b = f AND b"
  by (simp add: bit.conj_disj_distrib2)

lemma task_flag_or: "task_flag (or_flags a t k) u b \<longleftrightarrow> task_flag k u b \<or> u = t \<and> a AND b \<noteq> 0"
  by (auto simp: task_flag_def or_flags_def bit.conj_disj_distrib2 or_eq_0_iff)

lemma task_flag_and: "a AND b = 0 \<Longrightarrow> task_flag (and_flags a t k) u b \<longleftrightarrow> task_flag k u b"
  by (simp add: task_flag_def and_flags_def and_distinct_not)

lemma task_flag_and_self: "\<not> task_flag (and_flags a t k) t a"
  by (simp add: task_flag_def and_flags_def and.assoc)

subsection \<open>The queue invariant\<close>

definition valid_event :: "SigEvent \<Rightarrow> bool" where
  "valid_event e \<longleftrightarrow> 0 < ev_sig e \<and> ev_sig e < NSIG"

text \<open>What may be in a queue: signals that have a number, and neither kill nor stop nor continue at once.\<close>

definition queueable :: "SigEvent \<Rightarrow> bool" where
  "queueable e \<longleftrightarrow> valid_event e \<and> ev_sig e \<notin> {SIGKILL, SIGSTOP, SIGCONT}"

definition deliverable :: "task \<Rightarrow> bool" where
  "deliverable T \<longleftrightarrow> (\<exists>e \<in> set (t_pending T). \<not> blocked_by (t_sigmask T) (ev_sig e))"

definition queue_ok :: "task \<Rightarrow> bool" where
  "queue_ok T \<longleftrightarrow> length (t_pending T) \<le> BPF_SIGNAL_QUE_SIZE \<and> (\<forall>e \<in> set (t_pending T). queueable e)
     \<and> (deliverable T \<longrightarrow> t_flags T AND VM_SIGNAL_PENDING \<noteq> 0)"

definition queues_ok :: "kern \<Rightarrow> bool" where
  "queues_ok k \<longleftrightarrow> (\<forall>t. queue_ok (k_task k t))"

text \<open>Changes that leave every queue alone.\<close>

definition same_queues :: "kern \<Rightarrow> kern \<Rightarrow> bool" where
  "same_queues k k' \<longleftrightarrow> (\<forall>t. t_pending (k_task k' t) = t_pending (k_task k t) \<and> t_sigmask (k_task k' t) = t_sigmask (k_task k t)
     \<and> t_flags (k_task k' t) AND VM_SIGNAL_PENDING = t_flags (k_task k t) AND VM_SIGNAL_PENDING)"

lemma same_queues_refl [simp]: "same_queues k k"
  by (simp add: same_queues_def)

lemma same_queues_trans: "same_queues k k' \<Longrightarrow> same_queues k' k'' \<Longrightarrow> same_queues k k''"
  by (simp add: same_queues_def)

lemma same_queues_ok: "same_queues k k' \<Longrightarrow> queues_ok k \<Longrightarrow> queues_ok k'"
  by (simp add: queues_ok_def queue_ok_def deliverable_def same_queues_def)

lemma same_queues_or: "fl AND VM_SIGNAL_PENDING = 0 \<Longrightarrow> same_queues k (or_flags fl t k)"
  by (simp add: same_queues_def or_flags_def or_flag_keeps)

lemma same_queues_and: "fl AND VM_SIGNAL_PENDING = 0 \<Longrightarrow> same_queues k (and_flags fl t k)"
  by (simp add: same_queues_def and_flags_def and_distinct_not)

lemma same_queues_tg [simp]: "same_queues k (upd_tg g f k)"
  by (simp add: same_queues_def)

lemma same_queues_kick [simp]: "same_queues k (kick t k)"
  by (simp add: same_queues_def)

lemma same_queues_fold: "(\<And>t k. same_queues k (f t k)) \<Longrightarrow> same_queues k (fold f ts k)"
  by (induction ts arbitrary: k) (auto intro: same_queues_trans)

lemma same_queues_wakeup [simp]: "same_queues k (wakeup b t k)"
  by (simp add: wakeup_def same_queues_and flag_defs)

lemma same_queues_wake_waiters [simp]: "same_queues k (wake_waiters g k)"
  unfolding wake_waiters_def by (rule same_queues_trans [OF same_queues_tg same_queues_fold]) simp

lemma same_queues_cont [simp]: "same_queues k (cont_group g k)"
  unfolding cont_group_def
  by (rule same_queues_trans [OF same_queues_tg same_queues_fold])
     (rule same_queues_trans [OF same_queues_and same_queues_wakeup], simp add: flag_defs)

lemma enqueue_ok:
  assumes "queues_ok k" "queueable ev"
  shows "queues_ok (enqueue_signal t ev k)"
  using assms by (auto simp: enqueue_signal_def wakeup_def queues_ok_def queue_ok_def or_flags_def bit.conj_disj_distrib2 flag_defs)

lemma queue_nonstop_ok:
  assumes ok: "queues_ok k" and ev: "valid_event ev" "ev_sig ev \<noteq> SIGSTOP"
  shows "queues_ok (queue_nonstop t ev k)"
proof -
  have "same_queues k (kick t (wakeup False t (or_flags VM_KILLED t k)))"
    by (rule same_queues_trans [OF same_queues_or [of VM_KILLED k t] same_queues_trans [OF same_queues_wakeup same_queues_kick]]) (simp add: flag_defs)
  then show ?thesis
    using ok ev same_queues_ok [OF _ ok] enqueue_ok [OF ok, of ev t] by (auto simp: queue_nonstop_def Let_def queueable_def)
qed

lemma notify_ok: "queues_ok k \<Longrightarrow> queues_ok (notify_parent_sigchld t k)"
  using same_queues_ok [OF same_queues_wake_waiters]
  by (auto simp: notify_parent_sigchld_def Let_def valid_event_def split: option.splits intro!: queue_nonstop_ok)

lemma stop_process_ok: "queues_ok k \<Longrightarrow> queues_ok (stop_process t sig k)"
proof -
  assume ok: "queues_ok k"
  have "same_queues k (fold (\<lambda>v k. wakeup False v (or_flags VM_STOPPED v k)) vs (upd_tg g f k))" for vs g f
    by (rule same_queues_trans [OF same_queues_tg same_queues_fold])
       (rule same_queues_trans [OF same_queues_or same_queues_wakeup], simp add: flag_defs)
  from same_queues_ok [OF this ok] show ?thesis
    by (auto simp: stop_process_def Let_def intro!: notify_ok same_queues_ok [OF same_queues_tg])
qed

lemma queue_signal_ok: "\<lbrakk>queues_ok k; valid_event ev\<rbrakk> \<Longrightarrow> queues_ok (queue_signal t ev k)"
  by (auto simp: queue_signal_def Let_def intro!: stop_process_ok queue_nonstop_ok)

lemma fold_queues_ok: "\<lbrakk>queues_ok k; \<And>t k. queues_ok k \<Longrightarrow> queues_ok (f t k)\<rbrakk> \<Longrightarrow> queues_ok (fold f ts k)"
  by (induction ts arbitrary: k) auto

lemma exit_group_ok: "queues_ok k \<Longrightarrow> queues_ok (exit_group t code k)"
  unfolding exit_group_def Let_def
  by (rule same_queues_ok [OF same_queues_or fold_queues_ok])
     (auto simp: flag_defs set_exit_code_def sigkill_def valid_event_def intro: same_queues_ok [OF same_queues_tg] intro!: queue_signal_ok)

lemma send_sig_info_ok:
  assumes ok: "queues_ok k" and s: "0 \<le> sig" "sig < NSIG"
  shows "queues_ok (snd (send_sig_info t p sig code value k))"
proof -
  have "queues_ok (send_one ev v k)" if "queues_ok k" "valid_event ev" for ev v k
    using that by (auto simp: send_one_def intro!: fold_queues_ok queue_signal_ok)
  then show ?thesis using ok s by (auto simp: send_sig_info_def Let_def valid_event_def intro!: fold_queues_ok)
qed

subsection \<open>Choosing a signal\<close>

lemma deliver_first_tasks: "k_task (snd (deliver_first fs ev k)) = k_task k \<and> k_ps (snd (deliver_first fs ev k)) = k_ps k"
proof (induction fs arbitrary: k)
  case (Cons i fs)
  obtain b k' where d: "signalfd_deliver i ev k = (b, k')" by fastforce
  then have "k_task k' = k_task k" "k_ps k' = k_ps k" by (auto simp: signalfd_deliver_def upd_fd_def split: option.splits prod.splits if_splits)
  then show ?case using Cons [of k'] d by (cases b) simp_all
qed simp

text \<open>
  What the scan takes from the queue: the blocked events before the chosen one go to a descriptor or
  are set aside, in order, and nothing behind the chosen event is touched.
\<close>

definition scan_post :: "u64 \<Rightarrow> SigEvent list \<Rightarrow> kern \<Rightarrow> SigEvent \<times> SigEvent list \<times> SigEvent list \<times> kern \<Rightarrow> bool" where
  "scan_post mk q k = (\<lambda>(c, r, d, k'). k_task k' = k_task k \<and> k_ps k' = k_ps k
     \<and> (\<exists>p. (\<forall>e \<in> set p. blocked_by mk (ev_sig e)) \<and> subseq d p
          \<and> (if c = no_event then q = p \<and> r = [] else q = p @ c # r \<and> \<not> blocked_by mk (ev_sig c))))"

lemma scan_post_Cons:
  assumes "scan_post mk q k1 (c, r, d, k')" "blocked_by mk (ev_sig e)" "k_task k1 = k_task k" "k_ps k1 = k_ps k"
  shows "scan_post mk (e # q) k (c, r, d, k')" "scan_post mk (e # q) k (c, r, e # d, k')"
proof -
  obtain p where p: "\<forall>e \<in> set p. blocked_by mk (ev_sig e)" "subseq d p"
    "if c = no_event then q = p \<and> r = [] else q = p @ c # r \<and> \<not> blocked_by mk (ev_sig c)"
    "k_task k' = k_task k" "k_ps k' = k_ps k"
    using assms unfolding scan_post_def by auto
  then have "subseq d (e # p)" "subseq (e # d) (e # p)" by auto
  then show "scan_post mk (e # q) k (c, r, d, k')" "scan_post mk (e # q) k (c, r, e # d, k')"
    using p assms(2) unfolding scan_post_def by (auto intro!: exI [of _ "e # p"])
qed

lemma scan_pending_spec:
  assumes "length q \<le> n" "\<forall>e \<in> set q. queueable e"
  shows "scan_post mk q k (scan_pending n mk fs q k)"
  using assms
proof (induction n mk fs q k rule: scan_pending.induct)
  case (3 n mk fs e q k)
  have ne: "e \<noteq> no_event" using 3(4) by (auto simp: queueable_def valid_event_def no_event_def)
  show ?case
  proof (cases "blocked_by mk (ev_sig e)")
    case True
    obtain b k1 where f: "deliver_first fs e k = (b, k1)" by fastforce
    then have k1: "k_task k1 = k_task k" "k_ps k1 = k_ps k" using deliver_first_tasks [of fs e k] by simp_all
    obtain c r d k' where s: "scan_pending n mk fs q k1 = (c, r, d, k')" by (metis prod_cases4)
    have "scan_post mk q k1 (c, r, d, k')" using 3 True f s by (cases b) auto
    from scan_post_Cons [OF this True k1] show ?thesis using True f s by (cases b) simp_all
  next
    case False
    then show ?thesis using ne by (auto simp: scan_post_def intro!: exI [of _ "[]"])
  qed
qed (auto simp: scan_post_def)

definition taken :: "nat \<Rightarrow> kern \<Rightarrow> SigEvent \<Rightarrow> kern \<Rightarrow> bool" where
  "taken t k c k' \<longleftrightarrow> (\<exists>p d r. (\<forall>e \<in> set p. blocked_by (t_sigmask (k_task k t)) (ev_sig e)) \<and> subseq d p
     \<and> (if c = no_event then t_pending (k_task k t) = p \<and> r = []
        else t_pending (k_task k t) = p @ c # r \<and> \<not> blocked_by (t_sigmask (k_task k t)) (ev_sig c))
     \<and> k_task k' = (k_task k)(t := (k_task k t)\<lparr>t_pending := r @ d,
          t_flags := (if c = no_event \<and> r @ d = [] then t_flags (k_task k t) AND NOT VM_SIGNAL_PENDING else t_flags (k_task k t))\<rparr>)
     \<and> k_ps k' = k_ps k)"

lemma no_event_sig [simp]: "ev_sig no_event = 0"
  by (simp add: no_event_def)

lemma no_event_iff: "queueable c \<Longrightarrow> ev_sig c \<noteq> 0 \<and> c \<noteq> no_event"
  by (auto simp: queueable_def valid_event_def no_event_def)

lemma take_signal_spec:
  assumes ok: "queue_ok (k_task k t)" and t: "take_signal t k = (c, k')"
  shows "taken t k c k'"
proof -
  let ?T = "k_task k t"
  obtain c0 r d k1 where s0: "scan_pending BPF_SIGNAL_QUE_SIZE (t_sigmask ?T) (signalfds_of k t) (t_pending ?T) k = (c0, r, d, k1)"
    by (metis prod_cases4)
  have "fst (take_signal t k) = c0" unfolding take_signal_def s0 by (simp only: Let_def prod.case fst_conv)
  then have s: "scan_pending BPF_SIGNAL_QUE_SIZE (t_sigmask ?T) (signalfds_of k t) (t_pending ?T) k = (c, r, d, k1)" using s0 t by simp
  have "scan_post (t_sigmask ?T) (t_pending ?T) k (c, r, d, k1)"
    using scan_pending_spec [of "t_pending ?T" BPF_SIGNAL_QUE_SIZE "t_sigmask ?T" k "signalfds_of k t"] ok s by (simp add: queue_ok_def)
  then obtain p where p: "\<forall>e \<in> set p. blocked_by (t_sigmask ?T) (ev_sig e)" "subseq d p" "k_task k1 = k_task k" "k_ps k1 = k_ps k"
    "if c = no_event then t_pending ?T = p \<and> r = [] else t_pending ?T = p @ c # r \<and> \<not> blocked_by (t_sigmask ?T) (ev_sig c)"
    unfolding scan_post_def by auto
  have "c \<noteq> no_event \<Longrightarrow> queueable c" using p(5) ok by (auto simp: queue_ok_def)
  then have z: "ev_sig c = 0 \<longleftrightarrow> c = no_event" using no_event_iff [of c] by (metis no_event_sig)
  define B where "B \<longleftrightarrow> c = no_event \<and> r @ d = []"
  define k2 where "k2 = upd_task t (\<lambda>T. T\<lparr>t_pending := r @ d\<rparr>) k1"
  have "snd (take_signal t k) = (if ev_sig c = 0 \<and> d = [] \<and> r @ d = [] then and_flags VM_SIGNAL_PENDING t k2 else k2)"
    unfolding take_signal_def s Let_def prod.case snd_conv k2_def by (rule refl)
  then have k': "k' = (if B then and_flags VM_SIGNAL_PENDING t k2 else k2)" unfolding t z B_def by simp
  have k2: "k_task k2 = (k_task k)(t := ?T\<lparr>t_pending := r @ d\<rparr>)" "k_ps k2 = k_ps k" using p(3,4) by (simp_all add: k2_def)
  have q: "k_task k' = (k_task k)(t := ?T\<lparr>t_pending := r @ d, t_flags := (if B then t_flags ?T AND NOT VM_SIGNAL_PENDING else t_flags ?T)\<rparr>)"
    "k_ps k' = k_ps k"
    unfolding k' using k2 by (cases B; simp add: and_flags_def)+
  show ?thesis unfolding taken_def
    by (rule exI [of _ p], rule exI [of _ d], rule exI [of _ r], intro conjI p q [unfolded B_def])
qed

lemma taken_ok:
  assumes ok: "queues_ok k" and t: "taken t k c k'"
  shows "queues_ok k'" "c \<noteq> no_event \<Longrightarrow> queueable c"
proof -
  let ?T = "k_task k t"
  obtain p d r where p: "\<forall>e \<in> set p. blocked_by (t_sigmask ?T) (ev_sig e)" "subseq d p"
     "if c = no_event then t_pending ?T = p \<and> r = [] else t_pending ?T = p @ c # r \<and> \<not> blocked_by (t_sigmask ?T) (ev_sig c)"
     "k_task k' = (k_task k)(t := ?T\<lparr>t_pending := r @ d,
          t_flags := (if c = no_event \<and> r @ d = [] then t_flags ?T AND NOT VM_SIGNAL_PENDING else t_flags ?T)\<rparr>)"
    using t unfolding taken_def by blast
  have okt: "queue_ok ?T" and oku: "queue_ok (k_task k u)" for u using ok by (simp_all add: queues_ok_def)
  have sub: "set d \<subseteq> set p" "length d \<le> length p" using p(2) list_emb_set [OF p(2)] by (blast, simp add: list_emb_length)
  have "set r \<subseteq> set (t_pending ?T)" "set p \<subseteq> set (t_pending ?T)" "length (r @ d) \<le> length (t_pending ?T)"
    using p(3) sub(2) by (auto split: if_splits)
  moreover have "e \<in> set r" if "e \<in> set (r @ d)" "\<not> blocked_by (t_sigmask ?T) (ev_sig e)" for e using that p(1) sub by auto
  ultimately have "queue_ok (k_task k' t)"
    using okt sub unfolding queue_ok_def deliverable_def p(4) by (simp add: subset_iff) (metis Un_iff append_Nil empty_iff list.set(1) set_append)
  then show "queues_ok k'" using oku p(4) by (auto simp: queues_ok_def)
  show "c \<noteq> no_event \<Longrightarrow> queueable c" using p(3) okt by (auto simp: queue_ok_def)
qed

lemma taken_none:
  assumes "taken t k no_event k'"
  shows "\<not> deliverable (k_task k' t)"
proof -
  obtain p d where p: "\<forall>e \<in> set p. blocked_by (t_sigmask (k_task k t)) (ev_sig e)" "subseq d p"
    "t_pending (k_task k' t) = d" "t_sigmask (k_task k' t) = t_sigmask (k_task k t)"
    using assms unfolding taken_def by fastforce
  then show ?thesis using list_emb_set [OF p(2)] unfolding deliverable_def by (metis (no_types, lifting))
qed

lemma deliver_next_ok: "queues_ok k \<Longrightarrow> queues_ok (snd (deliver_next t k))"
proof -
  assume ok: "queues_ok k"
  obtain c k1 where t: "take_signal t k = (c, k1)" by fastforce
  have "queue_ok (k_task k t)" using ok by (simp add: queues_ok_def)
  then have "queues_ok k1" using taken_ok(1) [OF ok take_signal_spec [OF _ t]] by simp
  then show ?thesis by (auto simp: deliver_next_def t Let_def intro!: exit_group_ok stop_process_ok)
qed

subsection \<open>Groups\<close>

lemma fold_flags:
  assumes f: "\<And>t k u. task_flag (f t k) u fl \<longleftrightarrow> task_flag k u fl \<or> u = t"
  shows "task_flag (fold f ts k) u fl \<longleftrightarrow> task_flag k u fl \<or> u \<in> set ts"
  by (induction ts arbitrary: k) (auto simp: f)

lemma fold_clears:
  assumes f: "\<And>t k u. task_flag (f t k) u fl \<longleftrightarrow> task_flag k u fl \<and> u \<noteq> t"
  shows "task_flag (fold f ts k) u fl \<longleftrightarrow> task_flag k u fl \<and> u \<notin> set ts"
  by (induction ts arbitrary: k) (auto simp: f)

lemma task_flag_kick [simp]: "task_flag (kick t k) u fl = task_flag k u fl"
  by (simp add: task_flag_def)

lemma task_flag_tg [simp]: "task_flag (upd_tg g f k) u fl = task_flag k u fl"
  by (simp add: task_flag_def)

lemma task_flag_wakeup: "VM_BLOCKED AND fl = 0 \<Longrightarrow> task_flag (wakeup b t k) u fl = task_flag k u fl"
  by (simp add: wakeup_def task_flag_and)

lemma queue_kill: "ev_sig ev = SIGKILL \<Longrightarrow> queue_signal t ev k = kick t (or_flags VM_KILLED t k)"
  by (simp add: queue_signal_def queue_nonstop_def wakeup_def)

lemma fold_kill:
  assumes "ev_sig ev = SIGKILL"
  shows "task_flag (fold (\<lambda>w. queue_signal w ev) ts k) u VM_KILLED \<longleftrightarrow> task_flag k u VM_KILLED \<or> u \<in> set ts"
    "same_queues k (fold (\<lambda>w. queue_signal w ev) ts k)"
  by (rule fold_flags, simp add: queue_kill [OF assms] task_flag_or flag_defs)
     (rule same_queues_fold, auto simp: queue_kill [OF assms] flag_defs intro: same_queues_trans [OF same_queues_or same_queues_kick])

text \<open>What a notification of the parent leaves alone.\<close>

definition same_groups :: "kern \<Rightarrow> kern \<Rightarrow> bool" where
  "same_groups k k' \<longleftrightarrow> k_live k' = k_live k \<and> (\<forall>t. t_tg (k_task k' t) = t_tg (k_task k t))
     \<and> (\<forall>t. task_flag k' t VM_STOPPED = task_flag k t VM_STOPPED)
     \<and> (\<forall>g. tg_threads (k_tg k' g) = tg_threads (k_tg k g) \<and> tg_stopped (k_tg k' g) = tg_stopped (k_tg k g)
          \<and> tg_stop_sig (k_tg k' g) = tg_stop_sig (k_tg k g) \<and> tg_stop_reported (k_tg k' g) = tg_stop_reported (k_tg k g))"

lemma same_groups_refl [simp]: "same_groups k k"
  by (simp add: same_groups_def)

lemma same_groups_trans: "same_groups k k' \<Longrightarrow> same_groups k' k'' \<Longrightarrow> same_groups k k''"
  by (simp add: same_groups_def)

lemma same_groups_wakeup: "same_groups k (wakeup b t k)"
  using task_flag_wakeup [of VM_STOPPED b t k]
  by (simp add: same_groups_def flag_defs) (simp add: wakeup_def and_flags_def)

lemma same_groups_wake_waiters: "same_groups k (wake_waiters g k)"
proof -
  have "same_groups k (fold (wakeup True) ts k)" for ts k
    by (induction ts arbitrary: k) (auto intro: same_groups_trans same_groups_wakeup)
  moreover have "same_groups k (upd_tg g (\<lambda>G. G\<lparr>tg_waiters := []\<rparr>) k)" by (simp add: same_groups_def)
  ultimately show ?thesis unfolding wake_waiters_def by (blast intro: same_groups_trans)
qed

lemma same_groups_enqueue: "same_groups k (enqueue_signal t ev k)"
proof -
  have "task_flag (or_flags VM_SIGNAL_PENDING t (upd_task t (\<lambda>T. T\<lparr>t_pending := t_pending T @ [ev]\<rparr>) k)) u VM_STOPPED = task_flag k u VM_STOPPED" for u
    by (auto simp: task_flag_or flag_defs) (auto simp: task_flag_def split: if_splits)
  then show ?thesis by (simp add: enqueue_signal_def wakeup_def same_groups_def) (simp add: or_flags_def)
qed

lemma same_groups_notify: "same_groups k (notify_parent_sigchld t k)"
  using same_groups_wake_waiters [of k]
  by (auto simp: notify_parent_sigchld_def Let_def queue_nonstop_def split: option.splits
      intro: same_groups_trans [OF same_groups_wake_waiters same_groups_enqueue])

lemma live_threads_cong: "same_groups k k' \<Longrightarrow> live_threads k' g = live_threads k g"
  by (simp add: live_threads_def same_groups_def)

lemma fold_stop:
  "task_flag (fold (\<lambda>v k. wakeup False v (or_flags VM_STOPPED v k)) ts k) u VM_STOPPED \<longleftrightarrow> task_flag k u VM_STOPPED \<or> u \<in> set ts"
  by (rule fold_flags) (simp add: wakeup_def task_flag_or flag_defs)

lemma fold_cont:
  "task_flag (fold (\<lambda>v k. wakeup False v (and_flags VM_STOPPED v k)) ts k) u VM_STOPPED \<longleftrightarrow> task_flag k u VM_STOPPED \<and> u \<notin> set ts"
proof (rule fold_clears)
  fix t k u
  show "task_flag (wakeup False t (and_flags VM_STOPPED t k)) u VM_STOPPED \<longleftrightarrow> task_flag k u VM_STOPPED \<and> u \<noteq> t"
    using task_flag_and_self [of VM_STOPPED t k] by (auto simp: wakeup_def) (auto simp: task_flag_def and_flags_def split: if_splits)
qed

lemma fold_flags_frame:
  assumes "\<And>t k. k_tg (f t k) = k_tg k \<and> k_live (f t k) = k_live k \<and> (\<forall>u. t_tg (k_task (f t k) u) = t_tg (k_task k u))"
  shows "k_tg (fold f ts k) = k_tg k \<and> k_live (fold f ts k) = k_live k \<and> (\<forall>u. t_tg (k_task (fold f ts k) u) = t_tg (k_task k u))"
  by (induction ts arbitrary: k) (simp_all add: assms)

lemma stop_process_effect:
  assumes g: "g = t_tg (k_task k t)" and k'_def: "k' = stop_process t sig k"
  shows "tg_stopped (k_tg k' g)" "tg_stop_sig (k_tg k' g) = sig" "tg_stop_reported (k_tg k' g)" "live_threads k' g = live_threads k g"
    "\<forall>u. t_tg (k_task k' u) = t_tg (k_task k u)" "\<forall>u \<in> set (live_threads k g). task_flag k' u VM_STOPPED"
proof -
  define k1 where "k1 = upd_tg g (\<lambda>G. G\<lparr>tg_stopped := True, tg_stop_sig := sig\<rparr>) k"
  define k2 where "k2 = fold (\<lambda>v k. wakeup False v (or_flags VM_STOPPED v k)) (live_threads k1 g) k1"
  have f: "k_tg k2 = k_tg k1 \<and> k_live k2 = k_live k1 \<and> (\<forall>u. t_tg (k_task k2 u) = t_tg (k_task k1 u))"
    unfolding k2_def by (rule fold_flags_frame) (simp add: wakeup_def or_flags_def)
  have lt: "live_threads k1 g = live_threads k g" by (simp add: live_threads_def k1_def)
  define k3 where "k3 = upd_tg g (\<lambda>G. G\<lparr>tg_stop_reported := True\<rparr>) k2"
  have k': "k' = (if tg_stop_reported (k_tg k2 g) then k2 else notify_parent_sigchld t k3)"
    by (simp add: k'_def stop_process_def Let_def k3_def k2_def k1_def g)
  have st: "\<forall>u \<in> set (live_threads k g). task_flag k2 u VM_STOPPED" unfolding k2_def fold_stop lt by simp
  have "tg_stopped (k_tg k' g) \<and> tg_stop_sig (k_tg k' g) = sig \<and> tg_stop_reported (k_tg k' g) \<and> live_threads k' g = live_threads k g
    \<and> (\<forall>u. t_tg (k_task k' u) = t_tg (k_task k u)) \<and> (\<forall>u \<in> set (live_threads k g). task_flag k' u VM_STOPPED)"
  proof (cases "tg_stop_reported (k_tg k2 g)")
    case True
    then show ?thesis using f st lt by (simp add: k' k1_def live_threads_def)
  next
    case False
    then have e: "k' = notify_parent_sigchld t k3" by (simp add: k')
    note sg = same_groups_notify [of k3 t, folded e]
    have "live_threads k3 g = live_threads k g" using f by (simp add: k3_def k1_def live_threads_def)
    then show ?thesis using sg f st live_threads_cong [OF sg] by (simp add: same_groups_def k3_def k1_def)
  qed
  then show "tg_stopped (k_tg k' g)" "tg_stop_sig (k_tg k' g) = sig" "tg_stop_reported (k_tg k' g)" "live_threads k' g = live_threads k g"
    "\<forall>u. t_tg (k_task k' u) = t_tg (k_task k u)" "\<forall>u \<in> set (live_threads k g). task_flag k' u VM_STOPPED" by blast+
qed

lemma cont_group_effect:
  "\<not> tg_stopped (k_tg (cont_group g k) g)" "u \<in> set (live_threads k g) \<Longrightarrow> \<not> task_flag (cont_group g k) u VM_STOPPED"
proof -
  have "k_tg (fold (\<lambda>t k. wakeup False t (and_flags VM_STOPPED t k)) ts k) = k_tg k" for ts k
    using fold_flags_frame [of "\<lambda>t k. wakeup False t (and_flags VM_STOPPED t k)" ts k] by (simp add: wakeup_def and_flags_def)
  then show "\<not> tg_stopped (k_tg (cont_group g k) g)" by (simp add: cont_group_def)
  show "\<not> task_flag (cont_group g k) u VM_STOPPED" if "u \<in> set (live_threads k g)" using that unfolding cont_group_def fold_cont by simp
qed

end
