(* ===== verification/Posix_Signal_Claims.thy ===== *)
theory Posix_Signal_Claims
  imports Posix_Signal_Props
begin

text \<open>The properties of signals between tasks, with a small system of two processes for the witnesses.\<close>

text \<open>
  The steps of the signal system: a task gets a signal from anywhere, a task takes its next signal at
  a safepoint, a task changes its mask through sigprocmask, a thread group exits.
\<close>

inductive sig_step :: "kern \<Rightarrow> kern \<Rightarrow> bool" where
  queue: "valid_event ev \<Longrightarrow> sig_step k (queue_signal t ev k)"
| deliver: "sig_step k (snd (deliver_next t k))"
| kill: "sig_step k (snd (kill_call t p sig k))"
| mask: "sig_step k (set_mask t m k)"
| exit: "sig_step k (exit_group t code k)"
| host: "sig < NSIG \<Longrightarrow> sig_step k (host_signal t sig k)"

inductive_simps sig_step_iff: "sig_step k k'"

lemma set_mask_ok: "queues_ok k \<Longrightarrow> queues_ok (set_mask t m k)"
  by (auto simp: set_mask_def Let_def queue_empty_def wakeup_def queues_ok_def queue_ok_def deliverable_def or_flags_def
      bit.conj_disj_distrib2 flag_defs)

lemma host_signal_ok: "\<lbrakk>queues_ok k; sig < NSIG\<rbrakk> \<Longrightarrow> queues_ok (host_signal t sig k)"
  using same_queues_ok [OF same_queues_kick, of k t]
  by (auto simp: host_signal_def deliver_to_ctty_fg_def Let_def wakeup_def valid_event_def intro!: queue_signal_ok fold_queues_ok)

lemma sig_step_ok: "sig_step k k' \<Longrightarrow> queues_ok k \<Longrightarrow> queues_ok k'"
proof (induction rule: sig_step.induct)
  case (kill k t p sig)
  then show ?case using send_sig_info_ok [of k sig] by (simp add: kill_call_def)
qed (simp_all add: queue_signal_ok deliver_next_ok set_mask_ok exit_group_ok host_signal_ok)


text \<open>Two processes, numbers 1 and 2; task 3 is a second thread of process 2.\<close>

definition demo_task :: "u64 \<Rightarrow> nat \<Rightarrow> task" where
  "demo_task p g = \<lparr>t_pid = p, t_flags = 0, t_sigmask = 0, t_pending = [], t_tid_address = 0, t_tid = True,
     t_tg = g, t_ps = 0, t_pgid = 1, t_session = 0, t_comm = ''guest''\<rparr>"

definition demo_tg :: "u64 \<Rightarrow> u64 \<Rightarrow> nat list \<Rightarrow> ThreadGroup" where
  "demo_tg p pp ts = \<lparr>tg_tgid = p, tg_ppid = pp, tg_live_threads = length ts, tg_exited = False, tg_exit_code = - 1,
     tg_stopped = False, tg_stop_sig = - 1, tg_stop_reported = False, tg_waiters = [], tg_threads = ts\<rparr>"

definition demo_kern :: kern where
  "demo_kern = \<lparr>k_me = 1, k_task = (\<lambda>t. if t = 1 then demo_task 1 1 else if t = 2 then demo_task 2 2 else demo_task 3 2),
     k_live = (\<lambda>t. 1 \<le> t \<and> t \<le> 3), k_tg = (\<lambda>g. if g = 1 then demo_tg 1 0 [1] else demo_tg 2 1 [2, 3]),
     k_ps = (\<lambda>_. \<lparr>ps_cwd = ''/'', ps_actions = (\<lambda>_. \<lparr>sa_handler = 0, sa_mask = 0, sa_flags = 0\<rparr>),
       ps_root = ''/'', ps_exe_path = ''/init'', ps_umask = 18, ps_fds = []\<rparr>),
     k_session = (\<lambda>_. \<lparr>ss_sid = 1, ss_ctty = None\<rparr>), k_tty = (\<lambda>_. \<lparr>tty_fg_pgrp = 1, tty_owner = None, tty_ptn = - 1\<rparr>),
     k_fd = (\<lambda>_. \<lparr>fd_cloexec = False, fd_host = True, fd_signal = None, fd_tty = None, fd_master = None, fd_path = [], fd_virt = NotVirtual\<rparr>), k_token = (\<lambda>_. 0), k_ptmx = [],
     k_pid_map = [(1, 1), (2, 2), (3, 3)], k_futex = (\<lambda>_. None),
     k_next_pid = 4, k_kicked = [], k_write_ok = (\<lambda>_. True), k_writes = 0\<rparr>"

lemma demo_kern_ok: "queues_ok demo_kern"
  by (simp add: queues_ok_def queue_ok_def deliverable_def demo_kern_def demo_task_def)




text \<open>Events with a number only.\<close>

definition plain_event :: "int \<Rightarrow> SigEvent" where
  "plain_event sig = \<lparr>ev_sig = sig, ev_sender = 1, ev_code = 0, ev_status = 0, ev_value = 0\<rparr>"

definition order_kern :: kern where
  "order_kern = upd_task 2 (\<lambda>T. T\<lparr>t_pending := [plain_event 10, plain_event 15, plain_event 12], t_sigmask := 0xA00,
     t_flags := VM_SIGNAL_PENDING\<rparr>) demo_kern"

text \<open>
  C21: blocked signals do not keep their arrival order. With signals 10 and 12 blocked and the queue
  10, 15, 12, taking 15 leaves 12 before 10, although the comments of handle_signals promise FIFO
  order: the deferred events go behind what was not scanned.
\<close>

theorem blocked_signals_reordered:
  "queues_ok order_kern \<and> ev_sig (fst (take_signal 2 order_kern)) = 15
   \<and> map ev_sig (t_pending (k_task (snd (take_signal 2 order_kern)) 2)) = [12, 10]"
proof -
  have "scan_pending (Suc (Suc n)) 0xA00 [] [plain_event 10, plain_event 15, plain_event 12] order_kern
      = (plain_event 15, [plain_event 12], [plain_event 10], order_kern)" for n
    by (simp add: blocked_by_def sig_bit_def plain_event_def)
  from this [of 1022] have "take_signal 2 order_kern = (plain_event 15, upd_task 2 (\<lambda>T. T\<lparr>t_pending := [plain_event 12, plain_event 10]\<rparr>) order_kern)"
    by (simp add: take_signal_def) (simp add: order_kern_def signalfds_of_def demo_kern_def plain_event_def demo_task_def)
  moreover have "queues_ok order_kern"
    by (simp add: queues_ok_def queue_ok_def deliverable_def order_kern_def demo_kern_def demo_task_def queueable_def valid_event_def plain_event_def flag_defs)
  ultimately show ?thesis by (simp add: plain_event_def)
qed

text \<open>
  C22: kill with SIGKILL and the number of a task marks every live thread of its group as killed,
  without touching any signal queue.
\<close>

theorem sigkill_reaches_group:
  assumes "0 < p" "find_task k (word_of_int p) = Some v"
  shows "case kill_call t p SIGKILL k of (r, k') \<Rightarrow> r = 0 \<and> same_queues k k'
     \<and> (\<forall>w \<in> set (live_threads k (t_tg (k_task k v))). task_flag k' w VM_KILLED)"
  using assms by (simp add: kill_call_def send_sig_info_def send_targets_def send_one_def fold_kill)

lemma sigkill_reaches_group_witness:
  "case kill_call 1 2 SIGKILL demo_kern of (r, k') \<Rightarrow> r = 0 \<and> task_flag k' 2 VM_KILLED \<and> task_flag k' 3 VM_KILLED"
proof -
  have f: "find_task demo_kern (word_of_int 2) = Some 2" by (simp add: find_task_def demo_kern_def)
  have "live_threads demo_kern (t_tg (k_task demo_kern 2)) = [2, 3]" by (simp add: live_threads_def demo_kern_def demo_task_def demo_tg_def)
  then show ?thesis using sigkill_reaches_group [OF _ f, of 1] by (simp split: prod.splits)
qed

text \<open>
  C23: SIGSTOP stops every live thread of the group and records the signal for the parent, and
  SIGCONT to any thread of the group lets all of them go on.
\<close>

theorem stop_and_continue:
  assumes g: "g = t_tg (k_task k t)" "t_tg (k_task k u) = g" and ev: "ev_sig e1 = SIGSTOP" "ev_sig e2 = SIGCONT"
    and k: "k1 = queue_signal t e1 k" "k2 = queue_signal u e2 k1"
  shows "tg_stopped (k_tg k1 g) \<and> tg_stop_sig (k_tg k1 g) = SIGSTOP \<and> tg_stop_reported (k_tg k1 g)
     \<and> (\<forall>w \<in> set (live_threads k g). task_flag k1 w VM_STOPPED)
     \<and> \<not> tg_stopped (k_tg k2 g) \<and> (\<forall>w \<in> set (live_threads k g). \<not> task_flag k2 w VM_STOPPED)"
proof -
  have k1: "k1 = stop_process t SIGSTOP k" using ev(1) k(1) by (simp add: queue_signal_def)
  note s = stop_process_effect [OF g(1) k1]
  have "t_tg (k_task k1 u) = g" using s(5) g(2) by simp
  then have k2: "k2 = cont_group g k1" using ev(2) k(2) by (simp add: queue_signal_def queue_nonstop_def is_default_stop_def)
  show ?thesis using s cont_group_effect(1) [of g k1] cont_group_effect(2) [of _ k1 g] unfolding k2 by simp
qed

lemma stop_and_continue_witness:
  "\<exists>k1 k2. k1 = queue_signal 2 (plain_event SIGSTOP) demo_kern \<and> k2 = queue_signal 3 (plain_event SIGCONT) k1
     \<and> tg_stopped (k_tg k1 2) \<and> \<not> tg_stopped (k_tg k2 2)"
proof -
  have "2 = t_tg (k_task demo_kern 2)" "t_tg (k_task demo_kern 3) = 2" by (simp_all add: demo_kern_def demo_task_def)
  from stop_and_continue [OF this, of "plain_event SIGSTOP" "plain_event SIGCONT"] show ?thesis by (simp add: plain_event_def)
qed

end
