(* ===== verification/Posix_Process_Props.thy ===== *)
theory Posix_Process_Props
  imports Posix_Process Posix_Signal_Claims
begin

text \<open>
  Properties of processes: what a wait call may report and when it may say that there is nothing,
  that the end of a child wakes its waiting parent, status words, and process groups.
\<close>

subsection \<open>Claiming a child\<close>

text \<open>What claiming the entry p of child v means: an exit is consumed with the table entry, a stop with its flag.\<close>

definition claims :: "kern \<Rightarrow> bool \<Rightarrow> u64 \<Rightarrow> nat \<Rightarrow> wait_event \<Rightarrow> kern \<Rightarrow> bool" where
  "claims k nowait p v e k' \<longleftrightarrow>
     tg_exited (tg_of k v) \<and> e = exit_event k v \<and> k' = (if nowait then k else erase_pid p k)
     \<or> \<not> tg_exited (tg_of k v) \<and> tg_stopped (tg_of k v) \<and> tg_stop_reported (tg_of k v) \<and> e = stop_event k v
       \<and> k' = (if nowait then k else upd_tg (t_tg (k_task k v)) (\<lambda>G. G\<lparr>tg_stop_reported := False\<rparr>) k)"

definition claim_post :: "nat \<Rightarrow> int \<Rightarrow> int \<Rightarrow> bool \<Rightarrow> (u64 \<times> nat) list \<Rightarrow> bool \<Rightarrow> kern \<Rightarrow> claim \<times> kern \<Rightarrow> bool" where
  "claim_post t idtype wid nowait m any k = (\<lambda>(c, k').
     case c of
       Claimed e \<Rightarrow> (\<exists>(p, v) \<in> set m. match_child k t idtype wid v \<and> claims k nowait p v e k')
     | No_Event \<Rightarrow> k' = k \<and> (any \<or> (\<exists>(p, v) \<in> set m. match_child k t idtype wid v))
         \<and> (\<forall>(p, v) \<in> set m. match_child k t idtype wid v \<longrightarrow> \<not> child_has_event k v)
     | No_Child \<Rightarrow> k' = k \<and> \<not> any \<and> (\<forall>(p, v) \<in> set m. \<not> match_child k t idtype wid v))"

lemma claim_loop_spec: "claim_post t idtype wid nowait m any k (claim_loop t idtype wid nowait m any k)"
proof (induction t idtype wid nowait m any k rule: claim_loop.induct)
  case (2 t idtype wid nowait p v m any k)
  consider (skip) "\<not> match_child k t idtype wid v" | (exited) "match_child k t idtype wid v" "tg_exited (tg_of k v)"
    | (stopped) "match_child k t idtype wid v" "\<not> tg_exited (tg_of k v)" "tg_stopped (tg_of k v)" "tg_stop_reported (tg_of k v)"
    | (quiet) "match_child k t idtype wid v" "\<not> tg_exited (tg_of k v)" "\<not> (tg_stopped (tg_of k v) \<and> tg_stop_reported (tg_of k v))" by blast
  then show ?case
  proof cases
    case skip
    then show ?thesis using 2(1) by (auto simp: claim_post_def split: claim.splits)
  next
    case exited
    then show ?thesis by (simp add: claim_post_def claims_def)
  next
    case stopped
    then show ?thesis by (simp add: claim_post_def claims_def)
  next
    case quiet
    then have "\<not> child_has_event k v" by (simp add: child_has_event_def)
    moreover have "claim_loop t idtype wid nowait ((p, v) # m) any k = claim_loop t idtype wid nowait m True k" using quiet by auto
    ultimately show ?thesis using 2(2) quiet by (auto simp: claim_post_def split: claim.splits)
  qed
qed (simp add: claim_post_def)

lemma claim_one_spec: "claim_post t idtype wid nowait (k_pid_map k) False k (claim_one t idtype wid nowait k)"
  unfolding claim_one_def by (rule claim_loop_spec)

lemma claim_ready:
  assumes "(p, v) \<in> set (k_pid_map k)" "match_child k t idtype wid v" "child_has_event k v"
  shows "\<exists>e k'. claim_one t idtype wid nowait k = (Claimed e, k')"
proof (cases "claim_one t idtype wid nowait k")
  case (Pair c k')
  then show ?thesis using claim_one_spec [of t idtype wid nowait k] assms
    by (cases c) (auto simp: claim_post_def)
qed

lemma erased: "find_task (erase_pid p k) p = None"
  by (auto simp: find_task_def erase_pid_def map_of_eq_None_iff)

subsection \<open>What a notification leaves alone\<close>

definition same_procs :: "kern \<Rightarrow> kern \<Rightarrow> bool" where
  "same_procs k k' \<longleftrightarrow> k_pid_map k' = k_pid_map k \<and> k_live k' = k_live k
     \<and> (\<forall>u. t_pid (k_task k' u) = t_pid (k_task k u) \<and> t_tg (k_task k' u) = t_tg (k_task k u) \<and> t_pgid (k_task k' u) = t_pgid (k_task k u))
     \<and> (\<forall>g. tg_tgid (k_tg k' g) = tg_tgid (k_tg k g) \<and> tg_ppid (k_tg k' g) = tg_ppid (k_tg k g) \<and> tg_exited (k_tg k' g) = tg_exited (k_tg k g)
          \<and> tg_exit_code (k_tg k' g) = tg_exit_code (k_tg k g))
     \<and> (\<forall>u. task_flag k' u VM_BLOCKED \<longrightarrow> task_flag k u VM_BLOCKED)"

lemma same_procs_trans: "same_procs k k' \<Longrightarrow> same_procs k' k'' \<Longrightarrow> same_procs k k''"
  by (simp add: same_procs_def)

lemma same_procs_wakeup: "same_procs k (wakeup b t k)"
proof -
  have "task_flag (and_flags VM_BLOCKED t k) u VM_BLOCKED \<Longrightarrow> task_flag k u VM_BLOCKED" for u
    using task_flag_and_self [of VM_BLOCKED t k] by (auto simp: task_flag_def and_flags_def split: if_splits)
  then show ?thesis by (simp add: same_procs_def wakeup_def) (simp add: and_flags_def)
qed

lemma same_procs_enqueue: "same_procs k (enqueue_signal t ev k)"
proof -
  have "task_flag (or_flags VM_SIGNAL_PENDING t (upd_task t (\<lambda>T. T\<lparr>t_pending := t_pending T @ [ev]\<rparr>) k)) u VM_BLOCKED = task_flag k u VM_BLOCKED" for u
    by (auto simp: task_flag_or flag_defs) (auto simp: task_flag_def split: if_splits)
  then show ?thesis by (simp add: enqueue_signal_def wakeup_def same_procs_def) (simp add: or_flags_def)
qed

lemma wake_waiters_frame:
  "same_procs k (wake_waiters g k)" "w \<in> set (tg_waiters (k_tg k g)) \<Longrightarrow> k_live k w \<Longrightarrow> \<not> task_flag (wake_waiters g k) w VM_BLOCKED"
proof -
  have "same_procs k (fold (wakeup True) ts k)" for ts k
    by (induction ts arbitrary: k) (auto intro: same_procs_trans same_procs_wakeup simp: same_procs_def [of k k for k])
  moreover have "same_procs k (upd_tg g (\<lambda>G. G\<lparr>tg_waiters := []\<rparr>) k)" by (simp add: same_procs_def)
  ultimately show "same_procs k (wake_waiters g k)" unfolding wake_waiters_def by (blast intro: same_procs_trans)
  have "task_flag (fold (wakeup True) ts k) u VM_BLOCKED \<longleftrightarrow> task_flag k u VM_BLOCKED \<and> u \<notin> set ts" for ts k u
  proof (rule fold_clears)
    fix t k u
    show "task_flag (wakeup True t k) u VM_BLOCKED \<longleftrightarrow> task_flag k u VM_BLOCKED \<and> u \<noteq> t"
      using task_flag_and_self [of VM_BLOCKED t k] by (auto simp: wakeup_def) (auto simp: task_flag_def and_flags_def split: if_splits)
  qed
  then show "w \<in> set (tg_waiters (k_tg k g)) \<Longrightarrow> k_live k w \<Longrightarrow> \<not> task_flag (wake_waiters g k) w VM_BLOCKED"
    unfolding wake_waiters_def by simp
qed

lemma notify_frame:
  assumes g: "g = t_tg (k_task k t)" and k': "k' = notify_parent_sigchld t k"
  shows "same_procs k k'" "w \<in> set (tg_waiters (k_tg k g)) \<Longrightarrow> k_live k w \<Longrightarrow> \<not> task_flag k' w VM_BLOCKED"
proof -
  have "same_procs (wake_waiters g k) k'"
    using same_procs_enqueue unfolding k' notify_parent_sigchld_def Let_def queue_nonstop_def g
    by (auto simp: same_procs_def [of k k for k] split: option.splits)
  then show "same_procs k k'" "w \<in> set (tg_waiters (k_tg k g)) \<Longrightarrow> k_live k w \<Longrightarrow> \<not> task_flag k' w VM_BLOCKED"
    using wake_waiters_frame(1) [of k g] wake_waiters_frame(2) [of w k g] same_procs_trans by (blast, auto simp: same_procs_def)
qed

lemma same_procs_refl [simp]: "same_procs k k"
  by (simp add: same_procs_def)

lemma same_procs_fold: "(\<And>x k. same_procs k (f x k) \<and> k_tg (f x k) = k_tg k) \<Longrightarrow> same_procs k (fold f xs k) \<and> k_tg (fold f xs k) = k_tg k"
  by (induction xs arbitrary: k) (auto intro: same_procs_trans)

text \<open>Closing descriptors sends at most SIGHUP, which queues and does not stop.\<close>

lemma hangup_frame: "ev_sig ev = SIGHUP \<Longrightarrow> same_procs k (queue_signal v ev k) \<and> k_tg (queue_signal v ev k) = k_tg k"
  by (simp add: queue_signal_def queue_nonstop_def is_default_stop_def same_procs_enqueue) (simp add: enqueue_signal_def)

lemma on_close_frame: "same_procs k (fd_on_close t i k) \<and> k_tg (fd_on_close t i k) = k_tg k"
proof -
  have d: "same_procs k (deliver_to_ctty_fg t y SIGHUP k) \<and> k_tg (deliver_to_ctty_fg t y SIGHUP k) = k_tg k" for y k
  proof -
    let ?ev = "\<lparr>ev_sig = SIGHUP, ev_sender = 0, ev_code = SI_KERNEL, ev_status = 0, ev_value = 0\<rparr>"
    have "same_procs k (fold (\<lambda>v. queue_signal v ?ev) vs k) \<and> k_tg (fold (\<lambda>v. queue_signal v ?ev) vs k) = k_tg k" for vs
      by (rule same_procs_fold) (simp add: hangup_frame)
    then show ?thesis using hangup_frame [of ?ev k t] by (auto simp: deliver_to_ctty_fg_def Let_def)
  qed
  have "same_procs k (k\<lparr>k_ptmx := p\<rparr>)" for p by (simp add: same_procs_def task_flag_def)
  then show ?thesis using d by (auto simp: fd_on_close_def split: option.splits intro: same_procs_trans)
qed

lemma close_all_frame: "same_procs k (close_all t k)" "k_tg (close_all t k) = k_tg k"
proof -
  define fs where "fs = map snd (ps_fds (ps_of k t))"
  define k1 where "k1 = fold (fd_on_close t) fs k"
  define k2 where "k2 = upd_ps (t_ps (k_task k t)) (\<lambda>S. S\<lparr>ps_fds := []\<rparr>) k1"
  have k1: "same_procs k k1 \<and> k_tg k1 = k_tg k" unfolding k1_def by (rule same_procs_fold) (rule on_close_frame)
  have k2: "same_procs k1 k2 \<and> k_tg k2 = k_tg k1" by (simp add: k2_def same_procs_def task_flag_def upd_ps_def)
  have "same_procs k2 (fold fd_release fs k2) \<and> k_tg (fold fd_release fs k2) = k_tg k2"
    by (rule same_procs_fold) (simp add: fd_release_def same_procs_def task_flag_def split: option.split)
  moreover have "close_all t k = fold fd_release fs k2" by (simp add: close_all_def k2_def k1_def fs_def Let_def)
  ultimately show "same_procs k (close_all t k)" "k_tg (close_all t k) = k_tg k"
    using k1 k2 by (metis same_procs_trans, simp)
qed

subsection \<open>The end of a child\<close>

lemma reparent_frame:
  assumes "tg_ppid (k_tg k g) \<noteq> tgid" "k' = reparent tgid k"
  shows "k_tg k' g = k_tg k g" "k_task k' = k_task k" "k_pid_map k' = k_pid_map k" "\<forall>h. tg_tgid (k_tg k' h) = tg_tgid (k_tg k h)"
proof -
  let ?f = "\<lambda>v k. if tg_ppid (tg_of k v) = tgid then upd_tg (t_tg (k_task k v)) (\<lambda>G. G\<lparr>tg_ppid := 1\<rparr>) k else k"
  have "k_tg (fold ?f vs k) g = k_tg k g \<and> k_task (fold ?f vs k) = k_task k \<and> k_pid_map (fold ?f vs k) = k_pid_map k
      \<and> (\<forall>h. tg_tgid (k_tg (fold ?f vs k) h) = tg_tgid (k_tg k h))" if "tg_ppid (k_tg k g) \<noteq> tgid" for vs k
    using that
  proof (induction vs arbitrary: k)
    case (Cons v vs)
    let ?k = "?f v k"
    have "k_tg ?k g = k_tg k g" "k_task ?k = k_task k" "k_pid_map ?k = k_pid_map k" "\<forall>h. tg_tgid (k_tg ?k h) = tg_tgid (k_tg k h)"
      using Cons.prems by auto
    then show ?case using Cons.IH [of ?k] Cons.prems by simp
  qed simp
  then show "k_tg k' g = k_tg k g" "k_task k' = k_task k" "k_pid_map k' = k_pid_map k" "\<forall>h. tg_tgid (k_tg k' h) = tg_tgid (k_tg k h)"
    using assms unfolding reparent_def by simp_all
qed

lemma task_flag_cong: "k_task k' = k_task k \<Longrightarrow> task_flag k' u fl = task_flag k u fl"
  by (simp add: task_flag_def)

lemma fini_wakes:
  assumes last: "tg_live_threads (tg_of k t) = 1" and t: "t_pid (k_task k t) \<noteq> 1" "t_pid (k_task k t) = tg_tgid (tg_of k t)"
    and pp: "tg_ppid (tg_of k t) \<noteq> tg_tgid (tg_of k t)" and w: "w \<in> set (tg_waiters (tg_of k t))" "k_live k w"
    and k': "k' = fini_task t k"
  shows "\<not> task_flag k' w VM_BLOCKED" "tg_exited (tg_of k' t)" "k_pid_map k' = k_pid_map k"
    "\<forall>u. t_pid (k_task k' u) = t_pid (k_task k u) \<and> t_tg (k_task k' u) = t_tg (k_task k u)"
    "\<forall>h. tg_tgid (k_tg k' h) = tg_tgid (k_tg k h)" "tg_ppid (tg_of k' t) = tg_ppid (tg_of k t)"
    "tg_exit_code (tg_of k' t) = (if tg_exit_code (tg_of k t) = - 1 then 137 else tg_exit_code (tg_of k t))"
proof -
  let ?g = "t_tg (k_task k t)"
  define k3 where "k3 = close_all t (upd_tg ?g (\<lambda>G. G\<lparr>tg_live_threads := tg_live_threads G - 1\<rparr>) k)"
  define k4 where "k4 = upd_tg ?g (\<lambda>G. G\<lparr>tg_exited := True\<rparr>) (set_exit_code ?g (128 + 9) k3)"
  define k5 where "k5 = notify_parent_sigchld t k4"
  have e: "k' = reparent (tg_tgid (k_tg k ?g)) k5"
    using last t by (simp add: k' fini_task_def Let_def k3_def k4_def k5_def)
  have k4: "\<forall>u. t_pid (k_task k4 u) = t_pid (k_task k u) \<and> t_tg (k_task k4 u) = t_tg (k_task k u)" "k_live k4 = k_live k" "k_pid_map k4 = k_pid_map k" "tg_exited (k_tg k4 ?g)" "tg_waiters (k_tg k4 ?g) = tg_waiters (k_tg k ?g)"
    "\<forall>h. tg_tgid (k_tg k4 h) = tg_tgid (k_tg k h) \<and> tg_ppid (k_tg k4 h) = tg_ppid (k_tg k h)"
    "tg_exit_code (k_tg k4 ?g) = (if tg_exit_code (k_tg k ?g) = - 1 then 137 else tg_exit_code (k_tg k ?g))"
    using close_all_frame(1) [of "upd_tg ?g (\<lambda>G. G\<lparr>tg_live_threads := tg_live_threads G - 1\<rparr>) k" t]
      close_all_frame(2) [of t "upd_tg ?g (\<lambda>G. G\<lparr>tg_live_threads := tg_live_threads G - 1\<rparr>) k"]
    by (simp_all add: k4_def k3_def set_exit_code_def same_procs_def)
  have g4: "?g = t_tg (k_task k4 t)" using k4 by simp
  note n = notify_frame(1) [OF g4 k5_def] notify_frame(2) [OF g4 k5_def, of w]
  have pp5: "tg_ppid (k_tg k5 ?g) \<noteq> tg_tgid (k_tg k ?g)" using n(1) k4(6) pp by (simp add: same_procs_def)
  note r = reparent_frame [OF pp5 e]
  show "\<not> task_flag k' w VM_BLOCKED" using n(2) w k4 task_flag_cong [OF r(2)] by simp
  show "tg_exited (tg_of k' t)" "tg_ppid (tg_of k' t) = tg_ppid (tg_of k t)"
    "tg_exit_code (tg_of k' t) = (if tg_exit_code (tg_of k t) = - 1 then 137 else tg_exit_code (tg_of k t))"
    using n(1) r(1,2) k4 by (simp_all add: same_procs_def)
  show "k_pid_map k' = k_pid_map k" "\<forall>u. t_pid (k_task k' u) = t_pid (k_task k u) \<and> t_tg (k_task k' u) = t_tg (k_task k u)"
    "\<forall>h. tg_tgid (k_tg k' h) = tg_tgid (k_tg k h)"
    using n(1) r(2-4) k4 by (simp_all add: same_procs_def)
qed

end
