(* ===== verification/Posix_Process_Claims.thy ===== *)
theory Posix_Process_Claims
  imports Posix_Process_Props
begin

text \<open>The properties of processes, with witnesses on the two processes of the signal theory.\<close>


text \<open>Process 2 with one thread, for which process 1 waits.\<close>

definition child_kern :: kern where
  "child_kern = upd_task 1 (\<lambda>T. T\<lparr>t_flags := VM_BLOCKED\<rparr>) (upd_tg 2 (\<lambda>_. (demo_tg 2 1 [2])\<lparr>tg_waiters := [1]\<rparr>) demo_kern)"

lemmas child_eval = child_kern_def demo_kern_def demo_task_def demo_tg_def


text \<open>
  Claiming an exited child reports a child of the caller that has exited, with its exit code,
  and takes it out of the process table, so that it cannot be claimed again.
\<close>

lemma exit_claimed_once:
  assumes "claim_one t idtype wid False k = (Claimed e, k')" "we_exited e"
  shows "\<exists>p v. (p, v) \<in> set (k_pid_map k) \<and> match_child k t idtype wid v \<and> tg_exited (tg_of k v) \<and> e = exit_event k v
     \<and> k' = erase_pid p k \<and> find_task k' p = None"
  using claim_one_spec [of t idtype wid False k] assms erased
  by (auto simp: claim_post_def claims_def stop_event_def)

text \<open>
  C25: a wait call says that there is no child only if none matches, and that there is nothing to
  report only if some child matches and none of the matching ones has exited or newly stopped; in
  both cases it changes nothing.
\<close>

theorem wait_misses_nothing:
  "case claim_one t idtype wid nowait k of
     (Claimed e, k') \<Rightarrow> \<exists>(p, v) \<in> set (k_pid_map k). match_child k t idtype wid v \<and> child_has_event k v \<and> we_child e = Some v
   | (No_Event, k') \<Rightarrow> k' = k \<and> (\<exists>(p, v) \<in> set (k_pid_map k). match_child k t idtype wid v)
       \<and> \<not> (\<exists>(p, v) \<in> set (k_pid_map k). match_child k t idtype wid v \<and> child_has_event k v)
   | (No_Child, k') \<Rightarrow> k' = k \<and> \<not> (\<exists>(p, v) \<in> set (k_pid_map k). match_child k t idtype wid v)"
  using claim_one_spec [of t idtype wid nowait k]
  by (force simp: claim_post_def claims_def exit_event_def stop_event_def child_has_event_def split: claim.splits prod.splits)

text \<open>The decoding of a status word that the C library's macros do.\<close>

datatype child_state = Exited u32 | Signaled u32 | Stopped u32

definition decode_status :: "u32 \<Rightarrow> child_state" where
  "decode_status s =
     (if s AND 0x7f = 0 then Exited (drop_bit 8 s AND 0xff)
      else if s AND 0xff = 0x7f then Stopped (drop_bit 8 s AND 0xff)
      else Signaled (s AND 0x7f))"

lemma and_low: "(x :: u32) AND 0x7f = take_bit 7 x" "x AND 0xff = take_bit 8 x"
  by (simp_all add: take_bit_eq_mask mask_eq_exp_minus_1)

lemma shift_byte: "take_bit 8 (drop_bit 8 (push_bit 8 (take_bit 8 (x :: u32)) OR 0x7f)) = take_bit 8 x"
  "take_bit 8 (drop_bit 8 (push_bit 8 (take_bit 8 x))) = take_bit 8 x" "take_bit 7 (push_bit 8 (take_bit 8 x)) = 0"
  "take_bit 7 (push_bit 8 (take_bit 8 x) OR 0x7f) = 0x7f" "take_bit 8 (push_bit 8 (take_bit 8 x) OR 0x7f) = 0x7f"
proof -
  have m: "(0x7f :: u32) = mask 7" by (simp add: mask_eq_exp_minus_1)
  show "take_bit 8 (drop_bit 8 (push_bit 8 (take_bit 8 x) OR 0x7f)) = take_bit 8 x"
    "take_bit 8 (drop_bit 8 (push_bit 8 (take_bit 8 x))) = take_bit 8 x" "take_bit 7 (push_bit 8 (take_bit 8 x)) = 0"
    "take_bit 7 (push_bit 8 (take_bit 8 x) OR 0x7f) = 0x7f" "take_bit 8 (push_bit 8 (take_bit 8 x) OR 0x7f) = 0x7f"
    unfolding m by (rule bit_word_eqI; auto simp: bit_simps)+
qed

lemma small_cast:
  assumes "(c :: u64) < 128"
  shows "take_bit 7 (ucast c :: u32) = ucast c" "take_bit 8 (ucast c :: u32) = ucast c"
proof -
  have "unat (take_bit 7 c) = unat c"
    unfolding unsigned_take_bit_eq using assms by (simp add: take_bit_nat_eq_self_iff word_less_nat_alt)
  then have "take_bit 7 c = c" by (rule unsigned_word_eqI)
  then have b: "bit c n \<Longrightarrow> n < 7" for n by (metis bit_take_bit_iff)
  show "take_bit 7 (ucast c :: u32) = ucast c" "take_bit 8 (ucast c :: u32) = ucast c"
    by (rule bit_word_eqI; use b in \<open>force simp: bit_simps\<close>)+
qed

text \<open>
  C26: the status word of wait4 decodes to what happened: a normal exit code below 128, the number
  of the signal that killed the child, or the number of the signal that stopped it.
\<close>

theorem wait_status_roundtrip:
  assumes "c < 128" "0 < sig" "sig < 127"
  shows "decode_status (wait4_exit_status c) = Exited (ucast c) \<and> decode_status (wait4_exit_status (128 + sig)) = Signaled (ucast sig)
     \<and> decode_status (wait4_stop_status (uint sig)) = Stopped (ucast sig)"
proof -
  have s128: "sig < 128" using assms(3) by (rule less_trans) simp
  have le: "\<not> 128 + sig < 128"
  proof -
    have "unat (128 + sig) = 128 + unat sig" using s128 by (subst unat_add_lem [THEN iffD1]) (simp_all add: word_less_nat_alt)
    then show ?thesis by (simp add: word_less_nat_alt)
  qed
  have ne: "(ucast sig :: u32) \<noteq> 0" "(ucast sig :: u32) \<noteq> 0x7f"
  proof -
    have "unat (ucast sig :: u32) = unat sig"
      unfolding unsigned_ucast_eq using s128 by (simp add: take_bit_nat_eq_self_iff word_less_nat_alt)
    moreover have "0 < unat sig" "unat sig < 127" using assms(2,3) by (simp_all add: word_less_nat_alt)
    ultimately show "(ucast sig :: u32) \<noteq> 0" "(ucast sig :: u32) \<noteq> 0x7f" by auto
  qed
  have st: "word_of_int (uint sig) = (ucast sig :: u32)" by simp
  note c = shift_byte [of "ucast c", unfolded small_cast [OF assms(1)]] and g = shift_byte [of "ucast sig", unfolded small_cast [OF s128]]
  have "\<not> 128 \<le> c" using assms(1) by (simp only: not_le)
  then have "decode_status (wait4_exit_status c) = Exited (ucast c)"
    using assms(1) by (simp add: wait4_exit_status_def decode_status_def and_low small_cast c)
  moreover have "decode_status (wait4_exit_status (128 + sig)) = Signaled (ucast sig)"
    using le ne by (simp add: wait4_exit_status_def decode_status_def and_low small_cast [OF s128] not_less)
  moreover have "decode_status (wait4_stop_status (uint sig)) = Stopped (ucast sig)"
    unfolding wait4_stop_status_def decode_status_def st and_low small_cast [OF s128] g by simp
  ultimately show ?thesis by blast
qed

lemma wait_status_roundtrip_witness:
  "decode_status (wait4_exit_status 42) = Exited 42 \<and> decode_status (wait4_exit_status (128 + 9)) = Signaled 9
   \<and> decode_status (wait4_stop_status 9) = Stopped 9"
  using wait_status_roundtrip [of 42 9] by simp


text \<open>
  Two tasks with the same group number can end up in different sessions, although the header
  says that the same group number implies the same session. From tasks of one session, setpgid lets
  task 3 join group 2 although no task is in group 2 yet, only because a process 2 exists; process 2
  does not lead its group and may therefore start a new session under the same number.
\<close>

lemma setsid_splits_group:
  "case setpgid_call 1 3 2 demo_kern of (r1, k1) \<Rightarrow> case setsid_call 7 2 k1 of (r2, k2) \<Rightarrow>
     r1 = 0 \<and> r2 = 2 \<and> (\<forall>u. t_session (k_task demo_kern u) = 0 \<and> t_pgid (k_task demo_kern u) = 1)
     \<and> t_pgid (k_task k2 2) = t_pgid (k_task k2 3) \<and> t_session (k_task k2 2) \<noteq> t_session (k_task k2 3)"
  by (simp add: setpgid_call_def setsid_call_def find_task_def Let_def child_eval)

text \<open>
  C28: a successful setpgid changes the group of one task only, a task of the caller's session that
  does not lead it, to its own number or to the number of a task of that session.
\<close>

theorem setpgid_stays_in_session:
  assumes "setpgid_call t p q k = (0, k')"
  shows "k' = k \<or> (\<exists>v n. k' = upd_task v (\<lambda>V. V\<lparr>t_pgid := n\<rparr>) k \<and> t_session (k_task k v) = t_session (k_task k t)
     \<and> ss_sid (k_session k (t_session (k_task k v))) \<noteq> t_pid (k_task k v)
     \<and> (n = t_pid (k_task k v) \<or> (\<exists>l. find_task k n = Some l \<and> t_session (k_task k l) = t_session (k_task k t))))"
proof -
  obtain v where "(if p = 0 then Some t else find_task k (word_of_int p)) = Some v"
    using assms by (auto simp: setpgid_call_def split: if_splits option.splits)
  then have "k' = k \<or> k' = upd_task v (\<lambda>V. V\<lparr>t_pgid := (if q = 0 then t_pid (k_task k v) else word_of_int q)\<rparr>) k
     \<and> t_session (k_task k v) = t_session (k_task k t) \<and> ss_sid (k_session k (t_session (k_task k v))) \<noteq> t_pid (k_task k v)
     \<and> ((if q = 0 then t_pid (k_task k v) else word_of_int q) = t_pid (k_task k v)
        \<or> (\<exists>l. find_task k (if q = 0 then t_pid (k_task k v) else word_of_int q) = Some l \<and> t_session (k_task k l) = t_session (k_task k t)))"
    using assms by (auto simp: setpgid_call_def Let_def split: if_splits option.splits)
  then show ?thesis by blast
qed

lemma setpgid_stays_in_session_witness:
  "\<exists>v n. snd (setpgid_call 1 2 0 demo_kern) = upd_task v (\<lambda>V. V\<lparr>t_pgid := n\<rparr>) demo_kern \<or> snd (setpgid_call 1 2 0 demo_kern) = demo_kern"
proof -
  have "setpgid_call 1 2 0 demo_kern = (0, snd (setpgid_call 1 2 0 demo_kern))"
    by (simp add: setpgid_call_def find_task_def Let_def child_eval)
  from setpgid_stays_in_session [OF this] show ?thesis by blast
qed

end
