(* ===== verification/Posix_Futex.thy ===== *)
theory Posix_Futex
  imports Posix_Signal_Props
begin

text \<open>
  Futexes (src/posix/futex.cpp) and sleeping in vm::wait_for (src/insn.cpp). A bucket belongs to a
  thread group and a guest address and lists the tasks that wait there. Going to sleep is the locked
  comparison of the word with the registration; the table and the flags of all tasks are in the
  kernel state, so that the interleavings of waiters and wakers are sequences of steps.
\<close>

abbreviation (input) EAGAIN :: int where "EAGAIN \<equiv> 11"
abbreviation (input) ETIMEDOUT :: int where "ETIMEDOUT \<equiv> 110"

subsection \<open>Sleeping\<close>

text \<open>Seconds and nanoseconds; the deadline of a timeout, carried once.\<close>

type_synonym timespec = "int \<times> int"

definition deadline_of :: "timespec \<Rightarrow> timespec \<Rightarrow> timespec" where
  "deadline_of now timeout =
     (let s = fst now + fst timeout; n = snd now + snd timeout in
      if n \<ge> 1000000000 then (s + 1, n - 1000000000) else (s, n))"

definition deadline_passed :: "timespec \<Rightarrow> timespec \<Rightarrow> bool" where
  "deadline_passed deadline now \<longleftrightarrow> fst now > fst deadline \<or> fst now = fst deadline \<and> snd now \<ge> snd deadline"

definition wait_check :: "timespec option \<Rightarrow> u32 \<Rightarrow> timespec \<Rightarrow> int option" where
  "wait_check deadline f now =
     (if f AND VM_BLOCKED = 0 then Some 0
      else if f AND (VM_KILLED OR VM_SIGNAL_PENDING OR VM_STOPPED OR VM_DEBUG_STOP) \<noteq> 0 then Some (- EINTR)
      else (case deadline of None \<Rightarrow> None | Some d \<Rightarrow> if deadline_passed d now then Some (- ETIMEDOUT) else None))"

text \<open>The flags and the time that each round of the loop reads; no result when the rounds end first.\<close>

primrec wait_loop :: "timespec option \<Rightarrow> (u32 \<times> timespec) list \<Rightarrow> int option" where
  "wait_loop deadline [] = None"
| "wait_loop deadline (r # rs) =
     (case wait_check deadline (fst r) (snd r) of Some rc \<Rightarrow> Some rc | None \<Rightarrow> wait_loop deadline rs)"

definition wait_for :: "timespec option \<Rightarrow> timespec \<Rightarrow> (u32 \<times> timespec) list \<Rightarrow> int option" where
  "wait_for timeout now rs = wait_loop (map_option (deadline_of now) timeout) rs"

subsection \<open>The table\<close>

definition set_bucket :: "nat \<times> u64 \<Rightarrow> nat list \<Rightarrow> kern \<Rightarrow> kern" where
  "set_bucket key ws k = k\<lparr>k_futex := (k_futex k)(key := (if ws = [] then None else Some ws))\<rparr>"

definition futex_detach :: "nat \<times> u64 \<Rightarrow> nat \<Rightarrow> kern \<Rightarrow> kern" where
  "futex_detach key v k =
     (case k_futex k key of
        None \<Rightarrow> k
      | Some ws \<Rightarrow> set_bucket key (filter (\<lambda>w. k_live k w \<and> w \<noteq> v) ws) k)"

text \<open>Taking at most n live waiters, from the end of the bucket given in reverse.\<close>

fun pop_live :: "(nat \<Rightarrow> bool) \<Rightarrow> nat \<Rightarrow> nat list \<Rightarrow> nat list \<times> nat list" where
  "pop_live live 0 ws = ([], ws)"
| "pop_live live (Suc n) [] = ([], [])"
| "pop_live live (Suc n) (w # ws) =
     (if live w then (case pop_live live n ws of (xs, r) \<Rightarrow> (w # xs, r)) else pop_live live (Suc n) ws)"

definition futex_child_tid_clear :: "nat \<times> u64 \<Rightarrow> kern \<Rightarrow> kern" where
  "futex_child_tid_clear key k =
     (case k_futex k key of
        None \<Rightarrow> k
      | Some ws \<Rightarrow>
          if ws = [] then k
          else (case pop_live (k_live k) 1 (rev ws) of (xs, r) \<Rightarrow> fold (wakeup True) xs (set_bucket key (rev r) k)))"

definition futex_wake :: "nat \<times> u64 \<Rightarrow> int \<Rightarrow> kern \<Rightarrow> int \<times> kern" where
  "futex_wake key val k =
     (if val \<le> 0 then (0, k)
      else (case k_futex k key of
              None \<Rightarrow> (0, k)
            | Some ws \<Rightarrow>
                if ws = [] then (0, k)
                else (case pop_live (k_live k) (nat val) (rev ws) of
                        (xs, r) \<Rightarrow> (int (length xs), fold (wakeup True) xs (set_bucket key (rev r) k)))))"

text \<open>The two locked sections of futex_wait, around the sleep.\<close>

definition futex_enter :: "nat \<times> u64 \<Rightarrow> nat \<Rightarrow> u32 \<Rightarrow> u32 \<Rightarrow> kern \<Rightarrow> int \<times> kern" where
  "futex_enter key t word val k =
     (if word \<noteq> val then (- EAGAIN, k)
      else (0, or_flags VM_BLOCKED t (k\<lparr>k_futex := (k_futex k)(key \<mapsto> (case k_futex k key of None \<Rightarrow> [] | Some ws \<Rightarrow> ws) @ [t])\<rparr>)))"

definition futex_leave :: "nat \<times> u64 \<Rightarrow> nat \<Rightarrow> kern \<Rightarrow> kern" where
  "futex_leave key t k = and_flags VM_BLOCKED t (futex_detach key t k)"

definition futex_result :: "int \<Rightarrow> int" where
  "futex_result rc = (if rc = - EINTR then SYSCALL_RESTART else rc)"

subsection \<open>Waiters and wakers\<close>

text \<open>
  W says where each task waits, between its enter and its leave. A waiter may leave at any time, for
  a wake, a signal or its timeout; anything else may change the flags but does not set VM_BLOCKED.
\<close>

inductive futex_step :: "(nat \<rightharpoonup> nat \<times> u64) \<times> kern \<Rightarrow> (nat \<rightharpoonup> nat \<times> u64) \<times> kern \<Rightarrow> bool" where
  enter: "W t = None \<Longrightarrow> k_live k t \<Longrightarrow> futex_step (W, k) (W(t \<mapsto> key), snd (futex_enter key t val val k))"
| wake: "futex_step (W, k) (W, snd (futex_wake key n k))"
| clear: "futex_step (W, k) (W, futex_child_tid_clear key k)"
| leave: "W t = Some key \<Longrightarrow> futex_step (W, k) (W(t := None), futex_leave key t k)"
| other: "k_futex k' = k_futex k \<Longrightarrow> k_live k' = k_live k \<Longrightarrow> (\<And>u. task_flag k' u VM_BLOCKED \<Longrightarrow> task_flag k u VM_BLOCKED)
    \<Longrightarrow> futex_step (W, k) (W, k')"

definition futex_inv :: "(nat \<rightharpoonup> nat \<times> u64) \<times> kern \<Rightarrow> bool" where
  "futex_inv = (\<lambda>(W, k).
     (\<forall>key ws. k_futex k key = Some ws \<longrightarrow> ws \<noteq> [] \<and> (\<forall>t \<in> set ws. W t = Some key))
     \<and> (\<forall>t key. W t = Some key \<longrightarrow> k_live k t \<and> (task_flag k t VM_BLOCKED \<longrightarrow> (\<exists>ws. k_futex k key = Some ws \<and> t \<in> set ws))))"

lemma futex_invD:
  assumes "futex_inv (W, k)"
  shows "k_futex k key = Some ws \<Longrightarrow> ws \<noteq> []" "k_futex k key = Some ws \<Longrightarrow> t \<in> set ws \<Longrightarrow> W t = Some key"
    "W t = Some key \<Longrightarrow> k_live k t" "W t = Some key \<Longrightarrow> task_flag k t VM_BLOCKED \<Longrightarrow> \<exists>ws. k_futex k key = Some ws \<and> t \<in> set ws"
  using assms unfolding futex_inv_def prod.case by blast+

lemma futex_invI:
  assumes "\<And>key ws. k_futex k key = Some ws \<Longrightarrow> ws \<noteq> []" "\<And>key ws t. k_futex k key = Some ws \<Longrightarrow> t \<in> set ws \<Longrightarrow> W t = Some key"
    "\<And>t key. W t = Some key \<Longrightarrow> k_live k t" "\<And>t key. W t = Some key \<Longrightarrow> task_flag k t VM_BLOCKED \<Longrightarrow> \<exists>ws. k_futex k key = Some ws \<and> t \<in> set ws"
  shows "futex_inv (W, k)"
  using assms unfolding futex_inv_def prod.case by blast

lemma pop_live_spec:
  "\<forall>w \<in> set ws. live w \<Longrightarrow> pop_live live n ws = (take n ws, drop n ws)"
  by (induction live n ws rule: pop_live.induct) auto

lemma set_bucket_simps [simp]:
  "k_task (set_bucket key ws k) = k_task k" "k_live (set_bucket key ws k) = k_live k" "k_tg (set_bucket key ws k) = k_tg k"
  "k_futex (set_bucket key ws k) = (k_futex k)(key := (if ws = [] then None else Some ws))"
  by (simp_all add: set_bucket_def)

lemma wake_all:
  "task_flag (fold (wakeup True) ts k) u VM_BLOCKED \<longleftrightarrow> task_flag k u VM_BLOCKED \<and> u \<notin> set ts"
  "k_futex (fold (wakeup True) ts k) = k_futex k" "k_live (fold (wakeup True) ts k) = k_live k"
proof -
  show "task_flag (fold (wakeup True) ts k) u VM_BLOCKED \<longleftrightarrow> task_flag k u VM_BLOCKED \<and> u \<notin> set ts"
  proof (rule fold_clears)
    fix t k u
    show "task_flag (wakeup True t k) u VM_BLOCKED \<longleftrightarrow> task_flag k u VM_BLOCKED \<and> u \<noteq> t"
      using task_flag_and_self [of VM_BLOCKED t k] by (auto simp: wakeup_def) (auto simp: task_flag_def and_flags_def split: if_splits)
  qed
  show "k_futex (fold (wakeup True) ts k) = k_futex k" "k_live (fold (wakeup True) ts k) = k_live k"
    by (induction ts arbitrary: k) simp_all
qed

text \<open>Waking some waiters of a bucket and keeping the rest.\<close>

lemma futex_inv_pop:
  assumes inv: "futex_inv (W, k)" and ws: "k_futex k key = Some ws" and p: "pop_live (k_live k) n (rev ws) = (xs, r)"
  shows "futex_inv (W, fold (wakeup True) xs (set_bucket key (rev r) k))" "ws = rev r @ rev xs" "length xs = min n (length ws)"
proof -
  note D = futex_invD [OF inv]
  have "\<forall>w \<in> set (rev ws). k_live k w" using D(2) [OF ws] D(3) by auto
  then have q: "xs = take n (rev ws)" "r = drop n (rev ws)" using pop_live_spec [of "rev ws" "k_live k" n] p by simp_all
  show "length xs = min n (length ws)" using q by simp
  have "rev ws = xs @ r" using q by simp
  then show w: "ws = rev r @ rev xs" by (simp add: rev_eq_append_conv)
  have tf: "task_flag (set_bucket key (rev r) k) u fl = task_flag k u fl" for u fl by (simp add: task_flag_def)
  show "futex_inv (W, fold (wakeup True) xs (set_bucket key (rev r) k))"
  proof (rule futex_invI, unfold wake_all tf)
    fix key' ws' assume "k_futex (set_bucket key (rev r) k) key' = Some ws'"
    then show "ws' \<noteq> []" using D(1) [of key' ws'] by (auto split: if_splits)
  next
    fix key' ws' t assume "k_futex (set_bucket key (rev r) k) key' = Some ws'" "t \<in> set ws'"
    then show "W t = Some key'" using D(2) [of key' ws' t] D(2) [OF ws, of t] w by (auto split: if_splits)
  next
    fix t key' assume W: "W t = Some key'"
    then show "k_live (set_bucket key (rev r) k) t" using D(3) by simp
    assume "task_flag k t VM_BLOCKED \<and> t \<notin> set xs"
    then show "\<exists>ws. k_futex (set_bucket key (rev r) k) key' = Some ws \<and> t \<in> set ws"
      using D(4) [OF W] ws w by (cases "key' = key") auto
  qed
qed

lemma futex_inv_enter:
  assumes inv: "futex_inv (W, k)" and t: "W t = None" "k_live k t"
  shows "futex_inv (W(t \<mapsto> key), snd (futex_enter key t val val k))"
proof -
  note D = futex_invD [OF inv]
  let ?k = "snd (futex_enter key t val val k)"
  have f: "k_futex ?k = (k_futex k)(key \<mapsto> (case k_futex k key of None \<Rightarrow> [] | Some ws \<Rightarrow> ws) @ [t])" "k_live ?k = k_live k"
    by (simp_all add: futex_enter_def)
  have b: "task_flag ?k u VM_BLOCKED \<longleftrightarrow> task_flag k u VM_BLOCKED \<or> u = t" for u
    by (simp add: futex_enter_def task_flag_or flag_defs) (simp add: task_flag_def)
  show ?thesis
  proof (rule futex_invI, unfold f b)
    fix key' ws' u assume "((k_futex k)(key \<mapsto> (case k_futex k key of None \<Rightarrow> [] | Some ws \<Rightarrow> ws) @ [t])) key' = Some ws'" "u \<in> set ws'"
    then show "(W(t \<mapsto> key)) u = Some key'"
      using D(2) [of key' ws' u] D(2) [of key _ u] t(1) by (cases "u = t"; auto split: if_splits option.splits)
  next
    fix u key' assume W: "(W(t \<mapsto> key)) u = Some key'" and "task_flag k u VM_BLOCKED \<or> u = t"
    then show "\<exists>ws. ((k_futex k)(key \<mapsto> (case k_futex k key of None \<Rightarrow> [] | Some ws \<Rightarrow> ws) @ [t])) key' = Some ws \<and> u \<in> set ws"
      using D(4) [of u key'] by (cases "key' = key"; cases "u = t") auto
  qed (use D t in \<open>auto split: if_splits option.splits\<close>)
qed

lemma futex_inv_leave:
  assumes inv: "futex_inv (W, k)" and t: "W t = Some key"
  shows "futex_inv (W(t := None), futex_leave key t k)"
proof -
  note D = futex_invD [OF inv]
  let ?k = "futex_leave key t k"
  have f: "k_futex ?k = (k_futex k)(key := (case k_futex k key of None \<Rightarrow> None
      | Some ws \<Rightarrow> (let vs = filter (\<lambda>w. k_live k w \<and> w \<noteq> t) ws in if vs = [] then None else Some vs)))" "k_live ?k = k_live k"
    by (auto simp: futex_leave_def futex_detach_def Let_def split: option.split)
  have b: "task_flag ?k u VM_BLOCKED \<Longrightarrow> task_flag k u VM_BLOCKED \<and> u \<noteq> t" for u
    using task_flag_and_self [of VM_BLOCKED t "futex_detach key t k"]
    by (auto simp: futex_leave_def) (auto simp: task_flag_def and_flags_def futex_detach_def split: if_splits option.splits)
  show ?thesis
  proof (rule futex_invI)
    fix key' ws' assume "k_futex ?k key' = Some ws'"
    then show "ws' \<noteq> []" using D(1) [of key' ws'] by (auto simp: f Let_def split: if_splits option.splits)
  next
    fix key' ws' u assume "k_futex ?k key' = Some ws'" "u \<in> set ws'"
    then show "(W(t := None)) u = Some key'"
      using D(2) [of key' _ u] t by (auto simp: f Let_def split: if_splits option.splits)
  next
    fix u key' assume W: "(W(t := None)) u = Some key'"
    then show "k_live ?k u" using D(3) by (simp add: f split: if_splits)
    assume "task_flag ?k u VM_BLOCKED"
    then have u: "task_flag k u VM_BLOCKED" "u \<noteq> t" using b by blast+
    then obtain ws where "k_futex k key' = Some ws" "u \<in> set ws" using D(4) [of u key'] W by auto
    then show "\<exists>ws. k_futex ?k key' = Some ws \<and> u \<in> set ws"
      using u D(3) [of u key'] W by (auto simp: f Let_def filter_empty_conv split: option.splits)
  qed
qed

lemma futex_step_inv:
  assumes "futex_step x y" "futex_inv x"
  shows "futex_inv y"
  using assms
proof (induction rule: futex_step.induct)
  case (wake W k key n)
  then show ?case using futex_inv_pop(1) [OF wake] by (auto simp: futex_wake_def split: option.splits prod.splits)
next
  case (clear W k key)
  then show ?case using futex_inv_pop(1) [OF clear] by (auto simp: futex_child_tid_clear_def split: option.splits prod.splits)
next
  case (other k' k W)
  then show ?case by (auto simp: futex_inv_def)
qed (simp_all add: futex_inv_enter futex_inv_leave)

lemma futex_wake_all:
  assumes inv: "futex_inv (W, k)" and W: "W t = Some key" and n: "0 < n" "\<And>ws. k_futex k key = Some ws \<Longrightarrow> int (length ws) \<le> n"
  shows "\<not> task_flag (snd (futex_wake key n k)) t VM_BLOCKED"
proof (cases "k_futex k key")
  case None
  then show ?thesis using futex_invD(4) [OF inv W] n(1) by (auto simp: futex_wake_def)
next
  case (Some ws)
  obtain xs r where p: "pop_live (k_live k) (nat n) (rev ws) = (xs, r)" by fastforce
  note q = futex_inv_pop [OF inv Some p]
  have "length xs = length ws" using q(3) n(2) [OF Some] by simp
  then have "r = []" using arg_cong [OF q(2), of length] by simp
  then have "set xs = set ws" using q(2) by simp
  moreover have "task_flag (set_bucket key (rev r) k) t VM_BLOCKED = task_flag k t VM_BLOCKED" by (simp add: task_flag_def)
  ultimately show ?thesis using futex_invD(4) [OF inv W] futex_invD(1) [OF inv Some] Some n(1) p by (auto simp: futex_wake_def wake_all)
qed

end
