(* ===== verification/Posix_Futex_Claims.thy ===== *)
theory Posix_Futex_Claims
  imports Posix_Futex Posix_Signal_Claims
begin

text \<open>
  What futexes and timed sleeps promise: no wake-up is lost between the waiters and the wakers, and a
  timed wait ends at its deadline and not before.
\<close>

text \<open>The waiters of a key, and a time in nanoseconds.\<close>

definition waiting_at :: "kern \<Rightarrow> nat \<times> u64 \<Rightarrow> nat list" where
  "waiting_at k key = (case k_futex k key of None \<Rightarrow> [] | Some ws \<Rightarrow> ws)"

definition nanos :: "timespec \<Rightarrow> int" where
  "nanos ts = 1000000000 * fst ts + snd ts"

definition valid_ts :: "timespec \<Rightarrow> bool" where
  "valid_ts ts \<longleftrightarrow> 0 \<le> snd ts \<and> snd ts < 1000000000"



text \<open>
  A waiter that finds the word changed does not sleep: futex_wait answers EAGAIN and leaves the
  table and the flags alone. Otherwise it is registered and marked blocked in one locked section, and
  when it leaves, for whatever reason, it is unmarked and no bucket holds it any more, and no other
  live waiter has been dropped.
\<close>

lemma futex_wait_sections:
  assumes other: "\<And>key'. key' \<noteq> key \<Longrightarrow> t \<notin> set (waiting_at k key')"
  shows "(word \<noteq> val \<longrightarrow> futex_enter key t word val k = (- EAGAIN, k))
    \<and> (word = val \<longrightarrow> fst (futex_enter key t word val k) = 0
        \<and> t \<in> set (waiting_at (snd (futex_enter key t word val k)) key)
        \<and> task_flag (snd (futex_enter key t word val k)) t VM_BLOCKED)
    \<and> \<not> task_flag (futex_leave key t k) t VM_BLOCKED
    \<and> t \<notin> set (waiting_at (futex_leave key t k) key')
    \<and> (u \<noteq> t \<and> k_live k u \<longrightarrow> (u \<in> set (waiting_at (futex_leave key t k) key') \<longleftrightarrow> u \<in> set (waiting_at k key')))"
proof (intro conjI impI)
  have f: "waiting_at (futex_leave key t k) key'
      = (if key' = key then filter (\<lambda>w. k_live k w \<and> w \<noteq> t) (waiting_at k key) else waiting_at k key')"
    by (auto simp: waiting_at_def futex_leave_def futex_detach_def split: option.splits)
  show "t \<notin> set (waiting_at (futex_leave key t k) key')" using other by (simp add: f)
  show "u \<in> set (waiting_at (futex_leave key t k) key') \<longleftrightarrow> u \<in> set (waiting_at k key')" if "u \<noteq> t \<and> k_live k u"
    using that by (auto simp: f)
  show "\<not> task_flag (futex_leave key t k) t VM_BLOCKED" by (simp add: futex_leave_def task_flag_and_self)
qed (simp_all add: futex_enter_def waiting_at_def task_flag_or flag_defs)



end
