(* ===== verification/Posix_Poll.thy ===== *)
theory Posix_Poll
  imports Posix_Fd
begin

text \<open>
  poll, ppoll and pselect6 (src/posix/fd_ops.cpp): the guest's descriptors are translated, the host
  polls those it knows, and the answers go back. The host's poll is an argument that gives an error
  number or its count with the events of each entry.
\<close>

type_synonym u16 = "16 word"

abbreviation (input) POLLIN :: u16 where "POLLIN \<equiv> 1"
abbreviation (input) POLLPRI :: u16 where "POLLPRI \<equiv> 2"
abbreviation (input) POLLOUT :: u16 where "POLLOUT \<equiv> 4"
abbreviation (input) POLLERR :: u16 where "POLLERR \<equiv> 8"
abbreviation (input) POLLHUP :: u16 where "POLLHUP \<equiv> 16"
abbreviation (input) POLLNVAL :: u16 where "POLLNVAL \<equiv> 32"

record pollfd =
  pf_fd :: int
  pf_events :: u16
  pf_revents :: u16

text \<open>An entry for the host has the descriptor object, or None for an entry that the host skips.\<close>

type_synonym host_poll = "(nat option \<times> u16) list \<Rightarrow> int \<Rightarrow> int + int \<times> u16 list"

subsection \<open>poll\<close>

definition poll_target :: "kern \<Rightarrow> nat \<Rightarrow> int \<Rightarrow> nat option" where
  "poll_target k t fd =
     (if fd < 0 then None
      else (case find_fd (ps_of k t) fd of None \<Rightarrow> None | Some i \<Rightarrow> if fd_host (k_fd k i) then Some i else None))"

text \<open>What the loop over the guest's entries writes back before the host polls, and what it counts.\<close>

definition poll_preset :: "kern \<Rightarrow> nat \<Rightarrow> pollfd \<Rightarrow> u16 \<times> nat" where
  "poll_preset k t g =
     (if pf_fd g < 0 then (0, 0)
      else (case find_fd (ps_of k t) (pf_fd g) of
              None \<Rightarrow> (POLLNVAL, 1)
            | Some i \<Rightarrow> if fd_host (k_fd k i) then (0, 0) else (pf_events g AND (POLLIN OR POLLOUT), 1)))"

definition poll_core :: "kern \<Rightarrow> nat \<Rightarrow> host_poll \<Rightarrow> pollfd list \<Rightarrow> int \<Rightarrow> int \<times> pollfd list" where
  "poll_core k t host gfds timeout =
     (let gs = map (\<lambda>g. g\<lparr>pf_revents := fst (poll_preset k t g)\<rparr>) gfds;
          preset = sum_list (map (snd \<circ> poll_preset k t) gfds)
      in case host (map (\<lambda>g. (poll_target k t (pf_fd g), pf_events g)) gfds) (if preset > 0 then 0 else timeout) of
           Inl err \<Rightarrow> (- err, gs)
         | Inr (rc, revents) \<Rightarrow>
             (rc + int preset,
              map (\<lambda>(g, r). if poll_target k t (pf_fd g) \<noteq> None then g\<lparr>pf_revents := r\<rparr> else g) (zip gs revents)))"

text \<open>A timeout in milliseconds from seconds and nanoseconds, with the conversion to a 32-bit integer.\<close>

definition timeout_ms :: "int \<Rightarrow> int \<Rightarrow> int option" where
  "timeout_ms tv_sec tv_nsec =
     (if tv_sec < 0 \<or> tv_nsec < 0 then None
      else if tv_sec > (2147483647 - 1000) div 1000 then Some 2147483647
      else Some (sint (word_of_int (tv_sec * 1000 + tv_nsec div 1000000) :: u32)))"

subsection \<open>select\<close>

record select_sets =
  rfds :: "int set option"
  wfds :: "int set option"
  efds :: "int set option"

definition in_set :: "int \<Rightarrow> int set option \<Rightarrow> bool" where
  "in_set fd S = (case S of None \<Rightarrow> False | Some A \<Rightarrow> fd \<in> A)"

definition select_fds :: "int \<Rightarrow> select_sets \<Rightarrow> int list" where
  "select_fds n S = filter (\<lambda>fd. in_set fd (rfds S) \<or> in_set fd (wfds S) \<or> in_set fd (efds S)) (map int [0..<nat (if n > 1024 then 1024 else n)])"

definition select_events :: "select_sets \<Rightarrow> int \<Rightarrow> u16" where
  "select_events S fd = (if in_set fd (rfds S) then POLLIN else 0) OR (if in_set fd (wfds S) then POLLOUT else 0)"

definition select_host :: "kern \<Rightarrow> nat \<Rightarrow> int \<Rightarrow> select_sets \<Rightarrow> (int \<times> nat) list" where
  "select_host k t n S =
     map (\<lambda>fd. (fd, the (poll_target k t fd))) (filter (\<lambda>fd. poll_target k t fd \<noteq> None) (select_fds n S))"

definition select_invalid :: "kern \<Rightarrow> nat \<Rightarrow> int \<Rightarrow> select_sets \<Rightarrow> int list" where
  "select_invalid k t n S = filter (\<lambda>fd. find_fd (ps_of k t) fd = None) (select_fds n S)"

definition select_virtual :: "kern \<Rightarrow> nat \<Rightarrow> int \<Rightarrow> select_sets \<Rightarrow> int list" where
  "select_virtual k t n S =
     filter (\<lambda>fd. case find_fd (ps_of k t) fd of None \<Rightarrow> False | Some i \<Rightarrow> \<not> fd_host (k_fd k i)) (select_fds n S)"

definition add_fd :: "int \<Rightarrow> int set option \<Rightarrow> int set option" where
  "add_fd fd S = map_option (insert fd) S"

text \<open>The events of one polled descriptor go back into the sets; wants_e says that it was in efds.\<close>

definition select_mark :: "(int \<times> bool) \<times> u16 \<Rightarrow> nat \<times> select_sets \<Rightarrow> nat \<times> select_sets" where
  "select_mark = (\<lambda>((fd, wants_e), r) (n, S).
     let (n, S) = (if r AND (POLLIN OR POLLHUP OR POLLERR) \<noteq> 0 then (n + 1, S\<lparr>rfds := add_fd fd (rfds S)\<rparr>) else (n, S));
         (n, S) = (if r AND (POLLOUT OR POLLERR) \<noteq> 0 then (n + 1, S\<lparr>wfds := add_fd fd (wfds S)\<rparr>) else (n, S))
     in if r AND POLLPRI \<noteq> 0 \<and> wants_e then (n + 1, S\<lparr>efds := add_fd fd (efds S)\<rparr>) else (n, S))"

definition pselect_core :: "kern \<Rightarrow> nat \<Rightarrow> host_poll \<Rightarrow> int \<Rightarrow> select_sets \<Rightarrow> int \<Rightarrow> int \<times> select_sets" where
  "pselect_core k t host n S timeout =
     (let hs = select_host k t n S;
          vr = filter (\<lambda>fd. in_set fd (rfds S)) (select_virtual k t n S);
          vw = filter (\<lambda>fd. in_set fd (wfds S)) (select_virtual k t n S);
          preset = length (select_invalid k t n S) + (length vr + length vw)
      in if n < 0 then (- EINVAL, S)
         else (case host (map (\<lambda>(fd, i). (Some i, select_events S fd)) hs) (if preset > 0 then 0 else timeout) of
            Inl err \<Rightarrow> (- err, S)
          | Inr (rc, revents) \<Rightarrow>
              (let clear = map_option (\<lambda>_. {});
                   (ready, S1) = fold select_mark (zip (map (\<lambda>(fd, i). (fd, in_set fd (efds S))) hs) revents)
                                   (0, \<lparr>rfds = clear (rfds S), wfds = clear (wfds S), efds = clear (efds S)\<rparr>)
               in (int (ready + preset),
                   S1\<lparr>rfds := fold add_fd vr (rfds S1), wfds := fold add_fd vw (wfds S1)\<rparr>))))"

end
