(* ===== verification/Posix_Path.thy ===== *)
theory Posix_Path
  imports Posix_Kernel
begin

text \<open>
  Paths of the guest (src/posix/filesystem.cpp and src/posix/fs.cpp): the operations of
  std::filesystem::path that the sources use, the absolute path of an argument, its class by prefix,
  the path of the host under the root directory, and the table of devices.
\<close>

abbreviation (input) slash :: char where "slash \<equiv> CHR ''/''"
abbreviation (input) dot :: string where "dot \<equiv> ''.''"
abbreviation (input) dotdot :: string where "dotdot \<equiv> ''..''"

text \<open>Strings of C and their bytes.\<close>

definition c_string :: "u8 list \<Rightarrow> string" where
  "c_string bs = map (\<lambda>b. char_of (uint b)) (takeWhile (\<lambda>b. b \<noteq> 0) bs)"

definition c_bytes :: "string \<Rightarrow> u8 list" where
  "c_bytes cs = map (\<lambda>c. word_of_int (of_char c)) cs"

subsection \<open>std::filesystem::path\<close>

text \<open>The parts of a string between separators, and the names of a path, which are the parts that are not empty.\<close>

fun split_at :: "char \<Rightarrow> string \<Rightarrow> string list" where
  "split_at c [] = [[]]"
| "split_at c (x # xs) =
     (if x = c then [] # split_at c xs else (case split_at c xs of [] \<Rightarrow> [[x]] | w # ws \<Rightarrow> (x # w) # ws))"

definition path_names :: "string \<Rightarrow> string list" where
  "path_names p = filter (\<lambda>w. w \<noteq> []) (split_at slash p)"

definition is_absolute :: "string \<Rightarrow> bool" where
  "is_absolute p \<longleftrightarrow> p \<noteq> [] \<and> hd p = slash"

fun join_names :: "string list \<Rightarrow> string" where
  "join_names [] = []"
| "join_names [n] = n"
| "join_names (n # ns) = n @ slash # join_names ns"

text \<open>
  lexically_normal: a dot goes, a pair of dots takes the name before it away, and at the root it
  goes as well. The names kept so far are in reverse order. A path that ended in a separator, a dot
  or a pair of dots ends in a separator afterwards.
\<close>

fun normal_names :: "bool \<Rightarrow> string list \<Rightarrow> string list \<Rightarrow> string list" where
  "normal_names ab st [] = rev st"
| "normal_names ab st (n # ns) =
     (if n = dot then normal_names ab st ns
      else if n = dotdot then
        (case st of
           [] \<Rightarrow> normal_names ab (if ab then [] else [dotdot]) ns
         | t # st' \<Rightarrow> normal_names ab (if t = dotdot then dotdot # st else st') ns)
      else normal_names ab (n # st) ns)"

definition lexically_normal :: "string \<Rightarrow> string" where
  "lexically_normal p =
     (if p = [] then []
      else (let ns = path_names p; out = normal_names (is_absolute p) [] ns;
                as_dir = last p = slash \<or> (ns \<noteq> [] \<and> (last ns = dot \<or> last ns = dotdot));
                r = (if is_absolute p then [slash] else []) @ join_names out @ (if out \<noteq> [] \<and> as_dir \<and> last out \<noteq> dotdot then [slash] else [])
            in if r = [] then dot else r))"

definition path_append :: "string \<Rightarrow> string \<Rightarrow> string" where
  "path_append p q = (if is_absolute q \<or> p = [] then q else if last p = slash then p @ q else p @ slash # q)"

text \<open>parent_path of an absolute path without a separator at its end.\<close>

definition parent_path :: "string \<Rightarrow> string" where
  "parent_path p = slash # join_names (butlast (path_names p))"

subsection \<open>Absolute paths of the guest\<close>

abbreviation (input) AT_FDCWD :: int where "AT_FDCWD \<equiv> - 100"

definition base_path :: "kern \<Rightarrow> SharedState \<Rightarrow> int \<Rightarrow> string" where
  "base_path k S dirfd =
     (let cwd = (if ps_cwd S = [] then [slash] else ps_cwd S) in
      if dirfd = AT_FDCWD then cwd
      else (case find_fd S dirfd of
              None \<Rightarrow> cwd
            | Some i \<Rightarrow> if fd_path (k_fd k i) = [] then cwd else fd_path (k_fd k i)))"

definition guest_abs_path :: "kern \<Rightarrow> SharedState \<Rightarrow> string \<Rightarrow> int \<Rightarrow> string" where
  "guest_abs_path k S path dirfd =
     (if path = [] then []
      else (let g = lexically_normal (if is_absolute path then path else path_append (base_path k S dirfd) path)
            in if g = [] then [slash] else g))"

subsection \<open>Classes of paths\<close>

datatype path_class = HostPath | DevPath | ProcPath

record Path =
  pa_class :: path_class
  pa_guest :: string
  pa_host :: string

definition has_prefix :: "string \<Rightarrow> string \<Rightarrow> bool" where
  "has_prefix p s \<longleftrightarrow> take (length p) s = p"

definition is_proc :: "string \<Rightarrow> bool" where
  "is_proc p \<longleftrightarrow> p = ''/proc'' \<or> has_prefix ''/proc/'' p"

definition is_dev :: "string \<Rightarrow> bool" where
  "is_dev p \<longleftrightarrow> p = ''/dev'' \<or> has_prefix ''/dev/'' p"

text \<open>Separators at the end of a path go, but for the root.\<close>

fun strip_rev :: "string \<Rightarrow> string" where
  "strip_rev (a # b # xs) = (if a = slash then strip_rev (b # xs) else a # b # xs)"
| "strip_rev xs = xs"

definition strip_slashes :: "string \<Rightarrow> string" where
  "strip_slashes p = rev (strip_rev (rev p))"

text \<open>The constructor of Path, with the root directory of the process.\<close>

definition host_of :: "string \<Rightarrow> string \<Rightarrow> string" where
  "host_of root g = (if root = [] then g else if g = [] then [] else lexically_normal (root @ g))"

definition make_path :: "path_class \<Rightarrow> string \<Rightarrow> string \<Rightarrow> Path" where
  "make_path c root g = \<lparr>pa_class = c, pa_guest = g, pa_host = host_of root g\<rparr>"

definition ResolvePath :: "string \<Rightarrow> string \<Rightarrow> Path" where
  "ResolvePath root g =
     (if is_proc g then make_path ProcPath root (strip_slashes g)
      else if is_dev g then make_path DevPath root (strip_slashes g)
      else make_path HostPath root g)"

subsection \<open>Devices\<close>

datatype DevInfo = HostChr | DevDir | Symlink string

text \<open>The table in the order in which std::map iterates.\<close>

definition dev_nodes :: "(string \<times> DevInfo) list" where
  "dev_nodes =
     [(''/dev'', DevDir), (''/dev/console'', HostChr), (''/dev/fd'', Symlink ''/proc/self/fd''), (''/dev/full'', HostChr),
      (''/dev/null'', HostChr), (''/dev/ptmx'', HostChr), (''/dev/pts'', DevDir), (''/dev/random'', HostChr),
      (''/dev/stderr'', Symlink ''/proc/self/fd/2''), (''/dev/stdin'', Symlink ''/proc/self/fd/0''),
      (''/dev/stdout'', Symlink ''/proc/self/fd/1''), (''/dev/tty'', HostChr), (''/dev/urandom'', HostChr), (''/dev/zero'', HostChr)]"

abbreviation (input) DT_CHR :: u8 where "DT_CHR \<equiv> 2"
abbreviation (input) DT_DIR :: u8 where "DT_DIR \<equiv> 4"
abbreviation (input) DT_REG :: u8 where "DT_REG \<equiv> 8"
abbreviation (input) DT_LNK :: u8 where "DT_LNK \<equiv> 10"

fun kind_dtype :: "DevInfo \<Rightarrow> u8" where
  "kind_dtype HostChr = DT_CHR"
| "kind_dtype DevDir = DT_DIR"
| "kind_dtype (Symlink l) = DT_LNK"

text \<open>
  strtol in base 10 on a string that must be used up: white space, a sign and digits. The result is
  - 1 for everything that is not a number of type int from zero on.
\<close>

definition is_space :: "char \<Rightarrow> bool" where
  "is_space c \<longleftrightarrow> c = CHR '' '' \<or> (9 \<le> (of_char c :: nat) \<and> (of_char c :: nat) \<le> 13)"

definition is_digit :: "char \<Rightarrow> bool" where
  "is_digit c \<longleftrightarrow> 48 \<le> (of_char c :: nat) \<and> (of_char c :: nat) \<le> 57"

definition digits_value :: "string \<Rightarrow> nat" where
  "digits_value ds = fold (\<lambda>c n. 10 * n + (of_char c - 48)) ds 0"

definition parse_dev_suffix :: "string \<Rightarrow> int" where
  "parse_dev_suffix s =
     (let t = dropWhile is_space s;
          neg = t \<noteq> [] \<and> hd t = CHR ''-'';
          ds = (if t \<noteq> [] \<and> (hd t = CHR ''-'' \<or> hd t = CHR ''+'') then tl t else t);
          v = int (digits_value ds)
      in if ds = [] \<or> \<not> list_all is_digit ds then - 1
         else if (neg \<and> v \<noteq> 0) \<or> v > 2147483647 then - 1 else v)"

text \<open>The node of a path without a separator at its end, and the path that a link in the middle leads to.\<close>

definition dev_lookup :: "kern \<Rightarrow> string \<Rightarrow> DevInfo option \<times> string" where
  "dev_lookup k g =
     (case map_of dev_nodes g of
        Some d \<Rightarrow> (Some d, [])
      | None \<Rightarrow>
          if has_prefix ''/dev/pts/'' g then
            (let ptn = parse_dev_suffix (drop 9 g) in
             (if ptn < 0 then None else if ptn \<in> fst ` set (k_ptmx k) then Some HostChr else None, []))
          else if has_prefix ''/dev/fd/'' g then (None, ''/proc/self/fd'' @ drop 7 g)
          else (None, []))"

text \<open>Decimal numbers.\<close>

definition digit_char :: "nat \<Rightarrow> char" where
  "digit_char d = char_of (48 + d)"

fun nat_string :: "nat \<Rightarrow> string" where
  "nat_string n = (if n < 10 then [digit_char n] else nat_string (n div 10) @ [digit_char (n mod 10)])"

declare nat_string.simps [simp del]

definition int_string :: "int \<Rightarrow> string" where
  "int_string i = (if i < 0 then CHR ''-'' # nat_string (nat (- i)) else nat_string (nat i))"

definition dev_dir_entries :: "kern \<Rightarrow> string \<Rightarrow> (string \<times> u8) list" where
  "dev_dir_entries k g =
     (if g = ''/dev/pts'' then map (\<lambda>(n, t). (int_string n, DT_CHR)) (k_ptmx k)
      else map (\<lambda>(p, d). (drop 5 p, kind_dtype d))
             (filter (\<lambda>(p, d). length p > 5 \<and> take 5 p = ''/dev/'' \<and> slash \<notin> set (drop 5 p)) dev_nodes))"

subsection \<open>Paths without dots\<close>

text \<open>
  What a path must be for the host to stay below the root directory: absolute, and with names that
  lead down only.
\<close>

definition goes_down :: "string \<Rightarrow> bool" where
  "goes_down p \<longleftrightarrow> is_absolute p \<and> dot \<notin> set (path_names p) \<and> dotdot \<notin> set (path_names p)"

text \<open>The host path lies below the root: the names of the root, and then names that lead down.\<close>

definition below :: "string \<Rightarrow> string \<Rightarrow> bool" where
  "below root p \<longleftrightarrow> (\<exists>ns. path_names p = path_names root @ ns \<and> dot \<notin> set ns \<and> dotdot \<notin> set ns)"

end
