(* ===== verification/Posix_Procfs.thy ===== *)
theory Posix_Procfs
  imports Posix_Path Posix_Fd "HOL-Library.List_Lexorder" "HOL-Library.Char_ord"
begin

text \<open>
  The virtual file system /proc (src/posix/procfs.cpp): its tree of generators, the text of its files,
  and the walk along a path through directories and links. The tree is built when a call starts, and
  holds the text of a link and a tag for the text of a file. The walk follows links without a limit,
  so that it may not end: the function then has the value None.
\<close>

subsection \<open>What the tree depends on\<close>

text \<open>
  State outside the kernel record: the number of processors, the text of the clock, the arguments,
  environment, mappings and program image of the machine of a task, the target of the link of the
  host to the file of a descriptor object, and the root directory that the loader got.
\<close>

record proc_env =
  pr_cpus :: int
  pr_uptime :: string
  pr_argv :: "nat \<Rightarrow> string list"
  pr_envp :: "nat \<Rightarrow> (string \<times> string) list"
  pr_maps :: "nat \<Rightarrow> memmap list"
  pr_image :: "nat \<Rightarrow> string option"
  pr_link :: "nat \<Rightarrow> string option"
  pr_root :: string

definition guest_view :: "string \<Rightarrow> string \<Rightarrow> string" where
  "guest_view root p =
     (if root = [] then p else if p = root then [slash]
      else if has_prefix (root @ [slash]) p then slash # drop (length root + 1) p else p)"

definition make_comm :: "string \<Rightarrow> string" where
  "make_comm p = take 15 (last (split_at slash p))"

subsection \<open>Nodes\<close>

datatype proc_file = Cpuinfo | Meminfo | Uptime | Version | Filesystems | Loadavg | Mounts | Statm
  | Cmdline u64 | Environ u64 | Maps u64 | Comm u64 | Stat u64 | Status u64

datatype gen = NoneGen | FileGen proc_file | LinkGen string | FdLinkGen nat string | ExeLinkGen nat string
  | DirGen "(string \<times> gen) list"

fun link_target :: "gen \<Rightarrow> string option" where
  "link_target (LinkGen l) = Some l"
| "link_target (FdLinkGen i l) = Some l"
| "link_target (ExeLinkGen t l) = Some l"
| "link_target _ = None"

fun gen_dtype :: "gen \<Rightarrow> u8" where
  "gen_dtype (DirGen es) = DT_DIR"
| "gen_dtype g = (if link_target g = None then DT_REG else DT_LNK)"

text \<open>std::map from names: sorted, and the first entry of a name stays.\<close>

definition emplace :: "string \<times> 'a \<Rightarrow> (string \<times> 'a) list \<Rightarrow> (string \<times> 'a) list" where
  "emplace e m = (if fst e \<in> fst ` set m then m else insort_key fst e m)"

definition std_map :: "(string \<times> 'a) list \<Rightarrow> (string \<times> 'a) list" where
  "std_map es = fold emplace es []"

subsection \<open>Text of the files\<close>

abbreviation (input) nl :: string where "nl \<equiv> [CHR 0x0A]"
abbreviation (input) tab :: string where "tab \<equiv> [CHR 0x09]"

definition u64_string :: "u64 \<Rightarrow> string" where
  "u64_string w = nat_string (unat w)"

definition gen_cpuinfo :: "int \<Rightarrow> string" where
  "gen_cpuinfo n =
     concat (map (\<lambda>i. ''processor'' @ tab @ '': '' @ nat_string i @ nl @ ''vendor_id'' @ tab @ '': GenuineBPF'' @ nl
         @ ''cpu family'' @ tab @ '': 0'' @ nl @ ''model'' @ tab @ tab @ '': 0'' @ nl @ ''model name'' @ tab @ '': BPF Virtual CPU'' @ nl
         @ ''cpu MHz'' @ tab @ tab @ '': 0.000'' @ nl @ ''cache size'' @ tab @ '': 0 KB'' @ nl @ ''bogomips'' @ tab @ '': 0.00'' @ nl @ nl)
       [0..<(if n \<le> 0 then 1 else nat n)])"

definition gen_meminfo :: string where
  "gen_meminfo = ''MemTotal:       2097152 kB'' @ nl @ ''MemFree:        1048576 kB'' @ nl @ ''Buffers:        0 kB'' @ nl
     @ ''Cached:         0 kB'' @ nl @ ''SwapTotal:      0 kB'' @ nl @ ''SwapFree:       0 kB'' @ nl"

definition gen_version :: string where
  "gen_version = ''Linux version 6.12.0 (bpfvm) (clang)'' @ nl"

definition gen_filesystems :: string where
  "gen_filesystems = ''nodev'' @ tab @ ''proc'' @ nl @ ''nodev'' @ tab @ ''tmpfs'' @ nl @ ''nodev'' @ tab @ ''devtmpfs'' @ nl @ ''nodev'' @ tab @ ''sysfs'' @ nl"

definition gen_loadavg :: string where
  "gen_loadavg = ''0.00 0.00 0.00 1/1 1'' @ nl"

definition gen_mounts :: string where
  "gen_mounts = ''proc / proc rw,relatime 0 0'' @ nl @ ''tmpfs /tmp tmpfs rw,relatime 0 0'' @ nl"

definition proc_state :: "kern \<Rightarrow> nat \<Rightarrow> char" where
  "proc_state k t = (if task_flag k t VM_EXITED then CHR ''Z'' else if task_flag k t VM_STOPPED then CHR ''T''
     else if task_flag k t VM_BLOCKED then CHR ''S'' else CHR ''R'')"

definition gen_task_stat :: "kern \<Rightarrow> u64 \<Rightarrow> nat \<Rightarrow> string" where
  "gen_task_stat k p t =
     u64_string p @ '' ('' @ t_comm (k_task k t) @ '') '' @ [proc_state k t] @ '' '' @ u64_string (tg_ppid (tg_of k t)) @ '' ''
     @ u64_string (t_pgid (k_task k t)) @ '' '' @ u64_string (ss_sid (k_session k (t_session (k_task k t)))) @ '' ''
     @ ''0 0 0 0 0 0 0 0 0 0 0 0 0 0 0 1 '' @ ''0 0 0 0 '' @ ''0 0 0 0 0 '' @ ''0 0 0 0 0 '' @ ''0 0 0 0 0 0 0 '' @ ''0 0'' @ nl"

definition gen_task_status :: "kern \<Rightarrow> u64 \<Rightarrow> nat \<Rightarrow> string" where
  "gen_task_status k p t =
     ''Name:'' @ tab @ t_comm (k_task k t) @ nl @ ''Umask:'' @ tab @ nat_string (unat (ps_umask (ps_of k t))) @ nl
     @ ''State:'' @ tab @ [proc_state k t] @ nl @ ''Tgid:'' @ tab @ u64_string (tg_tgid (tg_of k t)) @ nl @ ''Ngid:'' @ tab @ ''0'' @ nl
     @ ''Pid:'' @ tab @ u64_string p @ nl @ ''PPid:'' @ tab @ u64_string (tg_ppid (tg_of k t)) @ nl @ ''TracerPid:'' @ tab @ ''0'' @ nl
     @ ''Uid:'' @ tab @ ''0'' @ tab @ ''0'' @ tab @ ''0'' @ tab @ ''0'' @ nl @ ''Gid:'' @ tab @ ''0'' @ tab @ ''0'' @ tab @ ''0'' @ tab @ ''0'' @ nl
     @ ''FDSize:'' @ tab @ ''32'' @ nl @ ''Groups:'' @ nl @ ''VmSize:'' @ tab @ ''    0 kB'' @ nl @ ''VmRSS:'' @ tab @ ''    0 kB'' @ nl"

abbreviation (input) nul :: char where "nul \<equiv> CHR 0x00"

definition gen_pid_cmdline :: "string list \<Rightarrow> string" where
  "gen_pid_cmdline argv = concat (map (\<lambda>a. a @ [nul]) argv)"

definition gen_pid_environ :: "(string \<times> string) list \<Rightarrow> string" where
  "gen_pid_environ envp = concat (map (\<lambda>(n, v). n @ ''='' @ v @ [nul]) envp)"

fun hex_string :: "nat \<Rightarrow> nat \<Rightarrow> string" where
  "hex_string 0 x = []"
| "hex_string (Suc w) x = hex_string w (x div 16) @ [if x mod 16 < 10 then char_of (48 + x mod 16) else char_of (87 + x mod 16)]"

definition gen_pid_maps :: "memmap list \<Rightarrow> string" where
  "gen_pid_maps ms =
     concat (map (\<lambda>m. hex_string 16 (unat (m_paddr m)) @ ''-'' @ hex_string 16 (unat (m_paddr m + m_size m)) @ '' ''
         @ [if bit (m_flags m) PF_R then CHR ''r'' else CHR ''-'', if bit (m_flags m) PF_W then CHR ''w'' else CHR ''-'',
            if bit (m_flags m) PF_X then CHR ''x'' else CHR ''-'', CHR ''p''] @ '' 00000000 00:00 0'' @ nl) ms)"

text \<open>The text of a file of a task; the tasks of the tree are in the process table.\<close>

definition file_text :: "proc_env \<Rightarrow> kern \<Rightarrow> proc_file \<Rightarrow> string" where
  "file_text PE k f =
     (let of_task = (\<lambda>p g. case find_task k p of None \<Rightarrow> [] | Some t \<Rightarrow> g t) in
      case f of
        Cpuinfo \<Rightarrow> gen_cpuinfo (pr_cpus PE) | Meminfo \<Rightarrow> gen_meminfo | Uptime \<Rightarrow> pr_uptime PE | Version \<Rightarrow> gen_version
      | Filesystems \<Rightarrow> gen_filesystems | Loadavg \<Rightarrow> gen_loadavg | Mounts \<Rightarrow> gen_mounts | Statm \<Rightarrow> ''0 0 0 0 0 0 0'' @ nl
      | Cmdline p \<Rightarrow> of_task p (\<lambda>t. gen_pid_cmdline (pr_argv PE t)) | Environ p \<Rightarrow> of_task p (\<lambda>t. gen_pid_environ (pr_envp PE t))
      | Maps p \<Rightarrow> of_task p (\<lambda>t. gen_pid_maps (pr_maps PE t)) | Comm p \<Rightarrow> of_task p (\<lambda>t. t_comm (k_task k t) @ nl)
      | Stat p \<Rightarrow> of_task p (gen_task_stat k p) | Status p \<Rightarrow> of_task p (gen_task_status k p))"

subsection \<open>The tree\<close>

definition fd_link_target :: "proc_env \<Rightarrow> kern \<Rightarrow> nat \<Rightarrow> string" where
  "fd_link_target PE k i =
     (let F = k_fd k i in
      if fd_signal F \<noteq> None then ''anon_inode:[signalfd]''
      else if fd_host F then (case pr_link PE i of Some l \<Rightarrow> guest_view (pr_root PE) l | None \<Rightarrow> fd_path F)
      else fd_path F)"

definition gen_pid_fd_entries :: "proc_env \<Rightarrow> kern \<Rightarrow> nat \<Rightarrow> (string \<times> gen) list" where
  "gen_pid_fd_entries PE k t =
     std_map (map (\<lambda>(fd, i). (int_string fd, FdLinkGen i (fd_link_target PE k i))) (ps_fds (ps_of k t)))"

definition proc_task_common_entries :: "proc_env \<Rightarrow> kern \<Rightarrow> u64 \<Rightarrow> nat \<Rightarrow> (string \<times> gen) list" where
  "proc_task_common_entries PE k p t =
     [(''mounts'', FileGen Mounts), (''root'', LinkGen [slash]), (''statm'', FileGen Statm), (''cmdline'', FileGen (Cmdline p)),
      (''environ'', FileGen (Environ p)), (''maps'', FileGen (Maps p)), (''fd'', DirGen (gen_pid_fd_entries PE k t)),
      (''cwd'', LinkGen (ps_cwd (ps_of k t))),
      (''exe'', ExeLinkGen t (if pr_image PE t = None then [] else ps_exe_path (ps_of k t)))]"

definition task_entries :: "proc_env \<Rightarrow> kern \<Rightarrow> u64 \<Rightarrow> nat \<Rightarrow> (string \<times> gen) list" where
  "task_entries PE k p t =
     proc_task_common_entries PE k p t @ [(''comm'', FileGen (Comm p)), (''stat'', FileGen (Stat p)), (''status'', FileGen (Status p))]"

definition proc_pid_task_entries :: "proc_env \<Rightarrow> kern \<Rightarrow> nat \<Rightarrow> (string \<times> gen) list" where
  "proc_pid_task_entries PE k t =
     std_map (map (\<lambda>u. let p = t_pid (k_task k u) in (u64_string p, DirGen (std_map (task_entries PE k p u)))) (live_threads k (t_tg (k_task k t))))"

definition proc_pid_entries :: "proc_env \<Rightarrow> kern \<Rightarrow> u64 \<Rightarrow> nat \<Rightarrow> (string \<times> gen) list" where
  "proc_pid_entries PE k p t = std_map (task_entries PE k p t @ [(''task'', DirGen (proc_pid_task_entries PE k t))])"

definition procs :: "(string \<times> gen) list" where
  "procs = [(''cpuinfo'', FileGen Cpuinfo), (''meminfo'', FileGen Meminfo), (''uptime'', FileGen Uptime), (''version'', FileGen Version),
     (''filesystems'', FileGen Filesystems), (''loadavg'', FileGen Loadavg), (''mounts'', LinkGen ''self/mounts'')]"

definition proc_root :: "proc_env \<Rightarrow> kern \<Rightarrow> nat \<Rightarrow> gen" where
  "proc_root PE k me =
     (let tgid = u64_string (tg_tgid (tg_of k me)) in
      DirGen (std_map (procs @ map (\<lambda>(p, t). (u64_string p, DirGen (proc_pid_entries PE k p t))) (k_pid_map k)
        @ [(''self'', LinkGen tgid), (''thread-self'', LinkGen (tgid @ ''/task/'' @ u64_string (t_pid (k_task k me))))])))"

subsection \<open>The walk\<close>

definition resolve_target :: "string \<Rightarrow> string \<Rightarrow> string" where
  "resolve_target link_path target =
     lexically_normal (if is_absolute target then target else path_append (parent_path link_path) target)"

text \<open>
  The loop of lookup: the names still to go, the node reached and its path. A link with names behind
  it is followed: out of /proc, the path that is left goes back to the caller; else the walk starts
  again at the root with the names of the target in front.
\<close>

partial_function (option) lookup_loop :: "gen \<Rightarrow> string list \<Rightarrow> gen \<Rightarrow> string \<Rightarrow> (gen \<times> string) option" where
  "lookup_loop root segs cur cur_path =
     (case segs of
        [] \<Rightarrow> Some (cur, [])
      | seg # rest \<Rightarrow>
          (case link_target cur of
             Some target \<Rightarrow>
               if target = [] then Some (NoneGen, [])
               else (let rs = resolve_target cur_path target in
                     if rs = [] \<or> \<not> has_prefix ''/proc'' rs then Some (NoneGen, foldl path_append rs rest)
                     else lookup_loop root (path_names (drop 5 rs) @ rest) root ''/proc'')
           | None \<Rightarrow>
               (case cur of
                  DirGen es \<Rightarrow>
                    (case map_of es seg of
                       None \<Rightarrow> Some (NoneGen, [])
                     | Some g \<Rightarrow>
                         if link_target g \<noteq> None \<and> rest \<noteq> [] then lookup_loop root segs g (cur_path @ slash # seg)
                         else lookup_loop root rest g (cur_path @ slash # seg))
                | _ \<Rightarrow> Some (NoneGen, []))))"

definition lookup :: "proc_env \<Rightarrow> kern \<Rightarrow> nat \<Rightarrow> string \<Rightarrow> (gen \<times> string) option" where
  "lookup PE k me g = (let root = proc_root PE k me in lookup_loop root (path_names (drop 5 g)) root ''/proc'')"

definition resolve_symlink :: "string \<Rightarrow> string \<Rightarrow> string" where
  "resolve_symlink link_path target = (if target = [] then [] else resolve_target link_path target)"

end
