(* ===== verification/Posix_Files.thy ===== *)
theory Posix_Files
  imports Posix_Procfs
begin

text \<open>
  Files and paths in the kernel of the guest: the virtual methods of Path with its classes and of Fd
  with its classes (src/posix/fs.h, src/posix/fs.cpp, src/posix/procfs.cpp), and the check of a
  background process on its terminal (src/posix/file_io.cpp). The calls of the host are arguments,
  with the result that the wrapper around the call returns: a number or an error number below zero,
  and the bytes that the call writes into the buffer given to it.
\<close>

abbreviation (input) ENOENT :: int where "ENOENT \<equiv> 2"
abbreviation (input) EIO :: int where "EIO \<equiv> 5"
abbreviation (input) ENXIO :: int where "ENXIO \<equiv> 6"
abbreviation (input) EACCES :: int where "EACCES \<equiv> 13"
abbreviation (input) EXDEV :: int where "EXDEV \<equiv> 18"
abbreviation (input) ENOTDIR :: int where "ENOTDIR \<equiv> 20"
abbreviation (input) ETXTBSY :: int where "ETXTBSY \<equiv> 26"
abbreviation (input) ESPIPE :: int where "ESPIPE \<equiv> 29"
abbreviation (input) EROFS :: int where "EROFS \<equiv> 30"
abbreviation (input) ELOOP :: int where "ELOOP \<equiv> 40"

subsection \<open>Open flags\<close>

abbreviation (input) BPF_O_WRONLY :: u32 where "BPF_O_WRONLY \<equiv> 0x1"
abbreviation (input) BPF_O_RDWR :: u32 where "BPF_O_RDWR \<equiv> 0x2"
abbreviation (input) BPF_O_CREAT :: u32 where "BPF_O_CREAT \<equiv> 0x40"
abbreviation (input) BPF_O_TRUNC :: u32 where "BPF_O_TRUNC \<equiv> 0x200"
abbreviation (input) BPF_O_APPEND :: u32 where "BPF_O_APPEND \<equiv> 0x400"
abbreviation (input) BPF_O_DIRECT :: u32 where "BPF_O_DIRECT \<equiv> 0x4000"
abbreviation (input) BPF_O_LARGEFILE :: u32 where "BPF_O_LARGEFILE \<equiv> 0x8000"
abbreviation (input) BPF_O_DIRECTORY :: u32 where "BPF_O_DIRECTORY \<equiv> 0x10000"
abbreviation (input) BPF_O_NOFOLLOW :: u32 where "BPF_O_NOFOLLOW \<equiv> 0x20000"

text \<open>
  The bits of the host: those of x86-64 are the bits of the guest, those of aarch64 are exchanged. The
  C library for 64-bit hosts defines O_LARGEFILE as zero.
\<close>

record host_flags =
  O_DIRECT :: u32
  O_DIRECTORY :: u32
  O_NOFOLLOW :: u32
  O_LARGEFILE :: u32

definition x86_flags :: host_flags where
  "x86_flags = \<lparr>O_DIRECT = 0x4000, O_DIRECTORY = 0x10000, O_NOFOLLOW = 0x20000, O_LARGEFILE = 0\<rparr>"

definition arm_flags :: host_flags where
  "arm_flags = \<lparr>O_DIRECT = 0x10000, O_DIRECTORY = 0x4000, O_NOFOLLOW = 0x8000, O_LARGEFILE = 0\<rparr>"

definition or_if :: "bool \<Rightarrow> u32 \<Rightarrow> u32 \<Rightarrow> u32" where
  "or_if c b w = (if c then w OR b else w)"

definition guest_open_flags :: "host_flags \<Rightarrow> u32 \<Rightarrow> u32" where
  "guest_open_flags L g =
     or_if (g AND BPF_O_DIRECT \<noteq> 0) (O_DIRECT L) (or_if (g AND BPF_O_NOFOLLOW \<noteq> 0) (O_NOFOLLOW L)
       (or_if (g AND BPF_O_DIRECTORY \<noteq> 0) (O_DIRECTORY L)
         (g AND NOT (BPF_O_DIRECTORY OR BPF_O_NOFOLLOW OR BPF_O_DIRECT OR BPF_O_LARGEFILE))))"

definition host_fgetfl_to_guest :: "host_flags \<Rightarrow> u32 \<Rightarrow> u32" where
  "host_fgetfl_to_guest L rc =
     or_if (rc AND O_DIRECT L \<noteq> 0) BPF_O_DIRECT (or_if (rc AND O_NOFOLLOW L \<noteq> 0) BPF_O_NOFOLLOW
       (or_if (rc AND O_DIRECTORY L \<noteq> 0) BPF_O_DIRECTORY
         (rc AND NOT (O_DIRECTORY L OR O_NOFOLLOW L OR O_DIRECT L) AND NOT (O_LARGEFILE L))))"

subsection \<open>Calls of the host\<close>

datatype path_op =
    Readlink nat
  | Statx u32 u32
  | Access int u32
  | Unlink u32
  | Mkdir u32
  | MakeSymlink string
  | Chmod u32 u32
  | Truncate int
  | Utimens "u64 list option" u32
  | Link string u32
  | Rename string u32

datatype fd_op =
    Read nat
  | Write "u8 list"
  | Pread nat int
  | Pwrite "u8 list" int
  | Lseek int int
  | Readv "nat list"
  | Writev "u8 list list"
  | Getdents nat
  | Fstatx u32
  | Ftruncate int
  | Futimens "u64 list option"
  | Fsync
  | Fdatasync

record file_env =
  fe_proc :: "kern \<Rightarrow> proc_env"
  fe_flags :: host_flags
  fe_fresh :: "kern \<Rightarrow> nat"
  fe_open :: "kern \<Rightarrow> string \<Rightarrow> u32 \<Rightarrow> u32 \<Rightarrow> int"
  fe_reopen :: "kern \<Rightarrow> nat \<Rightarrow> u32 \<Rightarrow> int"
  fe_open_exe :: "kern \<Rightarrow> nat \<Rightarrow> u32 \<Rightarrow> int"
  fe_stat_exe :: "kern \<Rightarrow> nat \<Rightarrow> u32 \<Rightarrow> int \<times> u8 list"
  fe_dup :: "kern \<Rightarrow> nat \<Rightarrow> int"
  fe_ptmx :: "kern \<Rightarrow> int + int"
  fe_tostop :: "kern \<Rightarrow> nat \<Rightarrow> bool"
  fe_path :: "kern \<Rightarrow> string \<Rightarrow> path_op \<Rightarrow> int \<times> u8 list"
  fe_fd :: "kern \<Rightarrow> nat \<Rightarrow> fd_op \<Rightarrow> int \<times> u8 list"

text \<open>
  The functions that open give an error number, or zero for success: a path, the file of a
  descriptor object, the program of a task. fe_ptmx gives an error or the number of the new
  terminal, fe_stat_exe the attributes of the program of a task, and fe_tostop says that the terminal
  stops its writers or cannot be asked.
\<close>

subsection \<open>Opening\<close>

definition named_fd :: "string \<Rightarrow> Fd" where
  "named_fd p = (host_fd_obj False)\<lparr>fd_path := p\<rparr>"

definition virtual_fd :: "string \<Rightarrow> virtual_file \<Rightarrow> Fd" where
  "virtual_fd p v = (named_fd p)\<lparr>fd_host := False, fd_virt := v\<rparr>"

definition host_open :: "file_env \<Rightarrow> kern \<Rightarrow> string \<Rightarrow> u32 \<Rightarrow> u32 \<Rightarrow> string \<Rightarrow> int + Fd \<times> kern" where
  "host_open FE k hp flags mode g =
     (let e = fe_open FE k hp (guest_open_flags (fe_flags FE) flags) mode in if e \<noteq> 0 then Inl e else Inr (named_fd g, k))"

definition dev_ptmx_register :: "int \<Rightarrow> nat \<Rightarrow> kern \<Rightarrow> kern" where
  "dev_ptmx_register ptn y k =
     (if ptn < 0 then k
      else k\<lparr>k_tty := (k_tty k)(y := (k_tty k y)\<lparr>tty_ptn := ptn\<rparr>), k_ptmx := (ptn, y) # filter (\<lambda>(n, z). n \<noteq> ptn) (k_ptmx k)\<rparr>)"

text \<open>DevFd::open. A new terminal and the token of its master side get the same number.\<close>

definition dev_open :: "file_env \<Rightarrow> kern \<Rightarrow> nat \<Rightarrow> string \<Rightarrow> u32 \<Rightarrow> u32 \<Rightarrow> int + Fd \<times> kern" where
  "dev_open FE k me g flags mode =
     (if g = ''/dev/tty'' \<or> g = ''/dev/console'' then
        (case ss_ctty (k_session k (t_session (k_task k me))) of
           None \<Rightarrow> Inl ENXIO
         | Some y \<Rightarrow>
             (case find (\<lambda>(fd, i). fd_tty (k_fd k i) = Some y) (ps_fds (ps_of k me)) of
                None \<Rightarrow> Inl ENXIO
              | Some (fd, i) \<Rightarrow> if fe_dup FE k i \<noteq> 0 then Inl (fe_dup FE k i) else Inr ((named_fd g)\<lparr>fd_tty := Some y\<rparr>, k)))
      else if g = ''/dev/ptmx'' then
        (case fe_ptmx FE k of
           Inl e \<Rightarrow> Inl e
         | Inr ptn \<Rightarrow>
             (let y = fe_fresh FE k;
                  k1 = k\<lparr>k_tty := (k_tty k)(y := \<lparr>tty_fg_pgrp = 0, tty_owner = None, tty_ptn = - 1\<rparr>), k_token := (k_token k)(y := 0)\<rparr>
              in Inr ((named_fd g)\<lparr>fd_tty := Some y, fd_master := Some y\<rparr>, dev_ptmx_register ptn y k1)))
      else if has_prefix ''/dev/pts/'' g then
        (let ptn = parse_dev_suffix (drop 9 g) in
         case map_of (k_ptmx k) ptn of
           None \<Rightarrow> Inl ENOENT
         | Some y \<Rightarrow>
             (let e = fe_open FE k (''/dev/pts/'' @ int_string ptn) (guest_open_flags (fe_flags FE) (flags AND NOT BPF_O_CREAT)) mode
              in if e \<noteq> 0 then Inl e else Inr ((named_fd g)\<lparr>fd_tty := Some y\<rparr>, k)))
      else (case map_of dev_nodes g of Some HostChr \<Rightarrow> host_open FE k g flags mode g | _ \<Rightarrow> Inl ENOENT))"

text \<open>
  /proc/[pid]/fd/N: a plain descriptor of the host is opened again; signal descriptors cannot be, and
  the others are cloned.
\<close>

definition fd_link_open :: "file_env \<Rightarrow> kern \<Rightarrow> nat \<Rightarrow> u32 \<Rightarrow> int + Fd \<times> kern" where
  "fd_link_open FE k i flags =
     (let F = k_fd k i; plain = fd_host F \<and> fd_signal F = None \<and> fd_tty F = None;
          e = fe_reopen FE k i (guest_open_flags (fe_flags FE) (flags AND NOT (BPF_O_NOFOLLOW OR BPF_O_CLOEXEC)))
      in if plain \<and> e = 0 then Inr (named_fd (fd_path F), k)
         else if plain \<and> e \<noteq> ENOENT \<and> e \<noteq> ENOTDIR then Inl e
         else if fd_signal F \<noteq> None then Inl EACCES
         else if fd_host F \<and> fe_dup FE k i \<noteq> 0 then Inl (fe_dup FE k i)
         else (let rc = (if fd_host F then fst (fe_fd FE k i (Ftruncate 0)) else - EINVAL) in
               if flags AND BPF_O_TRUNC \<noteq> 0 \<and> rc < 0 \<and> rc \<noteq> - EINVAL \<and> rc \<noteq> - ESPIPE then Inl (- rc)
               else Inr (fd_clone_obj F, k)))"

definition exe_link_open :: "file_env \<Rightarrow> kern \<Rightarrow> nat \<Rightarrow> string \<Rightarrow> u32 \<Rightarrow> int + Fd \<times> kern" where
  "exe_link_open FE k t target flags =
     (case pr_image (fe_proc FE k) t of
        None \<Rightarrow> Inl ENOENT
      | Some exe \<Rightarrow>
          if flags AND (BPF_O_WRONLY OR BPF_O_RDWR) \<noteq> 0 then Inl ETXTBSY
          else (let hf = guest_open_flags (fe_flags FE) (flags AND NOT (BPF_O_NOFOLLOW OR BPF_O_CLOEXEC));
                    e = fe_open_exe FE k t hf;
                    e' = (if e = ENOENT \<or> e = ENOTDIR then fe_open FE k exe hf 0 else e)
                in if e' \<noteq> 0 then Inl e' else Inr (named_fd target, k)))"

text \<open>A node of /proc that the walk ended at: the result, or the path to open in its place.\<close>

definition proc_open :: "file_env \<Rightarrow> kern \<Rightarrow> string \<Rightarrow> gen \<Rightarrow> u32 \<Rightarrow> (int + Fd \<times> kern) + string" where
  "proc_open FE k g node flags =
     (let nofollow = flags AND BPF_O_NOFOLLOW \<noteq> 0;
          writes = flags AND (BPF_O_WRONLY OR BPF_O_RDWR OR BPF_O_TRUNC OR BPF_O_APPEND) \<noteq> 0 in
      case node of
        NoneGen \<Rightarrow> Inl (Inl ENOENT)
      | FdLinkGen i l \<Rightarrow> Inl (if nofollow then Inl ELOOP else fd_link_open FE k i flags)
      | ExeLinkGen t l \<Rightarrow> Inl (if nofollow then Inl ELOOP else exe_link_open FE k t l flags)
      | LinkGen l \<Rightarrow>
          if writes then Inl (Inl EROFS) else if nofollow then Inl (Inl ELOOP)
          else (let target = resolve_symlink g l in if target = [] then Inl (Inl ENOENT) else Inr target)
      | DirGen es \<Rightarrow> Inl (if writes then Inl EROFS else Inr (virtual_fd g (VirtualDir (map (\<lambda>(n, x). (n, gen_dtype x)) es) 0), k))
      | FileGen f \<Rightarrow> Inl (if writes then Inl EROFS else Inr (virtual_fd g (ProcFile (file_text (fe_proc FE k) k f) 0), k)))"

text \<open>The virtual method open of the three classes.\<close>

partial_function (option) path_open :: "file_env \<Rightarrow> kern \<Rightarrow> nat \<Rightarrow> string \<Rightarrow> u32 \<Rightarrow> u32 \<Rightarrow> (int + Fd \<times> kern) option" where
  "path_open FE k me g flags mode =
     (let P = ResolvePath (ps_root (ps_of k me)) g in
      case pa_class P of
        HostPath \<Rightarrow> Some (host_open FE k (pa_host P) flags mode (pa_guest P))
      | DevPath \<Rightarrow>
          (case dev_lookup k (pa_guest P) of (info, escape) \<Rightarrow>
             if escape \<noteq> [] then path_open FE k me escape flags mode
             else (case info of
                     Some DevDir \<Rightarrow> Some (Inr (virtual_fd (pa_guest P) (VirtualDir (dev_dir_entries k (pa_guest P)) 0), k))
                   | Some (Symlink l) \<Rightarrow>
                       if flags AND BPF_O_NOFOLLOW \<noteq> 0 then Some (Inl ELOOP) else path_open FE k me l flags mode
                   | _ \<Rightarrow> Some (dev_open FE k me (pa_guest P) flags mode)))
      | ProcPath \<Rightarrow> do {
          (node, escape) \<leftarrow> lookup (fe_proc FE k) k me (pa_guest P);
          if escape \<noteq> [] then path_open FE k me escape flags mode
          else (case proc_open FE k (pa_guest P) node flags of Inl r \<Rightarrow> Some r | Inr target \<Rightarrow> path_open FE k me target flags mode)
        })"

subsection \<open>Other operations on paths\<close>

abbreviation (input) AT_SYMLINK_NOFOLLOW :: u32 where "AT_SYMLINK_NOFOLLOW \<equiv> 0x100"
abbreviation (input) STATX_BASIC_STATS :: u32 where "STATX_BASIC_STATS \<equiv> 0x7ff"
abbreviation (input) S_IFREG :: nat where "S_IFREG \<equiv> 0x8000"
abbreviation (input) S_IFDIR :: nat where "S_IFDIR \<equiv> 0x4000"
abbreviation (input) S_IFLNK :: nat where "S_IFLNK \<equiv> 0xa000"

text \<open>struct statx, of 256 bytes, for a virtual file: one link, blocks of 4096 bytes, mode and size.\<close>

definition statx_bytes :: "nat \<Rightarrow> nat \<Rightarrow> u8 list" where
  "statx_bytes mode sz =
     le_bytes 4 (uint STATX_BASIC_STATS) @ le_bytes 4 4096 @ replicate 8 0 @ le_bytes 4 1 @ replicate 8 0 @ le_bytes 2 (int mode)
     @ replicate 10 0 @ le_bytes 8 (int sz) @ replicate 208 0"

text \<open>The target of a link in a buffer of n bytes, without a null character.\<close>

definition link_bytes :: "string \<Rightarrow> nat \<Rightarrow> int \<times> u8 list" where
  "link_bytes l n = (int (min (length l) n), c_bytes (take n l))"

fun op_modifies :: "path_op \<Rightarrow> bool" where
  "op_modifies (Readlink n) = False"
| "op_modifies (Statx m f) = False"
| "op_modifies (Access m f) = False"
| "op_modifies _ = True"

text \<open>HostPath::chmod knows one flag.\<close>

fun host_op :: "path_op \<Rightarrow> path_op" where
  "host_op (Chmod mode flags) = Chmod mode (flags AND AT_SYMLINK_NOFOLLOW)"
| "host_op op = op"

text \<open>
  DevPath for a node without a link in the middle of its path: the result, or the operation on
  another path.
\<close>

fun dev_op :: "file_env \<Rightarrow> kern \<Rightarrow> string \<Rightarrow> DevInfo \<Rightarrow> path_op \<Rightarrow> (int \<times> u8 list) + string" where
  "dev_op FE k g info (Readlink n) = Inl (case info of Symlink l \<Rightarrow> link_bytes l n | _ \<Rightarrow> (- EINVAL, []))"
| "dev_op FE k g info (Statx m flags) =
     (case info of
        HostChr \<Rightarrow> Inl (fe_path FE k g (Statx m flags))
      | DevDir \<Rightarrow> Inl (0, statx_bytes (S_IFDIR + 365) 0)
      | Symlink l \<Rightarrow> if flags AND AT_SYMLINK_NOFOLLOW \<noteq> 0 then Inl (0, statx_bytes (S_IFLNK + 511) (length l)) else Inr l)"
| "dev_op FE k g info (Access m flags) = Inl (case info of HostChr \<Rightarrow> fe_path FE k g (Access m flags) | _ \<Rightarrow> (0, []))"
| "dev_op FE k g info _ = Inl (- EROFS, [])"

text \<open>The attributes of a node of /proc, and where a link that is followed leads to.\<close>

definition node_stat :: "gen \<Rightarrow> int \<times> u8 list" where
  "node_stat node =
     (case node of
        FileGen f \<Rightarrow> (0, statx_bytes (S_IFREG + 292) 0)
      | DirGen es \<Rightarrow> (0, statx_bytes (S_IFDIR + 365) 0)
      | NoneGen \<Rightarrow> (- ENOENT, [])
      | _ \<Rightarrow> (0, statx_bytes (S_IFLNK + 511) 0))"

text \<open>The operation on the descriptor of a link, or on a path outside /proc.\<close>

fun fd_stat :: "file_env \<Rightarrow> kern \<Rightarrow> nat \<Rightarrow> u32 \<Rightarrow> int \<times> u8 list" where
  "fd_stat FE k i m =
     (case fd_virt (k_fd k i) of
        NotVirtual \<Rightarrow>
          (let r = fe_fd FE k i (Fstatx m) in
           if fd_signal (k_fd k i) \<noteq> None \<and> fst r = 0 then (0, take 28 (snd r) @ le_bytes 2 384 @ drop 30 (snd r)) else r)
      | VirtualDir es n \<Rightarrow> (0, statx_bytes (S_IFDIR + 365) 0)
      | ProcFile d n \<Rightarrow> (0, statx_bytes (S_IFREG + 292) 0))"

definition proc_stat :: "file_env \<Rightarrow> kern \<Rightarrow> nat \<Rightarrow> string \<Rightarrow> gen \<Rightarrow> u32 \<Rightarrow> u32 \<Rightarrow> ((int \<times> u8 list) + string) option" where
  "proc_stat FE k me g node m flags =
     (if flags AND AT_SYMLINK_NOFOLLOW \<noteq> 0 then Some (Inl (node_stat node))
      else (case node of
              FdLinkGen i l \<Rightarrow> Some (Inl (fd_stat FE k i m))
            | ExeLinkGen t l \<Rightarrow>
                Some (Inl (case pr_image (fe_proc FE k) t of None \<Rightarrow> (- ENOENT, []) | Some exe \<Rightarrow> fe_stat_exe FE k t m))
            | LinkGen l \<Rightarrow>
                (let target = resolve_symlink g l in
                 if target = [] then Some (Inl (- ENOENT, []))
                 else if has_prefix ''/proc'' target then map_option (\<lambda>(node', e). Inl (node_stat node')) (lookup (fe_proc FE k) k me target)
                 else Some (Inr target))
            | _ \<Rightarrow> Some (Inl (node_stat node))))"

partial_function (option) path_call :: "file_env \<Rightarrow> kern \<Rightarrow> nat \<Rightarrow> string \<Rightarrow> path_op \<Rightarrow> (int \<times> u8 list) option" where
  "path_call FE k me g op =
     (let P = ResolvePath (ps_root (ps_of k me)) g in
      case pa_class P of
        HostPath \<Rightarrow> Some (fe_path FE k (pa_host P) (host_op op))
      | DevPath \<Rightarrow>
          if op_modifies op then Some (- EROFS, [])
          else (case dev_lookup k (pa_guest P) of (info, escape) \<Rightarrow>
                  if escape \<noteq> [] then path_call FE k me escape (case op of Statx m f \<Rightarrow> Statx STATX_BASIC_STATS f | _ \<Rightarrow> op)
                  else (case info of
                          None \<Rightarrow> Some (- ENOENT, [])
                        | Some d \<Rightarrow> (case dev_op FE k (pa_guest P) d op of Inl r \<Rightarrow> Some r | Inr l \<Rightarrow> path_call FE k me l op)))
      | ProcPath \<Rightarrow>
          if op_modifies op then Some (- EROFS, [])
          else do {
            (node, escape) \<leftarrow> lookup (fe_proc FE k) k me (pa_guest P);
            if escape \<noteq> [] then path_call FE k me escape (case op of Statx m f \<Rightarrow> Statx STATX_BASIC_STATS f | _ \<Rightarrow> op)
            else if node = NoneGen then Some (- ENOENT, [])
            else (case op of
                    Readlink n \<Rightarrow>
                      Some (case link_target node of
                              None \<Rightarrow> (- EINVAL, [])
                            | Some l \<Rightarrow> if l = [] then (- ENOENT, []) else link_bytes l n)
                  | Statx m f \<Rightarrow> do {
                      r \<leftarrow> proc_stat FE k me (pa_guest P) node m f;
                      (case r of Inl x \<Rightarrow> Some x | Inr target \<Rightarrow> path_call FE k me target (Statx STATX_BASIC_STATS f))
                    }
                  | _ \<Rightarrow> Some (0, []))
          })"

text \<open>link and rename on two paths: both must be files of the host.\<close>

definition link_call :: "file_env \<Rightarrow> kern \<Rightarrow> nat \<Rightarrow> string \<Rightarrow> string \<Rightarrow> (string \<Rightarrow> path_op) \<Rightarrow> int" where
  "link_call FE k me g g' op =
     (let root = ps_root (ps_of k me); P = ResolvePath root g; Q = ResolvePath root g' in
      if pa_class P = ProcPath \<or> is_proc (pa_guest P) \<or> is_proc (pa_guest Q) \<or> is_dev (pa_guest P) \<or> is_dev (pa_guest Q) then - EXDEV
      else fst (fe_path FE k (pa_host P) (op (pa_host Q))))"

subsection \<open>Directories\<close>

text \<open>
  A record of a directory: inode, the index of the next entry, length, type and name. The length is
  rounded to a multiple of 8, and the bytes behind the name stay as they are in the buffer.
\<close>

definition reclen :: "string \<Rightarrow> nat" where
  "reclen name = (24 + length name + 1 + 7) div 8 * 8"

definition dirent :: "nat \<Rightarrow> string \<Rightarrow> u8 \<Rightarrow> u8 list" where
  "dirent cookie name dtype =
     le_bytes 8 (int (1 + cookie)) @ le_bytes 8 (int (cookie + 1)) @ le_bytes 2 (int (reclen name)) @ [dtype] @ c_bytes name @ [0]"

text \<open>Records from position pos on while they fit: the end position, the records with their offsets, and the next index.\<close>

fun emit :: "nat \<Rightarrow> nat \<Rightarrow> nat \<Rightarrow> (string \<times> u8) list \<Rightarrow> nat \<times> (nat \<times> u8 list) list \<times> nat" where
  "emit cap pos cookie [] = (pos, [], cookie)"
| "emit cap pos cookie ((name, dtype) # es) =
     (if pos + reclen name > cap then (pos, [], cookie)
      else (case emit cap (pos + reclen name) (Suc cookie) es of
              (end_pos, out, next) \<Rightarrow> (end_pos, (pos, dirent cookie name dtype) # out, next)))"

definition all_entries :: "(string \<times> u8) list \<Rightarrow> (string \<times> u8) list" where
  "all_entries es = (dot, DT_DIR) # (dotdot, DT_DIR) # es"

definition virtual_getdents :: "nat \<Rightarrow> (string \<times> u8) list \<Rightarrow> int \<Rightarrow> int \<times> (nat \<times> u8 list) list \<times> int" where
  "virtual_getdents cap es idx =
     (case emit cap 0 (nat idx) (drop (nat idx) (all_entries es)) of (end_pos, out, next) \<Rightarrow> (int end_pos, out, int next))"

subsection \<open>Positions\<close>

abbreviation (input) SEEK_SET :: int where "SEEK_SET \<equiv> 0"
abbreviation (input) SEEK_CUR :: int where "SEEK_CUR \<equiv> 1"
abbreviation (input) SEEK_END :: int where "SEEK_END \<equiv> 2"

text \<open>The new position, or None for the error EINVAL; a sum of 64 bits wraps around.\<close>

definition new_pos :: "int option \<Rightarrow> int \<Rightarrow> int option" where
  "new_pos base off = (case base of None \<Rightarrow> None | Some b \<Rightarrow> (let p = sint (word_of_int (b + off) :: u64) in if p < 0 then None else Some p))"

definition dir_base :: "int \<Rightarrow> int \<Rightarrow> int option" where
  "dir_base idx whence = (if whence = SEEK_SET then Some 0 else if whence = SEEK_CUR then Some idx else None)"

definition file_base :: "string \<Rightarrow> int \<Rightarrow> int \<Rightarrow> int option" where
  "file_base d pos whence =
     (if whence = SEEK_SET then Some 0 else if whence = SEEK_CUR then Some pos else if whence = SEEK_END then Some (int (length d)) else None)"

text \<open>Reading a file of /proc at a position.\<close>

definition proc_slice :: "string \<Rightarrow> int \<Rightarrow> nat \<Rightarrow> int \<times> u8 list" where
  "proc_slice d pos n =
     (if pos < 0 then (- EINVAL, [])
      else (let part = take n (drop (nat pos) d) in (int (length part), c_bytes part)))"

subsection \<open>Operations on descriptors\<close>

text \<open>What class Fd answers where a class has nothing of its own.\<close>

fun fd_default :: "fd_op \<Rightarrow> int" where
  "fd_default (Write bs) = - EROFS"
| "fd_default (Pwrite bs off) = - EROFS"
| "fd_default (Writev bss) = - EROFS"
| "fd_default (Getdents n) = - ENOTDIR"
| "fd_default (Fstatx m) = - EBADF"
| "fd_default (Futimens ts) = - EROFS"
| "fd_default _ = - EINVAL"

text \<open>SignalFd keeps the guest from writing into its pipe.\<close>

fun signal_refuses :: "fd_op \<Rightarrow> int option" where
  "signal_refuses (Write bs) = Some (- EINVAL)"
| "signal_refuses (Pwrite bs off) = Some (- ESPIPE)"
| "signal_refuses (Writev bss) = Some (- EINVAL)"
| "signal_refuses (Pread n off) = Some (- ESPIPE)"
| "signal_refuses (Ftruncate n) = Some (- EINVAL)"
| "signal_refuses _ = None"

fun dir_op :: "(string \<times> u8) list \<Rightarrow> int \<Rightarrow> fd_op \<Rightarrow> int \<times> (nat \<times> u8 list) list \<times> int" where
  "dir_op es idx (Getdents n) = virtual_getdents n es idx"
| "dir_op es idx (Lseek off whence) = (case new_pos (dir_base idx whence) off of None \<Rightarrow> (- EINVAL, [], idx) | Some p \<Rightarrow> (p, [], p))"
| "dir_op es idx (Fstatx m) = (0, [(0, statx_bytes (S_IFDIR + 365) 0)], idx)"
| "dir_op es idx op = (fd_default op, [], idx)"

text \<open>A vector of buffers is filled one after the other, up to the first that is not filled.\<close>

fun proc_readv :: "string \<Rightarrow> int \<Rightarrow> nat list \<Rightarrow> int \<times> u8 list \<times> int" where
  "proc_readv d pos [] = (0, [], pos)"
| "proc_readv d pos (n # ns) =
     (if n = 0 then proc_readv d pos ns
      else (case proc_slice d pos n of (rc, bs) \<Rightarrow>
              if rc \<le> 0 then (0, [], pos)
              else if rc < int n then (rc, bs, pos + rc)
              else (case proc_readv d (pos + rc) ns of (rc', bs', pos') \<Rightarrow> (rc + rc', bs @ bs', pos'))))"

fun file_op :: "string \<Rightarrow> int \<Rightarrow> fd_op \<Rightarrow> int \<times> (nat \<times> u8 list) list \<times> int" where
  "file_op d pos (Read n) = (case proc_slice d pos n of (rc, bs) \<Rightarrow> (rc, [(0, bs)], if rc \<le> 0 then pos else pos + rc))"
| "file_op d pos (Pread n off) = (case proc_slice d off n of (rc, bs) \<Rightarrow> (rc, [(0, bs)], pos))"
| "file_op d pos (Lseek off whence) = (case new_pos (file_base d pos whence) off of None \<Rightarrow> (- EINVAL, [], pos) | Some p \<Rightarrow> (p, [], p))"
| "file_op d pos (Readv ns) = (case proc_readv d pos ns of (rc, bs, pos') \<Rightarrow> (rc, [(0, bs)], pos'))"
| "file_op d pos (Fstatx m) = (0, [(0, statx_bytes (S_IFREG + 292) 0)], pos)"
| "file_op d pos op = (fd_default op, [], pos)"

text \<open>
  A virtual method of a descriptor: the number, the bytes for the buffer with their offsets, and the
  kernel with the new position of a virtual file. For a vector of buffers the offsets are those in
  the buffers put one behind the other.
\<close>

definition fd_call :: "file_env \<Rightarrow> nat \<Rightarrow> fd_op \<Rightarrow> kern \<Rightarrow> int \<times> (nat \<times> u8 list) list \<times> kern" where
  "fd_call FE i op k =
     (let F = k_fd k i in
      case fd_virt F of
        NotVirtual \<Rightarrow>
          (case (if fd_signal F = None then None else signal_refuses op) of
             Some e \<Rightarrow> (e, [], k)
           | None \<Rightarrow> (case (case op of Fstatx m \<Rightarrow> fd_stat FE k i m | _ \<Rightarrow> fe_fd FE k i op) of (rc, bs) \<Rightarrow> (rc, [(0, bs)], k)))
      | VirtualDir es idx \<Rightarrow> (case dir_op es idx op of (rc, out, idx') \<Rightarrow> (rc, out, upd_fd i (\<lambda>F. F\<lparr>fd_virt := VirtualDir es idx'\<rparr>) k))
      | ProcFile d pos \<Rightarrow> (case file_op d pos op of (rc, out, pos') \<Rightarrow> (rc, out, upd_fd i (\<lambda>F. F\<lparr>fd_virt := ProcFile d pos'\<rparr>) k)))"

subsection \<open>Background processes and their terminal\<close>

abbreviation (input) SIGTTIN :: int where "SIGTTIN \<equiv> 21"
abbreviation (input) SIGTTOU :: int where "SIGTTOU \<equiv> 22"

text \<open>The result of the call where the check decides it.\<close>

definition tty_bg_check :: "file_env \<Rightarrow> nat \<Rightarrow> nat \<Rightarrow> bool \<Rightarrow> kern \<Rightarrow> int option \<times> kern" where
  "tty_bg_check FE t i is_read k =
     (let T = k_task k t; sig = (if is_read then SIGTTIN else SIGTTOU);
          ev = \<lparr>ev_sig = sig, ev_sender = 0, ev_code = SI_KERNEL, ev_status = 0, ev_value = 0\<rparr> in
      case fd_tty (k_fd k i) of
        None \<Rightarrow> (None, k)
      | Some y \<Rightarrow>
          if ss_ctty (k_session k (t_session T)) \<noteq> Some y then (None, k)
          else (let fg = tty_fg_pgrp (k_tty k y) in
                if fg = 0 \<or> t_pgid T = fg then (None, k)
                else if \<not> is_read \<and> \<not> fe_tostop FE k i then (None, k)
                else if handler_is_ignored (sa_handler (action_of k t sig)) then
                  (if is_read then (Some (- EIO), k) else (None, queue_signal t ev k))
                else (Some (- EINTR), queue_signal t ev k)))"

end
