(* ===== verification/Posix_Calls.thy ===== *)
theory Posix_Calls
  imports Posix_Memory Posix_Process Posix_Futex Posix_Poll Posix_Files
begin

text \<open>
  The system calls of class PosixSyscall on a machine (src/posix/signal.cpp, process.cpp, futex.cpp,
  session.cpp, fd_ops.cpp, posix_syscall.cpp): arguments in registers, structures in guest memory, and
  the kernel state of the earlier theories as the state of the handler. The result None stands for a
  host fault and for a call that is still waiting when the rounds given to it end.
\<close>

subsection \<open>Arguments, structures and the kernel\<close>

definition arg_s32 :: "u64 \<Rightarrow> int" where
  "arg_s32 v = sint (ucast v :: u32)"

abbreviation me :: "kern vm \<Rightarrow> nat" where
  "me s \<equiv> k_me (v_sys s)"

text \<open>The flags word of the machine is the one of its task in the kernel.\<close>

definition enter_kern :: "kern vm \<Rightarrow> kern" where
  "enter_kern s = upd_task (me s) (\<lambda>T. T\<lparr>t_flags := v_flags s\<rparr>) (v_sys s)"

definition leave_kern :: "kern \<Rightarrow> kern vm \<Rightarrow> kern vm" where
  "leave_kern k s = s\<lparr>v_sys := k, v_flags := t_flags (k_task k (me s))\<rparr>"

definition in_kern :: "(kern \<Rightarrow> int \<times> kern) \<Rightarrow> kern vm \<Rightarrow> int \<times> kern vm" where
  "in_kern f s = (case f (enter_kern s) of (r, k) \<Rightarrow> (r, leave_kern k s))"

text \<open>Structures of 64-bit words in guest memory.\<close>

definition guest_words :: "'h vm \<Rightarrow> u64 \<Rightarrow> nat \<Rightarrow> (u64 list option \<times> 'h vm) option" where
  "guest_words s a n =
     (case mmu s a (of_nat (8 * n)) of
        (None, s1) \<Rightarrow> Some (None, s1)
      | (Some p, s1) \<Rightarrow> map_option (\<lambda>ws. (Some ws, s1)) (peek_words s1 p n))"

definition put_words :: "'h vm \<Rightarrow> u64 \<Rightarrow> u64 list \<Rightarrow> (bool \<times> 'h vm) option" where
  "put_words s a ws = guest_write s a (concat (map u64_bytes ws))"

text \<open>An optional structure: the null address is left alone.\<close>

definition put_words_opt :: "'h vm \<Rightarrow> u64 \<Rightarrow> u64 list \<Rightarrow> (bool \<times> 'h vm) option" where
  "put_words_opt s a ws = (if a = 0 then Some (True, s) else put_words s a ws)"

definition u32_bytes :: "u32 \<Rightarrow> u8 list" where
  "u32_bytes w = le_bytes 4 (uint w)"

subsection \<open>Sending signals\<close>

definition do_kill :: "kern vm \<Rightarrow> (int \<times> kern vm) option" where
  "do_kill s = Some (in_kern (kill_call (me s) (arg_s32 (v_reg s 1)) (arg_s32 (v_reg s 2))) s)"

definition do_sigqueueinfo :: "kern vm \<Rightarrow> (int \<times> kern vm) option" where
  "do_sigqueueinfo s =
     (let target_pid = arg_s32 (v_reg s 1); sig = arg_s32 (v_reg s 2) in
      if sig < 0 \<or> sig \<ge> NSIG then Some (- EINVAL, s)
      else do {
        (si, s1) \<leftarrow> guest_words s (v_reg s 3) 16;
        (case si of
           None \<Rightarrow> Some (- EFAULT, s1)
         | Some ws \<Rightarrow> Some (in_kern (send_sig_info (me s) target_pid sig SI_QUEUE (ws ! 3)) s1))
      })"

definition do_tkill :: "kern vm \<Rightarrow> (int \<times> kern vm) option" where
  "do_tkill s = Some (in_kern (tkill_call (me s) (arg_s32 (v_reg s 1)) (arg_s32 (v_reg s 2))) s)"

definition do_tgkill :: "kern vm \<Rightarrow> (int \<times> kern vm) option" where
  "do_tgkill s = Some (in_kern (tgkill_call (me s) (arg_s32 (v_reg s 1)) (arg_s32 (v_reg s 2)) (arg_s32 (v_reg s 3))) s)"

subsection \<open>Actions and masks\<close>

definition set_action :: "int \<Rightarrow> signal_action \<Rightarrow> kern vm \<Rightarrow> kern vm" where
  "set_action sig act s =
     s\<lparr>v_sys := upd_ps (t_ps (k_task (v_sys s) (me s))) (\<lambda>S. S\<lparr>ps_actions := (ps_actions S)(nat sig := act)\<rparr>) (v_sys s)\<rparr>"

definition action_words :: "signal_action \<Rightarrow> u64 list" where
  "action_words act = [sa_handler act, word_of_int (sa_flags act), 0, sa_mask act]"

definition action_of_words :: "u64 list \<Rightarrow> signal_action" where
  "action_of_words ws = \<lparr>sa_handler = ws ! 0, sa_mask = ws ! 3, sa_flags = sint (ucast (ws ! 1) :: u32)\<rparr>"

definition do_sigaction :: "kern vm \<Rightarrow> (int \<times> kern vm) option" where
  "do_sigaction s =
     (let signo = arg_s32 (v_reg s 1); act_addr = v_reg s 2; oldact_addr = v_reg s 3 in
      if signo \<le> 0 \<or> signo \<ge> NSIG \<or> signo = SIGKILL \<or> signo = SIGSTOP then Some (- EINVAL, s)
      else do {
        (ok, s1) \<leftarrow> put_words_opt s oldact_addr (action_words (action_of (v_sys s) (me s) signo));
        if \<not> ok then Some (- EFAULT, s1)
        else if act_addr = 0 then Some (0, s1)
        else do {
          (act, s2) \<leftarrow> guest_words s1 act_addr 4;
          (case act of
             None \<Rightarrow> Some (- EFAULT, s2)
           | Some ws \<Rightarrow> if ws ! 0 = - 1 then Some (- EINVAL, s2) else Some (0, set_action signo (action_of_words ws) s2))
        }
      })"

definition do_sigaltstack :: "kern vm \<Rightarrow> (int \<times> kern vm) option" where
  "do_sigaltstack s = do {
     (ok, s1) \<leftarrow> put_words_opt s (v_reg s 2) [0, 2, 0];
     Some (if ok then 0 else - EFAULT, s1)
   }"

abbreviation (input) SIG_BLOCK :: int where "SIG_BLOCK \<equiv> 0"
abbreviation (input) SIG_UNBLOCK :: int where "SIG_UNBLOCK \<equiv> 1"
abbreviation (input) SIG_SETMASK :: int where "SIG_SETMASK \<equiv> 2"

definition new_mask :: "int \<Rightarrow> u64 \<Rightarrow> u64 \<Rightarrow> u64" where
  "new_mask how old_mask bits =
     (if how = SIG_BLOCK then old_mask OR bits else if how = SIG_UNBLOCK then old_mask AND NOT bits else bits)"

text \<open>The mask is read before the old one is written, which may be at the same address.\<close>

definition do_sigprocmask :: "kern vm \<Rightarrow> (int \<times> kern vm) option" where
  "do_sigprocmask s =
     (let how = arg_s32 (v_reg s 1); set_addr = v_reg s 2; old_addr = v_reg s 3; mk = t_sigmask (k_task (v_sys s) (me s)) in
      if how \<noteq> SIG_BLOCK \<and> how \<noteq> SIG_UNBLOCK \<and> how \<noteq> SIG_SETMASK then Some (- EINVAL, s)
      else do {
        (r, s1) \<leftarrow> (if set_addr = 0 then Some (Some [0], s) else guest_words s set_addr 1);
        (case r of
           None \<Rightarrow> Some (- EFAULT, s1)
         | Some ws \<Rightarrow> do {
             (ok, s2) \<leftarrow> put_words_opt s1 old_addr [mk, 0];
             if \<not> ok then Some (- EFAULT, s2)
             else if set_addr = 0 then Some (0, s2)
             else Some (0, leave_kern (set_mask (me s) (new_mask how mk (mask_bits (ws ! 0))) (enter_kern s2)) s2)
           })
      })"

subsection \<open>Non-local jumps\<close>

definition jmp_env :: "int \<Rightarrow> kern vm \<Rightarrow> u64 list" where
  "jmp_env savemask s =
     [v_reg s 6, v_reg s 7, v_reg s 8, v_reg s 9, v_reg s 10, v_pc s, v_signal_depth s, 0, if savemask \<noteq> 0 then 1 else 0]
     @ (if savemask \<noteq> 0 then [t_sigmask (k_task (v_sys s) (me s))] else [])"

definition do_sigsetjmp :: "kern vm \<Rightarrow> (int \<times> kern vm) option" where
  "do_sigsetjmp s = do {
     (env, s1) \<leftarrow> mmu_w s (v_reg s 1) 80;
     (case env of
        None \<Rightarrow> Some (- EFAULT, s1)
      | Some p \<Rightarrow> map_option (Pair 0) (poke s1 p (concat (map u64_bytes (jmp_env (arg_s32 (v_reg s 2)) s1)))))
   }"

definition jump_to :: "u64 list \<Rightarrow> kern vm \<Rightarrow> kern vm" where
  "jump_to env s =
     (let s1 = restore_regs [6, 7, 8, 9, 10] env s;
          s2 = (if env ! 7 \<noteq> 0 then set_reg 1 (env ! 7) s1 else s1);
          s3 = s2\<lparr>v_signal_depth := env ! 6, v_pc := env ! 5\<rparr>
      in if env ! 8 \<noteq> 0 then leave_kern (set_mask (me s) (env ! 9) (enter_kern s3)) s3 else s3)"

definition do_siglongjmp :: "kern vm \<Rightarrow> (int \<times> kern vm) option" where
  "do_siglongjmp s = do {
     (env, s1) \<leftarrow> guest_words s (v_reg s 1) 10;
     (case env of
        None \<Rightarrow> Some (- EFAULT, s1)
      | Some ws \<Rightarrow> Some (let val = arg_s32 (v_reg s 2) in if val = 0 then 1 else val, jump_to ws s1))
   }"

subsection \<open>What the calls get from outside\<close>

text \<open>
  The host and the other tasks: files and error numbers of memory calls, a number from which on
  objects are unused, the error number of the host call that a call makes (0 for success), the states
  of the kernel and the times at which a sleeping thread looks at its flags, a bound for the rounds of
  a waiting loop, the clock, the host's poll, the outcome of a host sleep, random bytes, resource
  limits, files and paths, the transfer between two descriptors, and the calls that are not modelled.
\<close>

record posix_env =
  pe_mm :: mm_env
  pe_fresh :: "kern \<Rightarrow> nat"
  pe_err :: "kern \<Rightarrow> int"
  pe_rounds :: "nat \<Rightarrow> kern \<Rightarrow> (kern \<times> timespec) list"
  pe_fuel :: nat
  pe_now :: "kern \<Rightarrow> timespec"
  pe_poll :: "kern \<Rightarrow> host_poll"
  pe_clock :: "kern \<Rightarrow> int \<Rightarrow> int + timespec"
  pe_sleep :: "kern \<Rightarrow> int \<Rightarrow> int \<Rightarrow> timespec \<Rightarrow> int \<times> timespec"
  pe_random :: "kern \<Rightarrow> nat \<Rightarrow> int + u8 list"
  pe_prlimit :: "kern \<Rightarrow> int \<Rightarrow> u64 list option \<Rightarrow> int + u64 list"
  pe_files :: file_env
  pe_sendfile :: "kern \<Rightarrow> nat \<Rightarrow> nat \<Rightarrow> int option \<Rightarrow> nat \<Rightarrow> int \<times> int"
  pe_other :: "kern vm \<Rightarrow> u32 \<Rightarrow> (int \<times> kern vm) option"

text \<open>vm::wait_for in the kernel: the result and the state at the round that ends the sleep.\<close>

fun sleep_rounds :: "timespec option \<Rightarrow> (kern \<times> timespec) list \<Rightarrow> nat \<Rightarrow> (int \<times> kern) option" where
  "sleep_rounds deadline [] t = None"
| "sleep_rounds deadline ((k, now) # rs) t =
     (case wait_check deadline (t_flags (k_task k t)) now of Some rc \<Rightarrow> Some (rc, k) | None \<Rightarrow> sleep_rounds deadline rs t)"

subsection \<open>Waiting for a signal\<close>

definition parse_guest_sigset :: "kern vm \<Rightarrow> u64 \<Rightarrow> (u64 option \<times> kern vm) option" where
  "parse_guest_sigset s a =
     (if a = 0 then Some (Some 0, s)
      else do {
        (r, s1) \<leftarrow> guest_words s a 1;
        Some (map_option (\<lambda>ws. (ws ! 0) AND (push_bit 31 1 - 1)) r, s1)
      })"

definition can_deliver :: "u64 \<Rightarrow> SigEvent list \<Rightarrow> bool" where
  "can_deliver mk q \<longleftrightarrow> (\<exists>e \<in> set q. sig_bit (ev_sig e) \<noteq> 0 \<and> mk AND sig_bit (ev_sig e) = 0)"

primrec suspend_loop :: "nat \<Rightarrow> (nat \<Rightarrow> kern \<Rightarrow> (kern \<times> timespec) list) \<Rightarrow> u64 \<Rightarrow> nat \<Rightarrow> kern \<Rightarrow> kern option" where
  "suspend_loop 0 rounds mk t k = None"
| "suspend_loop (Suc n) rounds mk t k =
     (if task_flag k t (VM_KILLED OR VM_STOPPED OR VM_DEBUG_STOP) \<or> can_deliver mk (t_pending (k_task k t)) then Some k
      else (case sleep_rounds None (rounds n (or_flags VM_BLOCKED t (and_flags VM_SIGNAL_PENDING t k))) t of
              None \<Rightarrow> None
            | Some (rc, k1) \<Rightarrow> suspend_loop n rounds mk t (and_flags VM_BLOCKED t k1)))"

definition do_sigsuspend :: "posix_env \<Rightarrow> kern vm \<Rightarrow> (int \<times> kern vm) option" where
  "do_sigsuspend E s = do {
     (r, s1) \<leftarrow> parse_guest_sigset s (v_reg s 1);
     (case r of
        None \<Rightarrow> Some (- EFAULT, s1)
      | Some mk \<Rightarrow>
          map_option (\<lambda>k. (SYSCALL_RESTART_NOHAND, leave_kern k s1))
            (suspend_loop (pe_fuel E) (pe_rounds E) mk (me s) (upd_task (me s) (\<lambda>T. T\<lparr>t_sigmask := mk\<rparr>) (enter_kern s1))))
   }"

definition do_signalfd4 :: "posix_env \<Rightarrow> kern vm \<Rightarrow> (int \<times> kern vm) option" where
  "do_signalfd4 E s =
     (let flags = ucast (v_reg s 4) :: u32 in
      if flags AND NOT (BPF_O_CLOEXEC OR 0x800) \<noteq> 0 then Some (- EINVAL, s)
      else do {
        (r, s1) \<leftarrow> parse_guest_sigset s (v_reg s 2);
        (case r of
           None \<Rightarrow> Some (- EFAULT, s1)
         | Some mk \<Rightarrow>
             Some (in_kern (\<lambda>k. signalfd4_call (pe_err E k) (pe_fresh E k) (me s) (arg_s32 (v_reg s 1)) mk flags k) s1))
      })"

subsection \<open>Futexes\<close>

abbreviation (input) FUTEX_WAIT :: u32 where "FUTEX_WAIT \<equiv> 0"
abbreviation (input) FUTEX_WAKE :: u32 where "FUTEX_WAKE \<equiv> 1"
abbreviation (input) FUTEX_REQUEUE :: u32 where "FUTEX_REQUEUE \<equiv> 3"

definition futex_wait_kern :: "posix_env \<Rightarrow> nat \<times> u64 \<Rightarrow> nat \<Rightarrow> u32 \<Rightarrow> u32 \<Rightarrow> timespec option \<Rightarrow> kern \<Rightarrow> (int \<times> kern) option" where
  "futex_wait_kern E key t word val timeout k =
     (case futex_enter key t word val k of
        (r, k1) \<Rightarrow>
          if r \<noteq> 0 then Some (r, k1)
          else map_option (\<lambda>(rc, k2). (futex_result rc, futex_leave key t k2))
                 (sleep_rounds (map_option (deadline_of (pe_now E k1)) timeout) (pe_rounds E 0 k1) t))"

definition futex_wait :: "posix_env \<Rightarrow> u64 \<Rightarrow> u32 \<Rightarrow> timespec option \<Rightarrow> kern vm \<Rightarrow> (int \<times> kern vm) option" where
  "futex_wait E addr val timeout s = do {
     (w, s1) \<leftarrow> guest_read s addr 4;
     (case w of
        None \<Rightarrow> Some (- EFAULT, s1)
      | Some v \<Rightarrow>
          map_option (\<lambda>(r, k). (r, leave_kern k s1))
            (futex_wait_kern E (t_tg (k_task (v_sys s) (me s)), addr) (me s) (word_of_int v) val timeout (enter_kern s1)))
   }"

definition do_futex :: "posix_env \<Rightarrow> kern vm \<Rightarrow> (int \<times> kern vm) option" where
  "do_futex E s =
     (let uaddr = v_reg s 1; op_base = (ucast (v_reg s 2) :: u32) AND NOT 128; val = ucast (v_reg s 3) :: u32; timeout_ptr = v_reg s 4;
          key = (t_tg (k_task (v_sys s) (me s)), uaddr) in
      if uaddr AND 3 \<noteq> 0 then Some (- EINVAL, s)
      else if op_base = FUTEX_WAIT then
        (if timeout_ptr = 0 then futex_wait E uaddr val None s
         else do {
           (r, s1) \<leftarrow> guest_words s timeout_ptr 2;
           (case r of None \<Rightarrow> Some (- EFAULT, s1) | Some ws \<Rightarrow> futex_wait E uaddr val (Some (sint (ws ! 0), sint (ws ! 1))) s1)
         })
      else if op_base = FUTEX_WAKE then Some (in_kern (futex_wake key (sint val)) s)
      else if op_base = FUTEX_REQUEUE then Some (in_kern (futex_wake key 0x10000) s)
      else Some (- ENOSYS, s))"

subsection \<open>Processes\<close>

definition do_exit :: "kern vm \<Rightarrow> (int \<times> kern vm) option" where
  "do_exit s = (let code = arg_s32 (v_reg s 1) in Some (in_kern (\<lambda>k. (code, do_exit_task (me s) code k)) s))"

definition do_exit_group :: "kern vm \<Rightarrow> (int \<times> kern vm) option" where
  "do_exit_group s = (let code = arg_s32 (v_reg s 1) in Some (in_kern (\<lambda>k. (code, exit_group (me s) code k)) s))"

primrec wait_loop_kern :: "nat \<Rightarrow> (nat \<Rightarrow> kern \<Rightarrow> (kern \<times> timespec) list) \<Rightarrow> nat \<Rightarrow> int \<Rightarrow> int \<Rightarrow> bool \<Rightarrow> kern \<Rightarrow> (int \<times> wait_event \<times> kern) option" where
  "wait_loop_kern 0 rounds t idtype wid nowait k = None"
| "wait_loop_kern (Suc n) rounds t idtype wid nowait k =
     (case wait_round t idtype wid nowait k of
        (Answer r e, k1) \<Rightarrow> Some (r, e, k1)
      | (Sleep kids ev, k1) \<Rightarrow>
          (if ev then wait_loop_kern n rounds t idtype wid nowait (wait_leave t kids k1)
           else (case sleep_rounds None (rounds n k1) t of
                   None \<Rightarrow> None
                 | Some (rc, k2) \<Rightarrow> wait_loop_kern n rounds t idtype wid nowait (wait_leave t kids k2))))"

definition do_wait_common :: "posix_env \<Rightarrow> nat \<Rightarrow> int \<Rightarrow> int \<Rightarrow> u32 \<Rightarrow> kern \<Rightarrow> (int \<times> wait_event \<times> kern) option" where
  "do_wait_common E t idtype wid options k =
     (let nowait = (options AND 0x1000000 \<noteq> 0) in
      case wait_try t idtype wid (options AND 1 \<noteq> 0) nowait k of
        (Some (r, e), k1) \<Rightarrow> Some (r, e, k1)
      | (None, k1) \<Rightarrow> wait_loop_kern (pe_fuel E) (pe_rounds E) t idtype wid nowait k1)"

definition do_wait4 :: "posix_env \<Rightarrow> kern vm \<Rightarrow> (int \<times> kern vm) option" where
  "do_wait4 E s =
     (let target_pid = arg_s32 (v_reg s 1); status_addr = v_reg s 2; options = ucast (v_reg s 3) :: u32; T = k_task (v_sys s) (me s) in
      if options AND NOT 3 \<noteq> 0 then Some (- EINVAL, s)
      else if target_pid = sint (t_pid T) then Some (- EINVAL, s)
      else do {
        (status_ptr, s1) \<leftarrow> (if status_addr = 0 then Some (None, s) else mmu_w s status_addr 4);
        if status_addr \<noteq> 0 \<and> status_ptr = None then Some (- EFAULT, s1)
        else do {
          let (idtype, wid) = wait4_id target_pid (t_pgid T);
          (rc, ev, k) \<leftarrow> do_wait_common E (me s) idtype wid options (enter_kern s1);
          let s2 = leave_kern k s1;
          (case we_child ev of
             None \<Rightarrow> Some (rc, s2)
           | Some c \<Rightarrow>
               if rc \<noteq> 0 then Some (rc, s2)
               else do {
                 s3 \<leftarrow> (case status_ptr of None \<Rightarrow> Some s2 | Some p \<Rightarrow> poke s2 p (u32_bytes (wait4_status ev)));
                 Some (sint (t_pid (k_task k c)), s3)
               })
        }
      })"

definition do_waitid :: "posix_env \<Rightarrow> kern vm \<Rightarrow> (int \<times> kern vm) option" where
  "do_waitid E s =
     (let idtype = arg_s32 (v_reg s 1); wid = sint (v_reg s 2); info_addr = v_reg s 3; options = ucast (v_reg s 4) :: u32; T = k_task (v_sys s) (me s) in
      if idtype < 0 \<or> idtype > 2 then Some (- EINVAL, s)
      else if options AND NOT 0x1000007 \<noteq> 0 \<or> options AND 6 = 0 then Some (- EINVAL, s)
      else if idtype \<noteq> 0 \<and> wid < 0 then Some (- EINVAL, s)
      else do {
        (rc, ev, k) \<leftarrow> do_wait_common E (me s) idtype (if idtype = 2 \<and> wid = 0 then sint (t_pgid T) else wid) (options AND 0x1000003) (enter_kern s);
        let s1 = leave_kern k s;
        (case we_child ev of
           None \<Rightarrow> Some (rc, s1)
         | Some c \<Rightarrow>
             if rc \<noteq> 0 \<or> info_addr = 0 then Some (rc, s1)
             else do {
               (p, s2) \<leftarrow> mmu_w s1 info_addr 28;
               (case p of
                  None \<Rightarrow> Some (- EFAULT, s2)
                | Some p \<Rightarrow> do {
                    s3 \<leftarrow> poke s2 p (concat (map u32_bytes [17, 0, word_of_int (fst (waitid_report ev))]));
                    s4 \<leftarrow> poke s3 (hadd p 16) (concat (map u32_bytes [ucast (t_pid (k_task k c)), 0, word_of_int (snd (waitid_report ev))]));
                    Some (0, s4)
                  })
             })
      })"

end
