(* ===== verification/Posix_File_Calls.thy ===== *)
theory Posix_File_Calls
  imports Posix_Calls
begin

text \<open>
  The system calls on files and paths (src/posix/file_io.cpp, src/posix/filesystem.cpp, and do_uname
  and do_sysinfo of src/posix/procfs.cpp): strings and vectors in guest memory, and the operations
  of the kernel on paths and descriptors.
\<close>

abbreviation (input) ERANGE :: int where "ERANGE \<equiv> 34"

subsection \<open>Strings, buffers and vectors in guest memory\<close>

fun c_string_loop :: "nat \<Rightarrow> u64 \<Rightarrow> 'h vm \<Rightarrow> (string option \<times> 'h vm) option" where
  "c_string_loop 0 a s = Some (None, s)"
| "c_string_loop (Suc n) a s =
     (case mmu s a 1 of
        (None, s1) \<Rightarrow> Some (None, s1)
      | (Some p, s1) \<Rightarrow> do {
          c \<leftarrow> peek s1 p 1;
          if c = 0 then Some (Some [], s1)
          else map_option (\<lambda>(r, s2). (map_option ((#) (char_of c)) r, s2)) (c_string_loop n (a + 1) s1)
        })"

definition read_c_string :: "'h vm \<Rightarrow> u64 \<Rightarrow> nat \<Rightarrow> (string option \<times> 'h vm) option" where
  "read_c_string s a max_len = (if a = 0 then Some (None, s) else c_string_loop max_len a s)"

definition peek_bytes :: "'h vm \<Rightarrow> hptr \<Rightarrow> nat \<Rightarrow> u8 list option" where
  "peek_bytes s p n = host_load (v_host s) p n"

text \<open>The bytes of a call into a buffer of n bytes, each piece at its offset.\<close>

fun poke_pieces :: "hptr \<Rightarrow> nat \<Rightarrow> (nat \<times> u8 list) list \<Rightarrow> 'h vm \<Rightarrow> 'h vm option" where
  "poke_pieces p n [] s = Some s"
| "poke_pieces p n ((off, bs) # out) s =
     (if off < n then poke s (hadd p off) (take (n - off) bs) \<bind> poke_pieces p n out else poke_pieces p n out s)"

text \<open>A vector of buffers with their sizes; empty ones are left out.\<close>

fun translate_segs :: "bool \<Rightarrow> (u64 \<times> u64) list \<Rightarrow> 'h vm \<Rightarrow> ((hptr \<times> u64) list option \<times> 'h vm) option" where
  "translate_segs writable [] s = Some (Some [], s)"
| "translate_segs writable ((base, len) # iov) s =
     (if len = 0 then translate_segs writable iov s
      else do {
        (buf, s1) \<leftarrow> (if writable then mmu_w s base len else Some (mmu s base len));
        (case buf of
           None \<Rightarrow> Some (None, s1)
         | Some p \<Rightarrow> map_option (\<lambda>(r, s2). (map_option ((#) (p, len)) r, s2)) (translate_segs writable iov s1))
      })"

fun pairs_of :: "u64 list \<Rightarrow> (u64 \<times> u64) list" where
  "pairs_of (a # b # ws) = (a, b) # pairs_of ws"
| "pairs_of _ = []"

text \<open>The vector itself is read before its buffers are translated, which leaves its bytes as they are.\<close>

definition translate_iovec :: "'h vm \<Rightarrow> u64 \<Rightarrow> nat \<Rightarrow> bool \<Rightarrow> ((hptr \<times> u64) list option \<times> 'h vm) option" where
  "translate_iovec s a n writable = do {
     (ws, s1) \<leftarrow> guest_words s a (2 * n);
     (case ws of None \<Rightarrow> Some (None, s1) | Some ws \<Rightarrow> translate_segs writable (pairs_of ws) s1)
   }"

fun scatter :: "(hptr \<times> u64) list \<Rightarrow> u8 list \<Rightarrow> 'h vm \<Rightarrow> 'h vm option" where
  "scatter [] bs s = Some s"
| "scatter ((p, len) # iov) bs s = poke s p (take (unat len) bs) \<bind> scatter iov (drop (unat len) bs)"

fun gather :: "(hptr \<times> u64) list \<Rightarrow> 'h vm \<Rightarrow> u8 list list option" where
  "gather [] s = Some []"
| "gather ((p, len) # iov) s = do { bs \<leftarrow> peek_bytes s p (unat len); bss \<leftarrow> gather iov s; Some (bs # bss) }"

text \<open>An optional argument that points to words.\<close>

definition opt_words :: "'h vm \<Rightarrow> u64 \<Rightarrow> nat \<Rightarrow> (u64 list option \<times> 'h vm) option" where
  "opt_words s a n = (if a = 0 then Some (None, s) else guest_words s a n)"

subsection \<open>Descriptors\<close>

abbreviation my_ps :: "kern vm \<Rightarrow> SharedState" where
  "my_ps s \<equiv> ps_of (v_sys s) (me s)"

definition restart :: "int \<Rightarrow> int" where
  "restart rc = (if rc = - EINTR then SYSCALL_RESTART else rc)"

text \<open>An operation without a buffer.\<close>

definition fd_plain :: "posix_env \<Rightarrow> fd_op \<Rightarrow> kern vm \<Rightarrow> (int \<times> kern vm) option" where
  "fd_plain E op s =
     (case find_fd (my_ps s) (arg_s32 (v_reg s 1)) of
        None \<Rightarrow> Some (- EBADF, s)
      | Some i \<Rightarrow> (case fd_call (pe_files E) i op (enter_kern s) of (rc, out, k) \<Rightarrow> Some (rc, leave_kern k s)))"

text \<open>An operation that fills a buffer, and one that reads a buffer.\<close>

definition fd_fill :: "posix_env \<Rightarrow> nat \<Rightarrow> u64 \<Rightarrow> u64 \<Rightarrow> fd_op \<Rightarrow> kern vm \<Rightarrow> (int \<times> kern vm) option" where
  "fd_fill E i a n op s = do {
     (buf, s1) \<leftarrow> mmu_w s a n;
     (case buf of
        None \<Rightarrow> Some (- EFAULT, s1)
      | Some p \<Rightarrow>
          (case fd_call (pe_files E) i op (enter_kern s1) of (rc, out, k) \<Rightarrow>
             map_option (Pair rc) (poke_pieces p (unat n) (if rc < 0 then [] else out) (leave_kern k s1))))
   }"

definition fd_drain :: "posix_env \<Rightarrow> nat \<Rightarrow> u64 \<Rightarrow> u64 \<Rightarrow> (u8 list \<Rightarrow> fd_op) \<Rightarrow> kern vm \<Rightarrow> (int \<times> kern vm) option" where
  "fd_drain E i a n op s =
     (case mmu s a n of
        (None, s1) \<Rightarrow> Some (- EFAULT, s1)
      | (Some p, s1) \<Rightarrow> do {
          bs \<leftarrow> peek_bytes s1 p (unat n);
          (case fd_call (pe_files E) i (op bs) (enter_kern s1) of (rc, out, k) \<Rightarrow> Some (restart rc, leave_kern k s1))
        })"

text \<open>The descriptor of the first argument, with the check of a background process.\<close>

definition with_tty :: "posix_env \<Rightarrow> bool \<Rightarrow> (nat \<Rightarrow> kern vm \<Rightarrow> (int \<times> kern vm) option) \<Rightarrow> kern vm \<Rightarrow> (int \<times> kern vm) option" where
  "with_tty E is_read f s =
     (case find_fd (my_ps s) (arg_s32 (v_reg s 1)) of
        None \<Rightarrow> Some (- EBADF, s)
      | Some i \<Rightarrow>
          (case tty_bg_check (pe_files E) (me s) i is_read (enter_kern s) of
             (Some r, k) \<Rightarrow> Some (r, leave_kern k s)
           | (None, k) \<Rightarrow> f i (leave_kern k s)))"

definition with_fd :: "(nat \<Rightarrow> kern vm \<Rightarrow> (int \<times> kern vm) option) \<Rightarrow> kern vm \<Rightarrow> (int \<times> kern vm) option" where
  "with_fd f s = (case find_fd (my_ps s) (arg_s32 (v_reg s 1)) of None \<Rightarrow> Some (- EBADF, s) | Some i \<Rightarrow> f i s)"

definition restarting :: "(int \<times> kern vm) option \<Rightarrow> (int \<times> kern vm) option" where
  "restarting r = map_option (\<lambda>(rc, s). (restart rc, s)) r"

definition do_read :: "posix_env \<Rightarrow> kern vm \<Rightarrow> (int \<times> kern vm) option" where
  "do_read E s =
     with_tty E True (\<lambda>i s. restarting (fd_fill E i (v_reg s 2) (v_reg s 3) (Read (unat (v_reg s 3))) s)) s"

definition do_write :: "posix_env \<Rightarrow> kern vm \<Rightarrow> (int \<times> kern vm) option" where
  "do_write E s = with_tty E False (\<lambda>i s. fd_drain E i (v_reg s 2) (v_reg s 3) Write s) s"

definition do_pread :: "posix_env \<Rightarrow> kern vm \<Rightarrow> (int \<times> kern vm) option" where
  "do_pread E s =
     with_fd (\<lambda>i s. restarting (fd_fill E i (v_reg s 2) (v_reg s 3) (Pread (unat (v_reg s 3)) (sint (v_reg s 4))) s)) s"

definition do_pwrite :: "posix_env \<Rightarrow> kern vm \<Rightarrow> (int \<times> kern vm) option" where
  "do_pwrite E s = with_fd (\<lambda>i s. fd_drain E i (v_reg s 2) (v_reg s 3) (\<lambda>bs. Pwrite bs (sint (v_reg s 4))) s) s"

definition do_getdents64 :: "posix_env \<Rightarrow> kern vm \<Rightarrow> (int \<times> kern vm) option" where
  "do_getdents64 E s =
     with_fd (\<lambda>i s. if v_reg s 3 = 0 then Some (- EINVAL, s) else fd_fill E i (v_reg s 2) (v_reg s 3) (Getdents (unat (v_reg s 3))) s) s"

definition do_lseek :: "posix_env \<Rightarrow> kern vm \<Rightarrow> (int \<times> kern vm) option" where
  "do_lseek E s = fd_plain E (Lseek (sint (v_reg s 2)) (arg_s32 (v_reg s 3))) s"

definition do_ftruncate :: "posix_env \<Rightarrow> kern vm \<Rightarrow> (int \<times> kern vm) option" where
  "do_ftruncate E s = fd_plain E (Ftruncate (sint (v_reg s 2))) s"

text \<open>Calls of the host on a descriptor that must be one of the host.\<close>

definition fd_sync :: "posix_env \<Rightarrow> fd_op \<Rightarrow> kern vm \<Rightarrow> (int \<times> kern vm) option" where
  "fd_sync E op s =
     with_fd (\<lambda>i s. if \<not> fd_host (k_fd (v_sys s) i) then Some (- EINVAL, s) else Some (fst (fe_fd (pe_files E) (v_sys s) i op), s)) s"

definition do_fsync :: "posix_env \<Rightarrow> kern vm \<Rightarrow> (int \<times> kern vm) option" where
  "do_fsync E s = fd_sync E Fsync s"

definition do_fdatasync :: "posix_env \<Rightarrow> kern vm \<Rightarrow> (int \<times> kern vm) option" where
  "do_fdatasync E s = fd_sync E Fdatasync s"

definition do_readv :: "posix_env \<Rightarrow> kern vm \<Rightarrow> (int \<times> kern vm) option" where
  "do_readv E s =
     with_tty E True (\<lambda>i s. let iovcnt = arg_s32 (v_reg s 3) in
       if iovcnt \<le> 0 then Some (if iovcnt = 0 then 0 else - EINVAL, s)
       else do {
         (host_vec, s1) \<leftarrow> translate_iovec s (v_reg s 2) (nat iovcnt) True;
         (case host_vec of
            None \<Rightarrow> Some (- EFAULT, s1)
          | Some iov \<Rightarrow>
              if iov = [] then Some (0, s1)
              else (case fd_call (pe_files E) i (Readv (map (unat \<circ> snd) iov)) (enter_kern s1) of (rc, out, k) \<Rightarrow>
                      map_option (Pair (restart rc)) (scatter iov (if rc < 0 then [] else concat (map snd out)) (leave_kern k s1))))
       }) s"

definition do_writev :: "posix_env \<Rightarrow> kern vm \<Rightarrow> (int \<times> kern vm) option" where
  "do_writev E s =
     with_tty E False (\<lambda>i s. let iovcnt = arg_s32 (v_reg s 3) in
       if iovcnt \<le> 0 then Some (if iovcnt = 0 then 0 else - EINVAL, s)
       else do {
         (host_vec, s1) \<leftarrow> translate_iovec s (v_reg s 2) (nat iovcnt) False;
         (case host_vec of
            None \<Rightarrow> Some (- EFAULT, s1)
          | Some iov \<Rightarrow>
              if iov = [] then Some (0, s1)
              else do {
                bss \<leftarrow> gather iov s1;
                (case fd_call (pe_files E) i (Writev bss) (enter_kern s1) of (rc, out, k) \<Rightarrow> Some (restart rc, leave_kern k s1))
              })
       }) s"

text \<open>The host's sendfile takes two descriptors, a position and a count, and gives a result and the new position.\<close>

definition do_sendfile :: "posix_env \<Rightarrow> kern vm \<Rightarrow> (int \<times> kern vm) option" where
  "do_sendfile E s =
     (let k = v_sys s; off_addr = v_reg s 3 in
      case (find_fd (my_ps s) (arg_s32 (v_reg s 1)), find_fd (my_ps s) (arg_s32 (v_reg s 2))) of
        (Some i, Some j) \<Rightarrow>
          if \<not> fd_host (k_fd k i) \<or> \<not> fd_host (k_fd k j) then Some (- EINVAL, s)
          else do {
            (off, s1) \<leftarrow> opt_words s off_addr 1;
            if off_addr \<noteq> 0 \<and> off = None then Some (- EFAULT, s1)
            else (case pe_sendfile E k i j (map_option (\<lambda>ws. sint (ws ! 0)) off) (unat (v_reg s 4)) of (rc, off') \<Rightarrow>
                    if rc < 0 then Some (restart rc, s1)
                    else map_option (Pair rc) (if off_addr = 0 then Some s1 else map_option snd (put_words s1 off_addr [word_of_int off'])))
          }
      | _ \<Rightarrow> Some (- EBADF, s))"

subsection \<open>Paths\<close>

definition bad_dirfd :: "kern vm \<Rightarrow> int \<Rightarrow> bool" where
  "bad_dirfd s dirfd \<longleftrightarrow> dirfd \<noteq> AT_FDCWD \<and> find_fd (my_ps s) dirfd = None"

abbreviation abs_path :: "kern vm \<Rightarrow> string \<Rightarrow> int \<Rightarrow> string" where
  "abs_path s path dirfd \<equiv> guest_abs_path (v_sys s) (my_ps s) path dirfd"

text \<open>A path argument, for a function of the string and the machine.\<close>

definition with_path :: "u64 \<Rightarrow> (string \<Rightarrow> kern vm \<Rightarrow> (int \<times> kern vm) option) \<Rightarrow> kern vm \<Rightarrow> (int \<times> kern vm) option" where
  "with_path a f s = do {
     (path, s1) \<leftarrow> read_c_string s a 4096;
     (case path of None \<Rightarrow> Some (- EFAULT, s1) | Some path \<Rightarrow> f path s1)
   }"

definition path_do :: "posix_env \<Rightarrow> int \<Rightarrow> path_op \<Rightarrow> string \<Rightarrow> kern vm \<Rightarrow> (int \<times> kern vm) option" where
  "path_do E dirfd op path s =
     map_option (\<lambda>(rc, out). (rc, s)) (path_call (pe_files E) (enter_kern s) (me s) (abs_path s path dirfd) op)"

definition at_call :: "posix_env \<Rightarrow> path_op \<Rightarrow> kern vm \<Rightarrow> (int \<times> kern vm) option" where
  "at_call E op s =
     (let dirfd = arg_s32 (v_reg s 1) in
      if bad_dirfd s dirfd then Some (- EBADF, s) else with_path (v_reg s 2) (path_do E dirfd op) s)"

definition do_unlinkat :: "posix_env \<Rightarrow> kern vm \<Rightarrow> (int \<times> kern vm) option" where
  "do_unlinkat E s = at_call E (Unlink (ucast (v_reg s 3))) s"

definition do_mkdirat :: "posix_env \<Rightarrow> kern vm \<Rightarrow> (int \<times> kern vm) option" where
  "do_mkdirat E s = at_call E (Mkdir (ucast (v_reg s 3) AND NOT (ps_umask (my_ps s)))) s"

definition do_fchmodat :: "posix_env \<Rightarrow> kern vm \<Rightarrow> (int \<times> kern vm) option" where
  "do_fchmodat E s = at_call E (Chmod (ucast (v_reg s 3)) (ucast (v_reg s 4))) s"

definition do_faccessat :: "posix_env \<Rightarrow> kern vm \<Rightarrow> (int \<times> kern vm) option" where
  "do_faccessat E s =
     with_path (v_reg s 2) (\<lambda>path s1.
       let dirfd = arg_s32 (v_reg s 1) in
       if bad_dirfd s1 dirfd then Some (- EBADF, s1)
       else path_do E dirfd (Access (arg_s32 (v_reg s 3)) (ucast (v_reg s 4))) path s1) s"

definition do_truncate :: "posix_env \<Rightarrow> kern vm \<Rightarrow> (int \<times> kern vm) option" where
  "do_truncate E s = with_path (v_reg s 1) (path_do E AT_FDCWD (Truncate (sint (v_reg s 2)))) s"

definition do_symlinkat :: "posix_env \<Rightarrow> kern vm \<Rightarrow> (int \<times> kern vm) option" where
  "do_symlinkat E s =
     (let dirfd = arg_s32 (v_reg s 2) in
      if bad_dirfd s dirfd then Some (- EBADF, s)
      else with_path (v_reg s 1) (\<lambda>target. with_path (v_reg s 3) (path_do E dirfd (MakeSymlink target))) s)"

definition two_paths :: "posix_env \<Rightarrow> (string \<Rightarrow> path_op) \<Rightarrow> kern vm \<Rightarrow> (int \<times> kern vm) option" where
  "two_paths E op s =
     (let olddirfd = arg_s32 (v_reg s 1); newdirfd = arg_s32 (v_reg s 3) in
      if bad_dirfd s olddirfd \<or> bad_dirfd s newdirfd then Some (- EBADF, s)
      else with_path (v_reg s 2) (\<lambda>oldpath. with_path (v_reg s 4) (\<lambda>newpath s1.
             Some (link_call (pe_files E) (v_sys s1) (me s1) (abs_path s1 oldpath olddirfd) (abs_path s1 newpath newdirfd) op, s1))) s)"

definition do_linkat :: "posix_env \<Rightarrow> kern vm \<Rightarrow> (int \<times> kern vm) option" where
  "do_linkat E s = two_paths E (\<lambda>other. Link other (ucast (v_reg s 5))) s"

definition do_renameat2 :: "posix_env \<Rightarrow> kern vm \<Rightarrow> (int \<times> kern vm) option" where
  "do_renameat2 E s = two_paths E (\<lambda>other. Rename other (ucast (v_reg s 5))) s"

definition do_openat :: "posix_env \<Rightarrow> kern vm \<Rightarrow> (int \<times> kern vm) option" where
  "do_openat E s =
     (let dirfd = arg_s32 (v_reg s 1); flags = ucast (v_reg s 3); mode = ucast (v_reg s 4) AND NOT (ps_umask (my_ps s)) in
      if bad_dirfd s dirfd then Some (- EBADF, s)
      else with_path (v_reg s 2) (\<lambda>path s1. do {
             r \<leftarrow> path_open (pe_files E) (enter_kern s1) (me s1) (abs_path s1 path dirfd) flags mode;
             (case r of
                Inl e \<Rightarrow> Some (- e, s1)
              | Inr (F, k) \<Rightarrow>
                  (let j = pe_fresh E k; F' = (if flags AND BPF_O_CLOEXEC \<noteq> 0 then F\<lparr>fd_cloexec := True\<rparr> else F);
                       (fd, k') = emplace_fd (me s1) j 0 (new_fd j F' k)
                   in Some (fd, leave_kern k' s1)))
           }) s)"

text \<open>Operations on a path that fill a buffer of n bytes.\<close>

definition path_fill :: "posix_env \<Rightarrow> u64 \<Rightarrow> u64 \<Rightarrow> (kern vm \<Rightarrow> (int \<times> (nat \<times> u8 list) list) option) \<Rightarrow> kern vm \<Rightarrow> (int \<times> kern vm) option" where
  "path_fill E a n f s = do {
     (buf, s1) \<leftarrow> mmu_w s a n;
     (case buf of
        None \<Rightarrow> Some (- EFAULT, s1)
      | Some p \<Rightarrow> do {
          (rc, out) \<leftarrow> f s1;
          map_option (Pair rc) (poke_pieces p (unat n) (if rc < 0 then [] else out) s1)
        })
   }"

definition do_readlinkat :: "posix_env \<Rightarrow> kern vm \<Rightarrow> (int \<times> kern vm) option" where
  "do_readlinkat E s =
     (let dirfd = arg_s32 (v_reg s 1); bufsiz = v_reg s 4 in
      if bad_dirfd s dirfd then Some (- EBADF, s)
      else with_path (v_reg s 2) (\<lambda>path.
             path_fill E (v_reg s 3) bufsiz (\<lambda>s1. map_option (\<lambda>(rc, bs). (rc, [(0, bs)]))
               (path_call (pe_files E) (enter_kern s1) (me s1) (abs_path s1 path dirfd) (Readlink (unat bufsiz))))) s)"

abbreviation (input) AT_EMPTY_PATH :: u32 where "AT_EMPTY_PATH \<equiv> 0x1000"

text \<open>A path that ends in a separator is followed; an operation on the descriptor itself needs one.\<close>

definition do_statx :: "posix_env \<Rightarrow> kern vm \<Rightarrow> (int \<times> kern vm) option" where
  "do_statx E s =
     (let dirfd = arg_s32 (v_reg s 1); m = ucast (v_reg s 4) in
      if bad_dirfd s dirfd then Some (- EBADF, s)
      else with_path (v_reg s 2) (\<lambda>path.
             let flags0 = ucast (v_reg s 3);
                 flags = (if path \<noteq> [] \<and> last path = slash then flags0 AND NOT AT_SYMLINK_NOFOLLOW else flags0) in
             path_fill E (v_reg s 5) 256 (\<lambda>s1. map_option (\<lambda>(rc, bs). (rc, [(0, bs)]))
               (if dirfd \<noteq> AT_FDCWD \<and> flags AND AT_EMPTY_PATH \<noteq> 0 then
                  (case find_fd (my_ps s1) dirfd of None \<Rightarrow> Some (- EBADF, []) | Some i \<Rightarrow> Some (fd_stat (pe_files E) (v_sys s1) i m))
                else path_call (pe_files E) (enter_kern s1) (me s1) (abs_path s1 path dirfd) (Statx m flags)))) s)"

definition do_utimensat :: "posix_env \<Rightarrow> kern vm \<Rightarrow> (int \<times> kern vm) option" where
  "do_utimensat E s =
     (let dirfd = arg_s32 (v_reg s 1); has_path = v_reg s 2 \<noteq> 0; times_addr = v_reg s 3; flags = ucast (v_reg s 4);
          run = (\<lambda>path s1. do {
            (ts, s2) \<leftarrow> opt_words s1 times_addr 4;
            if times_addr \<noteq> 0 \<and> ts = None then Some (- EFAULT, s2)
            else if \<not> has_path then
              (if dirfd = AT_FDCWD then Some (- EFAULT, s2)
               else (case find_fd (my_ps s2) dirfd of
                       None \<Rightarrow> Some (- EBADF, s2)
                     | Some i \<Rightarrow> (case fd_call (pe_files E) i (Futimens ts) (enter_kern s2) of (rc, out, k) \<Rightarrow> Some (rc, leave_kern k s2))))
            else path_do E dirfd (Utimens ts flags) path s2
          })
      in if bad_dirfd s dirfd then Some (- EBADF, s)
         else if has_path then with_path (v_reg s 2) run s else run [] s)"

definition do_fchdir :: "posix_env \<Rightarrow> kern vm \<Rightarrow> (int \<times> kern vm) option" where
  "do_fchdir E s =
     with_fd (\<lambda>i s. case fd_stat (pe_files E) (v_sys s) i 1 of (rc, attrs) \<Rightarrow>
       if rc < 0 then Some (rc, s)
       else if le_val (take 2 (drop 28 attrs)) div 4096 \<noteq> 4 then Some (- ENOTDIR, s)
       else if fd_path (k_fd (v_sys s) i) = [] then Some (- ENOENT, s)
       else Some (0, s\<lparr>v_sys := upd_ps (t_ps (k_task (v_sys s) (me s))) (\<lambda>S. S\<lparr>ps_cwd := fd_path (k_fd (v_sys s) i)\<rparr>) (v_sys s)\<rparr>)) s"

definition do_getcwd :: "kern vm \<Rightarrow> (int \<times> kern vm) option" where
  "do_getcwd s =
     (let n = v_reg s 2; path = (if ps_cwd (my_ps s) = [] then [slash] else ps_cwd (my_ps s)) in
      if n = 0 then Some (- ERANGE, s)
      else do {
        (buf, s1) \<leftarrow> mmu_w s (v_reg s 1) n;
        (case buf of
           None \<Rightarrow> Some (- EFAULT, s1)
         | Some p \<Rightarrow>
             if unat n \<le> length path then Some (- ERANGE, s1)
             else map_option (Pair (int (length path) + 1)) (poke s1 p (c_bytes path @ [0])))
      })"

subsection \<open>The machine\<close>

definition padded :: "nat \<Rightarrow> string \<Rightarrow> u8 list" where
  "padded n x = take (n - 1) (c_bytes x) @ replicate (n - min (length x) (n - 1)) 0"

definition do_uname :: "kern vm \<Rightarrow> (int \<times> kern vm) option" where
  "do_uname s = do {
     (ok, s1) \<leftarrow> guest_write s (v_reg s 1)
       (concat (map (padded 65) [''Linux'', ''bpfvm'', ''6.12.0'', ''#1 SMP bpfvm'', ''bpf'', ''(none)'']));
     Some (if ok then 0 else - EFAULT, s1)
   }"

text \<open>struct sysinfo, of 112 bytes: up-time, memory sizes, number of processes and the unit of sizes.\<close>

definition sysinfo_bytes :: "int \<Rightarrow> nat \<Rightarrow> u8 list" where
  "sysinfo_bytes up n =
     le_bytes 8 up @ replicate 24 0 @ le_bytes 8 (2 ^ 31) @ le_bytes 8 (2 ^ 30) @ replicate 32 0 @ le_bytes 2 (int n) @ replicate 22 0
     @ le_bytes 4 1 @ replicate 4 0"

definition do_sysinfo :: "posix_env \<Rightarrow> kern vm \<Rightarrow> (int \<times> kern vm) option" where
  "do_sysinfo E s = do {
     (ok, s1) \<leftarrow> guest_write s (v_reg s 1)
       (sysinfo_bytes (case pe_clock E (v_sys s) 1 of Inl e \<Rightarrow> 0 | Inr ts \<Rightarrow> fst ts) (length (k_pid_map (v_sys s))));
     Some (if ok then 0 else - EFAULT, s1)
   }"

end
