(* ===== verification/Posix_Syscall.thy ===== *)
theory Posix_Syscall
  imports Posix_File_Calls
begin

text \<open>
  The rest of class PosixSyscall and its dispatch (src/posix/posix_syscall.cpp): identities, sessions,
  descriptors, times and limits, the delivery of signals with their frames, and the table of calls.
  The whole is a handler of the machine.
\<close>

subsection \<open>Identities and sessions\<close>

definition ret :: "int \<Rightarrow> kern vm \<Rightarrow> (int \<times> kern vm) option" where
  "ret r s = Some (r, s)"

definition do_getpid :: "kern vm \<Rightarrow> (int \<times> kern vm) option" where
  "do_getpid s = ret (sint (tg_tgid (tg_of (v_sys s) (me s)))) s"

definition do_getppid :: "kern vm \<Rightarrow> (int \<times> kern vm) option" where
  "do_getppid s = ret (sint (tg_ppid (tg_of (v_sys s) (me s)))) s"

definition do_getuid :: "kern vm \<Rightarrow> (int \<times> kern vm) option" where
  "do_getuid s = ret 0 s"

definition do_getgroups :: "kern vm \<Rightarrow> (int \<times> kern vm) option" where
  "do_getgroups s = ret (if arg_s32 (v_reg s 1) < 0 then - EINVAL else 0) s"

definition do_gettid :: "kern vm \<Rightarrow> (int \<times> kern vm) option" where
  "do_gettid s = ret (sint (t_pid (k_task (v_sys s) (me s)))) s"

definition do_set_tid_address :: "kern vm \<Rightarrow> (int \<times> kern vm) option" where
  "do_set_tid_address s =
     ret (sint (t_pid (k_task (v_sys s) (me s)))) (s\<lparr>v_sys := upd_task (me s) (\<lambda>T. T\<lparr>t_tid_address := v_reg s 1\<rparr>) (v_sys s)\<rparr>)"

definition do_sched_yield :: "kern vm \<Rightarrow> (int \<times> kern vm) option" where
  "do_sched_yield s = ret 0 s"

definition do_set_tls :: "kern vm \<Rightarrow> (int \<times> kern vm) option" where
  "do_set_tls s = ret 0 (s\<lparr>v_tp := v_reg s 1\<rparr>)"

definition do_get_tls :: "kern vm \<Rightarrow> (int \<times> kern vm) option" where
  "do_get_tls s = ret (sint (v_tp s)) s"

abbreviation (input) PR_SET_NAME :: int where "PR_SET_NAME \<equiv> 15"
abbreviation (input) PR_GET_NAME :: int where "PR_GET_NAME \<equiv> 16"

definition do_prctl :: "kern vm \<Rightarrow> (int \<times> kern vm) option" where
  "do_prctl s =
     (let option = arg_s32 (v_reg s 1) in
      if option = PR_SET_NAME then do {
        (v, s1) \<leftarrow> guest_read s (v_reg s 2) 16;
        (case v of
           None \<Rightarrow> Some (- EFAULT, s1)
         | Some x \<Rightarrow> Some (0, s1\<lparr>v_sys := upd_task (me s) (\<lambda>T. T\<lparr>t_comm := c_string (take 15 (le_bytes 16 x))\<rparr>) (v_sys s1)\<rparr>))
      }
      else if option = PR_GET_NAME then do {
        let name = take 15 (c_bytes (t_comm (k_task (v_sys s) (me s))));
        (ok, s1) \<leftarrow> guest_write s (v_reg s 2) (name @ replicate (16 - length name) 0);
        Some (if ok then 0 else - EFAULT, s1)
      }
      else Some (- EINVAL, s))"

definition do_setpgid :: "kern vm \<Rightarrow> (int \<times> kern vm) option" where
  "do_setpgid s = Some (in_kern (setpgid_call (me s) (arg_s32 (v_reg s 1)) (arg_s32 (v_reg s 2))) s)"

definition do_getpgid :: "kern vm \<Rightarrow> (int \<times> kern vm) option" where
  "do_getpgid s = ret (getpgid_call (me s) (arg_s32 (v_reg s 1)) (v_sys s)) s"

definition do_getpgrp :: "kern vm \<Rightarrow> (int \<times> kern vm) option" where
  "do_getpgrp s = ret (sint (t_pgid (k_task (v_sys s) (me s)))) s"

definition do_setsid :: "posix_env \<Rightarrow> kern vm \<Rightarrow> (int \<times> kern vm) option" where
  "do_setsid E s = Some (in_kern (\<lambda>k. setsid_call (pe_fresh E k) (me s) k) s)"

definition do_getsid :: "kern vm \<Rightarrow> (int \<times> kern vm) option" where
  "do_getsid s = ret (getsid_call (me s) (arg_s32 (v_reg s 1)) (v_sys s)) s"

subsection \<open>Descriptors\<close>

definition do_umask :: "kern vm \<Rightarrow> (int \<times> kern vm) option" where
  "do_umask s = Some (in_kern (umask_call (me s) (ucast (v_reg s 1))) s)"

definition do_dup :: "posix_env \<Rightarrow> kern vm \<Rightarrow> (int \<times> kern vm) option" where
  "do_dup E s = Some (in_kern (\<lambda>k. dup_call (pe_err E k) (pe_fresh E k) (me s) (arg_s32 (v_reg s 1)) k) s)"

definition do_dup3 :: "posix_env \<Rightarrow> kern vm \<Rightarrow> (int \<times> kern vm) option" where
  "do_dup3 E s =
     Some (in_kern (\<lambda>k. dup3_call (pe_err E k) (pe_fresh E k) (me s) (arg_s32 (v_reg s 1)) (arg_s32 (v_reg s 2)) (ucast (v_reg s 3)) k) s)"

definition do_close :: "kern vm \<Rightarrow> (int \<times> kern vm) option" where
  "do_close s = Some (in_kern (close_call (me s) (arg_s32 (v_reg s 1))) s)"

definition do_pipe2 :: "posix_env \<Rightarrow> kern vm \<Rightarrow> (int \<times> kern vm) option" where
  "do_pipe2 E s = do {
     (pipefd, s1) \<leftarrow> mmu_w s (v_reg s 1) 8;
     (case pipefd of
        None \<Rightarrow> Some (- EFAULT, s1)
      | Some p \<Rightarrow>
          (case pipe2_call (pe_err E (v_sys s)) (pe_fresh E (v_sys s)) (Suc (pe_fresh E (v_sys s))) (me s) (ucast (v_reg s 2)) (enter_kern s1) of
             (Inl r, k) \<Rightarrow> Some (r, leave_kern k s1)
           | (Inr (fd0, fd1), k) \<Rightarrow>
               map_option (Pair 0) (poke (leave_kern k s1) p (u32_bytes (word_of_int fd0) @ u32_bytes (word_of_int fd1)))))
   }"

text \<open>The commands that go to the host are among the calls that are not modelled.\<close>

definition do_fcntl :: "posix_env \<Rightarrow> kern vm \<Rightarrow> (int \<times> kern vm) option" where
  "do_fcntl E s =
     (let fd = arg_s32 (v_reg s 1); cmd = arg_s32 (v_reg s 2); to_host = (\<lambda>i. fd_host (k_fd (v_sys s) i)) in
      case find_fd (ps_of (v_sys s) (me s)) fd of
        None \<Rightarrow> Some (- EBADF, s)
      | Some i \<Rightarrow>
          if cmd \<notin> {F_DUPFD, F_DUPFD_CLOEXEC, F_GETFD, F_SETFD} \<and> to_host i then pe_other E s 25
          else Some (in_kern (\<lambda>k. fcntl_table (pe_err E k) (pe_fresh E k) (me s) fd cmd (v_reg s 3) (\<lambda>i k. (0, k)) k) s))"

abbreviation (input) TIOCSCTTY :: u64 where "TIOCSCTTY \<equiv> 0x540E"
abbreviation (input) TIOCGPGRP :: u64 where "TIOCGPGRP \<equiv> 0x540F"
abbreviation (input) TIOCSPGRP :: u64 where "TIOCSPGRP \<equiv> 0x5410"

definition do_ioctl :: "posix_env \<Rightarrow> kern vm \<Rightarrow> (int \<times> kern vm) option" where
  "do_ioctl E s =
     (let k = v_sys s; request = v_reg s 2 in
      case find_fd (ps_of k (me s)) (arg_s32 (v_reg s 1)) of
        None \<Rightarrow> Some (- EBADF, s)
      | Some i \<Rightarrow>
          (let tty = fd_tty (k_fd k i); ctty = ss_ctty (k_session k (t_session (k_task k (me s)))) in
           if request = TIOCSCTTY then Some (in_kern (ioctl_sctty (me s) tty (arg_s32 (v_reg s 3))) s)
           else if request = TIOCSPGRP then
             (if ctty = None \<or> tty \<noteq> ctty then Some (- ENOTTY, s)
              else do {
                (v, s1) \<leftarrow> guest_read s (v_reg s 3) 4;
                Some (in_kern (ioctl_spgrp (me s) tty (map_option (\<lambda>x. sint (word_of_int x :: u32)) v)) s1)
              })
           else if request = TIOCGPGRP then
             (case ioctl_gpgrp (me s) tty k of
                Inl e \<Rightarrow> Some (e, s)
              | Inr g \<Rightarrow> do {
                  (ok, s1) \<leftarrow> guest_write s (v_reg s 3) (u32_bytes g);
                  Some (if ok then 0 else - EFAULT, s1)
                })
           else if \<not> fd_host (k_fd k i) then Some (- ENOTTY, s)
           else pe_other E s 26))"

definition do_eventfd2 :: "posix_env \<Rightarrow> kern vm \<Rightarrow> (int \<times> kern vm) option" where
  "do_eventfd2 E s = Some (in_kern (\<lambda>k. eventfd2_call (pe_err E k) (pe_fresh E k) (me s) (ucast (v_reg s 2)) k) s)"

text \<open>struct pollfd is one word: the descriptor, the events asked for and the events found.\<close>

definition pollfd_of :: "u64 \<Rightarrow> pollfd" where
  "pollfd_of w = \<lparr>pf_fd = sint (ucast w :: u32), pf_events = ucast (drop_bit 32 w), pf_revents = ucast (drop_bit 48 w)\<rparr>"

definition pollfd_bytes :: "pollfd \<Rightarrow> u8 list" where
  "pollfd_bytes g = u32_bytes (word_of_int (pf_fd g)) @ le_bytes 2 (uint (pf_events g)) @ le_bytes 2 (uint (pf_revents g))"

definition poll_guest :: "posix_env \<Rightarrow> int \<Rightarrow> kern vm \<Rightarrow> (int \<times> kern vm) option" where
  "poll_guest E timeout s =
     (let n = unat (v_reg s 2); k = v_sys s in
      if n = 0 then Some (fst (poll_core k (me s) (pe_poll E k) [] timeout), s)
      else do {
        (gfds, s1) \<leftarrow> mmu_w s (v_reg s 1) (of_nat (8 * n));
        (case gfds of
           None \<Rightarrow> Some (- EFAULT, s1)
         | Some p \<Rightarrow> do {
             ws \<leftarrow> peek_words s1 p n;
             let (r, gs) = poll_core k (me s) (pe_poll E k) (map pollfd_of ws) timeout;
             s2 \<leftarrow> poke s1 p (concat (map pollfd_bytes (take n gs)));
             Some (r, s2)
           })
      })"

definition do_poll :: "posix_env \<Rightarrow> kern vm \<Rightarrow> (int \<times> kern vm) option" where
  "do_poll E s = (if v_reg s 2 > 1024 then Some (- EINVAL, s) else poll_guest E (arg_s32 (v_reg s 3)) s)"

definition do_ppoll :: "posix_env \<Rightarrow> kern vm \<Rightarrow> (int \<times> kern vm) option" where
  "do_ppoll E s =
     (if v_reg s 2 > 1024 then Some (- EINVAL, s)
      else if v_reg s 3 = 0 then poll_guest E (- 1) s
      else do {
        (ts, s1) \<leftarrow> guest_words s (v_reg s 3) 2;
        (case ts of
           None \<Rightarrow> Some (- EFAULT, s1)
         | Some ws \<Rightarrow> (case timeout_ms (sint (ws ! 0)) (sint (ws ! 1)) of None \<Rightarrow> Some (- EINVAL, s1) | Some t \<Rightarrow> poll_guest E t s1))
      })"

subsection \<open>Time, random numbers and limits\<close>

definition do_clock_gettime :: "posix_env \<Rightarrow> kern vm \<Rightarrow> (int \<times> kern vm) option" where
  "do_clock_gettime E s = do {
     (tp, s1) \<leftarrow> mmu_w s (v_reg s 2) 16;
     (case tp of
        None \<Rightarrow> Some (- EFAULT, s1)
      | Some p \<Rightarrow>
          (case pe_clock E (v_sys s) (arg_s32 (v_reg s 1)) of
             Inl err \<Rightarrow> Some (- err, s1)
           | Inr ts \<Rightarrow> map_option (Pair 0) (poke s1 p (concat (map u64_bytes [word_of_int (fst ts), word_of_int (snd ts)])))))
   }"

definition clock_nanosleep_core :: "posix_env \<Rightarrow> int \<Rightarrow> int \<Rightarrow> u64 \<Rightarrow> u64 \<Rightarrow> kern vm \<Rightarrow> (int \<times> kern vm) option" where
  "clock_nanosleep_core E clk flags req_addr rem_addr s = do {
     (req, s1) \<leftarrow> guest_words s req_addr 2;
     (case req of
        None \<Rightarrow> Some (- EFAULT, s1)
      | Some ws \<Rightarrow> do {
          (rem, s2) \<leftarrow> (if rem_addr = 0 then Some (None, s1) else mmu_w s1 rem_addr 16);
          if rem_addr \<noteq> 0 \<and> rem = None then Some (- EFAULT, s2)
          else (let (rc, left) = pe_sleep E (v_sys s) clk flags (sint (ws ! 0), sint (ws ! 1)) in
                case rem of
                  None \<Rightarrow> Some (- rc, s2)
                | Some p \<Rightarrow>
                    if rc = EINTR then map_option (Pair (- rc)) (poke s2 p (concat (map u64_bytes [word_of_int (fst left), word_of_int (snd left)])))
                    else Some (- rc, s2))
        })
   }"

definition do_nanosleep :: "posix_env \<Rightarrow> kern vm \<Rightarrow> (int \<times> kern vm) option" where
  "do_nanosleep E s = clock_nanosleep_core E 0 0 (v_reg s 1) (v_reg s 2) s"

definition do_clock_nanosleep :: "posix_env \<Rightarrow> kern vm \<Rightarrow> (int \<times> kern vm) option" where
  "do_clock_nanosleep E s = clock_nanosleep_core E (arg_s32 (v_reg s 1)) (arg_s32 (v_reg s 2)) (v_reg s 3) (v_reg s 4) s"

definition do_getrandom :: "posix_env \<Rightarrow> kern vm \<Rightarrow> (int \<times> kern vm) option" where
  "do_getrandom E s =
     (let buflen = v_reg s 2 in
      if buflen = 0 then Some (0, s)
      else do {
        (buf, s1) \<leftarrow> mmu_w s (v_reg s 1) buflen;
        (case buf of
           None \<Rightarrow> Some (- EFAULT, s1)
         | Some p \<Rightarrow>
             (case pe_random E (v_sys s) (unat buflen) of
                Inl err \<Rightarrow> Some (- err, s1)
              | Inr bs \<Rightarrow> map_option (Pair (int (length (take (unat buflen) bs)))) (poke s1 p (take (unat buflen) bs))))
      })"

definition do_alloca :: "kern vm \<Rightarrow> (int \<times> kern vm) option" where
  "do_alloca s = alloca (sint (v_reg s 1)) s"

definition do_prlimit64 :: "posix_env \<Rightarrow> kern vm \<Rightarrow> (int \<times> kern vm) option" where
  "do_prlimit64 E s =
     (let new_ptr = v_reg s 3; old_ptr = v_reg s 4 in
      if v_reg s 1 \<noteq> 0 \<and> v_reg s 1 \<noteq> tg_tgid (tg_of (v_sys s) (me s)) then Some (- EPERM, s)
      else do {
        (nw, s1) \<leftarrow> (if new_ptr = 0 then Some (None, s) else guest_words s new_ptr 2);
        if new_ptr \<noteq> 0 \<and> nw = None then Some (- EFAULT, s1)
        else do {
          (old_out, s2) \<leftarrow> (if old_ptr = 0 then Some (None, s1) else mmu_w s1 old_ptr 16);
          if old_ptr \<noteq> 0 \<and> old_out = None then Some (- EFAULT, s2)
          else (case pe_prlimit E (v_sys s) (arg_s32 (v_reg s 2)) nw of
                  Inl err \<Rightarrow> Some (- err, s2)
                | Inr lim \<Rightarrow>
                    (case old_out of
                       None \<Rightarrow> Some (0, s2)
                     | Some p \<Rightarrow> map_option (Pair 0) (poke s2 p (concat (map u64_bytes (take 2 lim))))))
        }
      })"

subsection \<open>Delivery of signals\<close>

definition info_of :: "SigEvent \<Rightarrow> signal_action \<Rightarrow> sig_info" where
  "info_of ev act = \<lparr>si_sig = ev_sig ev, si_handler = sa_handler act, si_sa_flags = word_of_int (sa_flags act), si_pid = ev_sender ev,
     si_value = ev_value ev, si_code = ev_code ev, si_status = ev_status ev\<rparr>"

definition handle_signals :: "kern vm \<Rightarrow> (bool \<times> sig_info \<times> kern vm) option" where
  "handle_signals s =
     (let (d, k) = deliver_next (me s) (enter_kern s); s1 = leave_kern k s in
      case d of
        Nothing \<Rightarrow> Some (True, no_signal, s1)
      | Terminate code \<Rightarrow> Some (False, no_signal, set_reg 0 (word_of_int code) (set_reg 1 (word_of_int code) s1))
      | Caught ev act \<Rightarrow> Some (True, info_of ev act, s1))"

text \<open>struct guest_siginfo as 16 words and struct guest_ucontext as 33 words.\<close>

definition siginfo_words :: "sig_info \<Rightarrow> u64 list" where
  "siginfo_words info =
     [ucast (word_of_int (si_sig info) :: u32), ucast (word_of_int (si_code info) :: u32), ucast (ucast (si_pid info) :: u32),
      if si_sig info = SIGCHLD then ucast (word_of_int (si_status info) :: u32) else si_value info] @ replicate 12 0"

definition ucontext_words :: "(nat \<Rightarrow> u64) \<Rightarrow> u64 \<Rightarrow> u64 \<Rightarrow> u64 \<Rightarrow> u64 list" where
  "ucontext_words r sp pc mk = replicate 5 0 @ map r [0..<10] @ [sp, pc, mk] @ replicate 15 0"

definition build_siginfo :: "kern vm \<Rightarrow> u64 \<Rightarrow> sig_info \<Rightarrow> u64 \<Rightarrow> u64 \<Rightarrow> kern vm option" where
  "build_siginfo s frame_base info resumed_pc interrupted_sp = do {
     (si, s1) \<leftarrow> mmu_w s (frame_base + SIGINFO_FRAME_SI_OFF) 128;
     (uc, s2) \<leftarrow> mmu_w s1 (frame_base + SIGINFO_FRAME_UC_OFF) 264;
     (case (si, uc) of
        (Some p, Some q) \<Rightarrow> do {
          s3 \<leftarrow> poke s2 p (concat (map u64_bytes (siginfo_words info)));
          poke s3 q (concat (map u64_bytes (ucontext_words (v_reg s) interrupted_sp resumed_pc (t_sigmask (k_task (v_sys s) (me s))))))
        }
      | _ \<Rightarrow> None)
   }"

definition sigreturn :: "kern vm \<Rightarrow> u64 \<Rightarrow> u64 \<Rightarrow> (u64 \<times> kern vm) option" where
  "sigreturn s frame_base fallback_pc = do {
     (uc, s1) \<leftarrow> guest_words s (frame_base + SIGINFO_FRAME_UC_OFF) 33;
     (case uc of
        None \<Rightarrow> Some (fallback_pc, s1)
      | Some ws \<Rightarrow>
          Some (ws ! 16, (restore_regs [0..<11] (drop 5 ws) s1)
                           \<lparr>v_sys := upd_task (me s) (\<lambda>T. T\<lparr>t_sigmask := mask_bits (ws ! 17)\<rparr>) (v_sys s1)\<rparr>))
   }"

subsection \<open>The table of calls\<close>

definition call_id :: "u32 \<Rightarrow> u32" where
  "call_id call = (if call \<ge> 0x10000 then call - 0x10000 else call)"

definition posix_syscall :: "posix_env \<Rightarrow> kern vm \<Rightarrow> u32 \<Rightarrow> (int \<times> kern vm) option" where
  "posix_syscall E s call =
     (let c = call_id call in
      if c = 1 then do_mmap (pe_mm E) s else if c = 2 then Some (do_munmap s) else if c = 41 then Some (do_mprotect (pe_mm E) s)
      else if c = 50 then Some (do_madvise s) else if c = 64 then do_alloca s
      else if c = 3 then do_exit s else if c = 49 then do_exit_group s else if c = 16 then do_wait4 E s else if c = 17 then do_waitid E s
      else if c = 14 then do_getpid s else if c = 15 then do_getppid s else if c = 52 then do_gettid s
      else if c = 48 then do_set_tid_address s else if c = 53 then do_set_tls s else if c = 54 then do_get_tls s
      else if c = 51 then do_sched_yield s else if c = 60 then do_futex E s
      else if c = 55 then do_setpgid s else if c = 56 then do_getpgid s else if c = 57 then do_getpgrp s
      else if c = 58 then do_setsid E s else if c = 59 then do_getsid s
      else if c = 24 then do_dup E s else if c = 20 then do_dup3 E s else if c = 21 then do_pipe2 E s
      else if c = 25 then do_fcntl E s else if c = 26 then do_ioctl E s else if c = 8 then do_close s else if c = 31 then do_umask s
      else if c = 18 then do_kill s else if c = 103 then do_sigqueueinfo s else if c = 61 then do_tkill s else if c = 62 then do_tgkill s
      else if c = 19 then do_sigaction s else if c = 63 then do_sigprocmask s else if c = 101 then do_sigsuspend E s
      else if c = 102 then do_prctl s else if c = 100 then do_sigaltstack s else if c = 35 then do_sigsetjmp s else if c = 36 then do_siglongjmp s
      else if c = 37 then do_nanosleep E s else if c = 38 then do_clock_gettime E s else if c = 91 then do_clock_nanosleep E s
      else if c = 65 then do_poll E s else if c = 96 then do_ppoll E s else if c = 84 then do_signalfd4 E s else if c = 98 then do_eventfd2 E s
      else if c \<in> {86, 87, 88, 89} then do_getuid s else if c = 90 then do_getgroups s
      else if c = 46 then do_getrandom E s else if c = 99 then do_prlimit64 E s
      else if c = 4 then do_openat E s else if c = 5 then do_read E s else if c = 6 then do_write E s else if c = 42 then do_readv E s
      else if c = 43 then do_writev E s else if c = 44 then do_pread E s else if c = 45 then do_pwrite E s else if c = 7 then do_lseek E s
      else if c = 39 then do_truncate E s else if c = 40 then do_ftruncate E s else if c = 92 then do_fsync E s else if c = 93 then do_fdatasync E s
      else if c = 97 then do_sendfile E s else if c = 47 then do_getdents64 E s else if c = 27 then do_statx E s else if c = 9 then do_unlinkat E s
      else if c = 32 then do_mkdirat E s else if c = 33 then do_symlinkat E s else if c = 34 then do_linkat E s else if c = 10 then do_renameat2 E s
      else if c = 11 then do_readlinkat E s else if c = 28 then do_fchmodat E s else if c = 29 then do_utimensat E s
      else if c = 30 then do_faccessat E s else if c = 22 then do_fchdir E s else if c = 23 then do_getcwd s
      else if c = 94 then do_uname s else if c = 95 then do_sysinfo E s
      else if 1 \<le> c \<and> c \<le> 103 then pe_other E s c
      else Some (- ENOSYS, s))"

definition posix_handler :: "posix_env \<Rightarrow> kern handler" where
  "posix_handler E =
     \<lparr>h_syscall = posix_syscall E, h_handle_signals = handle_signals, h_build_siginfo = build_siginfo, h_sigreturn = sigreturn,
      h_syscall_entry = (\<lambda>s c. Some s), h_syscall_return = (\<lambda>s c. Some s), h_breakpoint = (\<lambda>s. Some s)\<rparr>"

subsection \<open>The end of a machine\<close>

definition clear_child_tid :: "kern vm \<Rightarrow> kern vm option" where
  "clear_child_tid s =
     (let T = k_task (v_sys s) (me s) in
      if t_tid_address T = 0 then Some s
      else do {
        (ctid, s1) \<leftarrow> mmu_w s (t_tid_address T) 4;
        (case ctid of
           None \<Rightarrow> Some s1
         | Some p \<Rightarrow> do {
             s2 \<leftarrow> poke s1 p (u32_bytes 0);
             Some (s2\<lparr>v_sys := futex_child_tid_clear (t_tg T, t_tid_address T) (v_sys s2)\<rparr>)
           })
      })"

definition release_maps :: "'h vm \<Rightarrow> 'h vm" where
  "release_maps s = s\<lparr>v_maps := [], v_host := fold memmap_destroy (v_maps s) (v_host s)\<rparr>"

definition fini :: "kern vm \<Rightarrow> kern vm option" where
  "fini s = do {
     s1 \<leftarrow> clear_child_tid s;
     let s2 = release_maps (s1\<lparr>v_signal_depth := 0\<rparr>);
     Some (leave_kern (fini_task (me s) (enter_kern s2)) s2)
   }"

end
