(* ===== verification/Posix_Clone.thy ===== *)
theory Posix_Clone
  imports Posix_Syscall
begin

text \<open>
  PosixSyscall::do_clone (src/posix/process.cpp): the copy of the address space by sharing its pages
  copy-on-write, the copy of the descriptor table, the new task in the kernel, and the new machine.
  The result of pthread_create is an argument. The hooks of a debugger are not modelled, and neither
  are the translation caches of other threads of the caller, which do_clone flushes as well.
\<close>

subsection \<open>The address space\<close>

text \<open>The mapping that the child gets for a mapping of the parent, whose pages are shared by then.\<close>

definition clone_map :: "memmap \<Rightarrow> memmap" where
  "clone_map m = \<lparr>m_data = m_data m, m_dsize = m_size m, m_owned = False, m_size = m_size m, m_paddr = m_paddr m,
     m_flags = m_flags m, m_cow = m_cow m, m_path = m_path m\<rparr>"

fun clone_maps :: "memmap list \<Rightarrow> memmap list \<Rightarrow> host \<Rightarrow> memmap list \<times> memmap list \<times> host" where
  "clone_maps [] cs h = ([], cs, h)"
| "clone_maps (m # ms) cs h =
     (let (m1, h1) = share_data m h;
          (ms', cs', h') = clone_maps ms (insert_map (clone_map m1) cs) (cow_ref m1 h1)
      in (m1 # ms', cs', h'))"

definition clone_space :: "bool \<Rightarrow> 'h vm \<Rightarrow> 'h vm \<times> memmap list" where
  "clone_space share_vm s =
     (if share_vm then (flush_tlb s, v_maps s)
      else (case clone_maps (v_maps s) [] (v_host s) of
              (ms, cs, h) \<Rightarrow> (flush_tlb (s\<lparr>v_maps := ms, v_host := h\<rparr>), cs)))"

subsection \<open>The new task\<close>

text \<open>
  The descriptor table of a new process: each entry is cloned and keeps its close-on-exec flag. The
  clones get numbers from j on.
\<close>

fun clone_fds :: "(kern \<Rightarrow> int) \<Rightarrow> nat \<Rightarrow> (int \<times> nat) list \<Rightarrow> kern \<Rightarrow> int + (int \<times> nat) list \<times> kern" where
  "clone_fds err j [] k = Inr ([], k)"
| "clone_fds err j ((fd, i) # es) k =
     (case fd_clone (err k) j i k of
        Inl e \<Rightarrow> Inl e
      | Inr k1 \<Rightarrow>
          (case clone_fds err (Suc j) es (upd_fd j (\<lambda>F. F\<lparr>fd_cloexec := fd_cloexec (k_fd k i)\<rparr>) k1) of
             Inl e \<Rightarrow> Inl e
           | Inr (fs, k2) \<Rightarrow> Inr ((fd, j) # fs, k2)))"

definition new_group :: "u64 \<Rightarrow> u64 \<Rightarrow> ThreadGroup" where
  "new_group tgid ppid = \<lparr>tg_tgid = tgid, tg_ppid = ppid, tg_live_threads = 1, tg_exited = False, tg_exit_code = - 1, tg_stopped = False,
     tg_stop_sig = - 1, tg_stop_reported = False, tg_waiters = [], tg_threads = []\<rparr>"

text \<open>The PosixSyscall object of the child, under number n: a thread shares the group and the process state.\<close>

definition clone_sys :: "bool \<Rightarrow> nat \<Rightarrow> (int \<times> nat) list \<Rightarrow> kern \<Rightarrow> kern" where
  "clone_sys is_thread n fds k =
     (let T = k_task k (k_me k); pid = k_next_pid k; k1 = k\<lparr>k_next_pid := pid + 1\<rparr>;
          k2 = (if is_thread then k1
                else k1\<lparr>k_ps := (k_ps k1)(n := (k_ps k1 (t_ps T))\<lparr>ps_fds := fds\<rparr>),
                        k_tg := (k_tg k1)(n := new_group pid (tg_tgid (k_tg k1 (t_tg T))))\<rparr>)
      in k2\<lparr>k_task := (k_task k2)(n := \<lparr>t_pid = pid, t_flags = VM_STOPPED, t_sigmask = t_sigmask T, t_pending = [], t_tid_address = 0,
              t_tid = False, t_tg = (if is_thread then t_tg T else n), t_ps = (if is_thread then t_ps T else n), t_pgid = t_pgid T,
              t_session = t_session T, t_comm = t_comm T\<rparr>)\<rparr>)"

text \<open>Registration once the host thread runs, and the release from the initial stop.\<close>

definition register_child :: "bool \<Rightarrow> nat \<Rightarrow> kern \<Rightarrow> kern" where
  "register_child is_thread n k =
     (let g = t_tg (k_task k n);
          k1 = (if is_thread then upd_tg g (\<lambda>G. G\<lparr>tg_live_threads := tg_live_threads G + 1\<rparr>) k else k);
          k2 = upd_tg g (\<lambda>G. G\<lparr>tg_threads := tg_threads G @ [n]\<rparr>) k1
      in wakeup False n (and_flags VM_STOPPED n (k2\<lparr>k_pid_map := k_pid_map k2 @ [(t_pid (k_task k n), n)], k_live := (k_live k2)(n := True)\<rparr>)))"

text \<open>PosixSyscall::init of a task other than the first, run by its host thread.\<close>

definition init_task :: "nat \<Rightarrow> kern \<Rightarrow> kern" where
  "init_task t = upd_task t (\<lambda>T. T\<lparr>t_tid := True\<rparr>)"

subsection \<open>The call\<close>

definition CLONE_VM :: nat where "CLONE_VM = 8"
definition CLONE_THREAD :: nat where "CLONE_THREAD = 16"
definition CLONE_SETTLS :: nat where "CLONE_SETTLS = 19"
definition CLONE_PARENT_SETTID :: nat where "CLONE_PARENT_SETTID = 20"
definition CLONE_CHILD_CLEARTID :: nat where "CLONE_CHILD_CLEARTID = 21"
definition CLONE_CHILD_SETTID :: nat where "CLONE_CHILD_SETTID = 24"

text \<open>The flags are given by the number of their bit. Bytes are stored where the guest can write them, and nowhere else.\<close>

definition store_if :: "bool \<Rightarrow> u64 \<Rightarrow> u8 list \<Rightarrow> 'h vm \<Rightarrow> 'h vm option" where
  "store_if c a bs s = (if c then map_option snd (guest_write s a bs) else Some s)"

definition child_vm :: "u64 \<Rightarrow> u64 \<Rightarrow> u64 \<Rightarrow> nat \<Rightarrow> memmap list \<Rightarrow> kern vm \<Rightarrow> kern vm" where
  "child_vm flags stack newtls n cs s =
     \<lparr>v_pc = v_pc s + 8, v_reg = (v_reg s)(0 := 0, 10 := (if stack \<noteq> 0 then stack else v_reg s 10)), v_flags = 0, v_insn_count = 0,
      v_tlb = (\<lambda>_. tlb_zero), v_maps = cs, v_host = v_host s, v_signal_depth = (if bit flags CLONE_THREAD then 0 else v_signal_depth s),
      v_interp_insns = 0, v_tp = (if bit flags CLONE_SETTLS then newtls else if bit flags CLONE_THREAD then 0 else v_tp s),
      v_restart_pc = 0, v_restart_nohand = False, v_raw_stack = v_raw_stack s, v_insn_limit = v_insn_limit s, v_stack_limit = v_stack_limit s,
      v_sys = (v_sys s)\<lparr>k_me := n\<rparr>, v_env = []\<rparr>"

definition do_clone :: "posix_env \<Rightarrow> int \<Rightarrow> kern vm \<Rightarrow> (int \<times> kern vm \<times> kern vm option) option" where
  "do_clone E rc s =
     (let flags = v_reg s 1; stack = v_reg s 2; ptid = v_reg s 3; ctid = v_reg s 4; newtls = v_reg s 5;
          is_thread = bit flags CLONE_THREAD; share_vm = bit flags CLONE_VM; k = v_sys s; n = pe_fresh E k in
      case (if is_thread then Inr ([], k) else clone_fds (pe_err E) n (ps_fds (ps_of k (me s))) k) of
        Inl e \<Rightarrow> Some (e, s, None)
      | Inr (fds, k1) \<Rightarrow>
          (let pid = k_next_pid k1; tid = u32_bytes (ucast pid); (s1, cs) = clone_space share_vm s in do {
             s2 \<leftarrow> store_if (stack \<noteq> 0) stack (u64_bytes (frame_flags_make False 0 0)) s1;
             s3 \<leftarrow> store_if (bit flags CLONE_PARENT_SETTID) ptid tid s2;
             s4 \<leftarrow> store_if (bit flags CLONE_CHILD_SETTID) ctid tid s3;
             if rc \<noteq> 0 then
               Some (- rc, s4\<lparr>v_sys := k\<lparr>k_next_pid := pid + 1\<rparr>, v_host := (if share_vm then v_host s4 else fold memmap_destroy cs (v_host s4))\<rparr>, None)
             else (let k2 = clone_sys is_thread n fds k1;
                       k3 = (if bit flags CLONE_CHILD_CLEARTID then upd_task n (\<lambda>T. T\<lparr>t_tid_address := ctid\<rparr>) k2 else k2);
                       s5 = s4\<lparr>v_sys := register_child is_thread n k3\<rparr>
                   in Some (sint pid, s5, Some (child_vm flags stack newtls n (if share_vm then v_maps s5 else cs) s5)))
           }))"

end
