(* ===== verification/Posix_Held.thy ===== *)
theory Posix_Held
  imports Posix_Syscall Posix_Mprotect
begin

text \<open>
  Host pointers to guest memory that a system call holds while it works: a pointer stays good as long
  as its mapping is owned, which further translations do not change. With it, the steps that system
  calls are made of: structures in guest memory and entry into the kernel.
\<close>

subsection \<open>Held pointers\<close>

definition holds_at :: "'h vm \<Rightarrow> hptr \<Rightarrow> u64 \<Rightarrow> u64 \<Rightarrow> bool" where
  "holds_at s p a n \<longleftrightarrow> (\<exists>m \<in> set (v_maps s). m_owned m \<and> bit (m_flags m) PF_W \<and> covers m a n \<and> p = m_off m a)"

abbreviation holds :: "'h vm \<Rightarrow> hptr \<Rightarrow> u64 \<Rightarrow> bool" where
  "holds s p n \<equiv> \<exists>a. holds_at s p a n"

lemma holds_at_mmu_w:
  fixes s :: "'h vm"
  assumes so: "step_ok st rest s0 s"
  shows "runs st (mmu_w s a n) (\<lambda>(r, s1). step_ok st rest s0 s1 \<and> same_cpu s s1 \<and> mem_at s1 = mem_at s
     \<and> (\<forall>p. r = Some p \<longrightarrow> holds_at s1 p a n) \<and> (\<forall>p b k. holds_at s p b k \<longrightarrow> holds_at s1 p b k))"
proof (rule runs_mono [OF mmu_w_step [OF so]], clarify, intro conjI allI impI)
  fix r and s1 :: "'h vm"
  assume s1: "\<forall>m \<in> set (v_maps s). m_cow m = None \<longrightarrow> m \<in> set (v_maps s1)"
    "\<forall>p. r = Some p \<longrightarrow> (\<exists>m \<in> set (v_maps s1). covers m a n \<and> p = m_off m a \<and> m_owned m \<and> bit (m_flags m) PF_W)"
  show "holds_at s1 p a n" if "r = Some p" for p using s1(2) that by (auto simp: holds_at_def)
  have "m_cow m = None" if "m \<in> set (v_maps s)" "m_owned m" for m
    using own_invD(2) [of "v_host s" "mset (v_maps s) + rest" m] so that
    by (simp add: step_ok_def vm_ok_def mem_ok_def managed_def)
  then show "holds_at s1 p b k" if "holds_at s p b k" for p b k using s1(1) that by (auto simp: holds_at_def)
qed

lemma holds_at_poke:
  assumes so: "step_ok st rest s0 s" and h: "holds_at s p a n" and l: "length bs \<le> unat n" "0 < n"
  shows "runs st (poke s p bs) (\<lambda>s'. step_ok st rest s0 s' \<and> same_cpu s s' \<and> v_maps s' = v_maps s \<and> mem_at s' = gput a bs (mem_at s))"
proof -
  obtain m where m: "m \<in> set (v_maps s)" "m_owned m" "covers m a n" "bit (m_flags m) PF_W" "p = m_off m a"
    using h by (auto simp: holds_at_def)
  show ?thesis unfolding m(5)
    by (rule runs_mono [OF poke_step [OF so m(1-4) l]])
       (metis same_cpu_host same_cpu_refl vm.select_convs(6) vm.surjective vm.update_convs(7))
qed

lemma holds_at_bound:
  assumes "step_ok st rest s0 s" "holds_at s p a n" "0 < n"
  shows "unat a + unat n < 2 ^ 64" "resolve (v_maps s) a n \<noteq> None"
proof -
  obtain m where m: "m \<in> set (v_maps s)" "covers m a n" using assms(2) by (auto simp: holds_at_def)
  note as = vm_okD(1) [OF step_ok_vm_ok [OF assms(1)]]
  then have "m_hi m < 2 ^ 64" using m(1) by (simp add: as_ok_def)
  then show "unat a + unat n < 2 ^ 64" using m(2) by (simp add: covers_def)
  show "resolve (v_maps s) a n \<noteq> None" using resolve_covers [OF as assms(3) m] by simp
qed

lemma hold_mmu_w:
  assumes so: "step_ok st rest s0 s"
  shows "runs st (mmu_w s a n) (\<lambda>(r, s1). step_ok st rest s0 s1 \<and> same_cpu s s1 \<and> mem_at s1 = mem_at s
     \<and> (\<forall>p. r = Some p \<longrightarrow> holds s1 p n) \<and> (\<forall>p k. holds s p k \<longrightarrow> holds s1 p k))"
  by (rule runs_mono [OF holds_at_mmu_w [OF so]]) blast

lemma hold_poke:
  assumes so: "step_ok st rest s0 s" and h: "holds s p n" and l: "off + length bs \<le> unat n" "off < unat n"
  shows "runs st (poke s (hadd p off) bs) (\<lambda>s'. step_ok st rest s0 s' \<and> same_cpu s s' \<and> v_maps s' = v_maps s)"
proof -
  obtain m a where m: "m \<in> set (v_maps s)" "m_owned m" "bit (m_flags m) PF_W" "covers m a n" "p = m_off m a"
    using h by (auto simp: holds_at_def)
  have hi: "m_hi m < 2 ^ 64" using vm_okD(1) [OF step_ok_vm_ok [OF so]] m(1) by (simp add: as_ok_def)
  let ?k = "unat n - off"
  have k: "?k < 2 ^ 64" "0 < ?k" "off + ?k \<le> unat n" using l(2) unsigned_less [of n, where 'a = nat] by simp_all
  note c = covers_sub [OF m(4) hi k(3,2,1)]
  have "unat (of_nat ?k :: u64) = ?k" using k(1) by (simp add: unsigned_of_nat take_bit_eq_mod)
  then have "runs st (poke s (m_off m (a + of_nat off)) bs)
      (\<lambda>s'. s' = s\<lparr>v_host := v_host s'\<rparr> \<and> step_ok st rest s0 s' \<and> mem_at s' = gput (a + of_nat off) bs (mem_at s))"
    using l k(2) by (intro poke_step [OF so m(1,2) c(1) m(3)]) (simp_all add: word_less_nat_alt)
  then show ?thesis
    unfolding m(5) c(2) by (rule runs_mono) (metis same_cpu_host same_cpu_refl vm.select_convs(6) vm.surjective vm.update_convs(7))
qed

lemma host_store_nil: "host_store h p [] = Some h"
proof -
  have "put_bytes p [] f = f" for f by (rule ext) (auto simp: put_bytes_def)
  then show ?thesis by (simp add: host_store_def)
qed

lemma hold_poke0:
  assumes "step_ok st rest s0 s" "holds s p n" "length bs \<le> unat n"
  shows "runs st (poke s p bs) (\<lambda>s'. step_ok st rest s0 s' \<and> same_cpu s s' \<and> v_maps s' = v_maps s)"
proof (cases "unat n = 0")
  case True
  then show ?thesis using assms(1,3) by (simp add: poke_def host_store_nil)
qed (use hold_poke [OF assms(1,2), of 0 bs] assms(3) in simp)

subsection \<open>Kernel entry and structures\<close>

lemma step_ok_leave [simp]: "step_ok st rest s0 (leave_kern k s) = step_ok st rest s0 s"
  by (simp add: leave_kern_def)

lemma leave_maps [simp]: "v_maps (leave_kern k s) = v_maps s"
  by (simp add: leave_kern_def)

lemma holds_leave [simp]: "holds_at (leave_kern k s) p a n = holds_at s p a n"
  by (simp add: holds_at_def)

lemma in_kern_step: "step_ok st rest s0 s \<Longrightarrow> case in_kern f s of (r, s') \<Rightarrow> step_ok st rest s0 s'"
  by (simp add: in_kern_def split: prod.split)

lemma guest_words_step:
  assumes so: "step_ok st rest s0 s" and n: "0 < n" "n < 2 ^ 60"
  shows "runs st (guest_words s a n) (\<lambda>(r, s'). step_ok st rest s0 s' \<and> same_cpu s s' \<and> v_maps s' = v_maps s \<and> mem_at s' = mem_at s
     \<and> (r = None \<longleftrightarrow> resolve (v_maps s) a (of_nat (8 * n)) = None)
     \<and> (\<forall>ws. r = Some ws \<longrightarrow> map Some ws = map (\<lambda>i. gword (mem_at s) (a + of_nat (8 * i))) [0..<n]))"
proof -
  define b :: u64 where "b = of_nat (8 * n)"
  have un: "unat b = 8 * n" using n(2) unfolding b_def by (subst unsigned_of_nat) (simp add: take_bit_eq_mod)
  have n0: "0 < b" unfolding word_less_nat_alt un using n(1) by simp
  obtain r s1 where mm: "mmu s a b = (r, s1)" by fastforce
  note s1 = mmu_step [OF so n0 mm]
  have same: "same_cpu s s1" "v_maps s1 = v_maps s" "mem_at s1 = mem_at s" by (subst s1(2), simp)+
  show ?thesis
  proof (cases r)
    case None
    then show ?thesis using mm s1(1,4) same by (simp add: guest_words_def b_def [symmetric] del: of_nat_mult)
  next
    case (Some p)
    then obtain m where m: "m \<in> set (v_maps s1)" "covers m a b" "p = m_off m a" using s1(3) [of p] by auto
    have "runs st (peek_words s1 p n) (\<lambda>ws. map Some ws = map (\<lambda>i. gword (mem_at s) (a + of_nat (8 * i))) [0..<n])"
      using peek_words_step [OF s1(1) m(1,2), of 0 n] un same(3) by (simp add: m(3) del: of_nat_mult)
    then show ?thesis using mm Some s1(1,4) same
      by (auto simp: guest_words_def b_def [symmetric] runs_def simp del: of_nat_mult split: option.splits)
  qed
qed

lemma put_words_step:
  assumes so: "step_ok st rest s0 s" and n: "ws \<noteq> []" "length ws < 2 ^ 60"
  shows "runs st (put_words s a ws) (\<lambda>(b, s'). step_ok st rest s0 s' \<and> same_cpu s s'
     \<and> mem_at s' = (if b then gput a (concat (map u64_bytes ws)) (mem_at s) else mem_at s))"
proof -
  have l: "length (concat (map u64_bytes ws)) = 8 * length ws" by (induction ws) simp_all
  show ?thesis unfolding put_words_def
    by (rule runs_mono [OF guest_write_runs [OF step_ok_vm_ok [OF so]]])
       (use n l step_ok_trans [OF so] in auto)
qed

lemma put_words_opt_step:
  assumes so: "step_ok st rest s0 s" and n: "ws \<noteq> []" "length ws < 2 ^ 60"
  shows "runs st (put_words_opt s a ws) (\<lambda>(b, s'). step_ok st rest s0 s')"
  unfolding put_words_opt_def using so runs_mono [OF put_words_step [OF so n, of a]] by (auto intro!: runs_if)

text \<open>The same facts without what a call does not need to know.\<close>

lemma words_step: "\<lbrakk>step_ok st rest s0 s; 0 < n; n < 2 ^ 60\<rbrakk> \<Longrightarrow> runs st (guest_words s a n) (\<lambda>(r, s'). step_ok st rest s0 s')"
  by (rule runs_mono [OF guest_words_step]) auto

lemma read_step: "\<lbrakk>step_ok st rest s0 s; 0 < n; n < 2 ^ 64\<rbrakk> \<Longrightarrow> runs st (guest_read s a n) (\<lambda>(r, s'). step_ok st rest s0 s')"
  by (rule runs_mono [OF guest_read_runs [OF step_ok_vm_ok]]) (auto intro: step_ok_trans)

lemma write_step: "\<lbrakk>step_ok st rest s0 s; 0 < length bs; length bs < 2 ^ 64\<rbrakk> \<Longrightarrow> runs st (guest_write s a bs) (\<lambda>(b, s'). step_ok st rest s0 s')"
  by (rule runs_mono [OF guest_write_runs [OF step_ok_vm_ok]]) (auto intro: step_ok_trans)

lemma hold_step:
  "step_ok st rest s0 s \<Longrightarrow> runs st (mmu_w s a n) (\<lambda>(r, s'). step_ok st rest s0 s' \<and> (\<forall>p. r = Some p \<longrightarrow> holds s' p n))"
  by (rule runs_mono [OF hold_mmu_w]) auto

lemma fill_step:
  "\<lbrakk>step_ok st rest s0 s; holds s p n; length bs \<le> unat n\<rbrakk> \<Longrightarrow> runs st (map_option (Pair r) (poke s p bs)) (\<lambda>(r, s'). step_ok st rest s0 s')"
  using hold_poke0 [of st rest s0 s p n bs] by (auto simp: runs_def split: option.splits)

lemma runs_map: "runs st (map_option f m) Q = runs st m (\<lambda>x. Q (f x))"
  by (cases m) (simp_all add: runs_def)

lemma runs_lenient: "runs False m (\<lambda>x. True)"
  by (simp add: runs_def split: option.split)

lemma runs_sum:
  "\<lbrakk>\<And>e. x = Inl e \<Longrightarrow> runs st (f e) Q; \<And>v. x = Inr v \<Longrightarrow> runs st (g v) Q\<rbrakk> \<Longrightarrow> runs st (case x of Inl e \<Rightarrow> f e | Inr v \<Rightarrow> g v) Q"
  by (cases x) simp_all

lemma runs_pair: "(\<And>a b. p = (a, b) \<Longrightarrow> runs st (f a b) Q) \<Longrightarrow> runs st (case p of (a, b) \<Rightarrow> f a b) Q"
  by (cases p) simp

lemma words32_bytes [simp]: "length (u32_bytes w) = 4" "length (concat (map u32_bytes ws)) = 4 * length ws"
  by (induction ws) (simp_all add: u32_bytes_def)

lemma u32_bytes_some [simp]: "u32_bytes w \<noteq> []"
  using words32_bytes(1) [of w] by fastforce

lemma two_pokes_step:
  assumes s: "step_ok st rest s0 s" "holds s p n" "holds s q k" and l: "length bs \<le> unat n" "length cs \<le> unat k"
  shows "runs st (poke s p bs \<bind> (\<lambda>s1. poke s1 q cs)) (step_ok st rest s0)"
  using s(3) by (intro runs_bind [OF hold_poke0 [OF s(1,2) l(1)]] runs_mono [OF hold_poke0 [OF _ _ l(2)]]) (auto simp: holds_at_def)

end
