(* ===== verification/Posix_File_Props.thy ===== *)
theory Posix_File_Props
  imports Posix_Held
begin

text \<open>
  The calls on files and paths keep the machine invariant and the memory of other address spaces,
  whatever the host answers.
\<close>

lemma mmu_any_step:
  assumes so: "step_ok st rest s0 s" and mm: "mmu s a n = (r, s1)"
  shows "step_ok st rest s0 s1" "same_cpu s s1" "v_maps s1 = v_maps s"
proof -
  have ok: "vm_ok st rest s" using so by (rule step_ok_vm_ok)
  obtain r' t where t: "mmu s a n = (r', s\<lparr>v_tlb := t\<rparr>)" "tlb_ok (v_maps s) t" using mmu_tlb [OF vm_okD(1,2) [OF ok]] by metis
  then show "step_ok st rest s0 s1" "same_cpu s s1" "v_maps s1 = v_maps s" using so mm by (auto simp: step_ok_def vm_ok_def)
qed

lemma c_string_step: "step_ok False rest s0 s \<Longrightarrow> runs False (c_string_loop n a s) (\<lambda>(r, s'). step_ok False rest s0 s')"
proof (induction n arbitrary: a s)
  case (Suc n)
  obtain r s1 where mm: "mmu s a 1 = (r, s1)" by fastforce
  note s1 = mmu_any_step(1) [OF Suc.prems mm]
  show ?case
  proof (cases r)
    case (Some p)
    show ?thesis unfolding c_string_loop.simps mm Some
      by (simp, rule runs_bind [OF runs_lenient]) (use Suc.IH [OF s1] s1 in \<open>auto simp: runs_map split_beta\<close>)
  qed (use mm s1 in simp)
qed simp

lemma read_c_string_step: "step_ok False rest s0 s \<Longrightarrow> runs False (read_c_string s a n) (\<lambda>(r, s'). step_ok False rest s0 s')"
  by (simp add: read_c_string_def c_string_step)

lemma poke_pieces_step:
  "\<lbrakk>step_ok st rest s0 s; holds s p n\<rbrakk> \<Longrightarrow> runs st (poke_pieces p (unat n) out s) (\<lambda>s'. step_ok st rest s0 s')"
proof (induction out arbitrary: s)
  case (Cons x out)
  obtain off bs where x: "x = (off, bs)" by fastforce
  show ?case unfolding x poke_pieces.simps
    by (rule runs_if, rule runs_bind [OF hold_poke [OF Cons.prems]]) (use Cons in \<open>auto simp: holds_at_def\<close>)
qed simp

lemma pieces_step:
  "\<lbrakk>step_ok st rest s0 s; holds s p n\<rbrakk> \<Longrightarrow> runs st (map_option (Pair r) (poke_pieces p (unat n) out s)) (\<lambda>(r, s'). step_ok st rest s0 s')"
  unfolding runs_map prod.case by (rule poke_pieces_step)

lemma scatter_step:
  "\<lbrakk>step_ok st rest s0 s; \<forall>(p, n) \<in> set iov. holds s p n\<rbrakk> \<Longrightarrow> runs st (scatter iov bs s) (\<lambda>s'. step_ok st rest s0 s')"
proof (induction iov arbitrary: s bs)
  case (Cons x iov)
  obtain p n where x: "x = (p, n)" by fastforce
  then have h: "holds s p n" using Cons.prems(2) by simp
  show ?case unfolding x scatter.simps
    by (rule runs_bind [OF hold_poke0 [OF Cons.prems(1) h]]) (use Cons in \<open>auto simp: holds_at_def\<close>)
qed simp

lemma translate_write_step:
  "step_ok st rest s0 s \<Longrightarrow> runs st (translate_segs True iov s) (\<lambda>(r, s'). step_ok st rest s0 s' \<and> (\<forall>p n. holds s p n \<longrightarrow> holds s' p n)
     \<and> (\<forall>v. r = Some v \<longrightarrow> (\<forall>(p, n) \<in> set v. holds s' p n)))"
proof (induction iov arbitrary: s)
  case (Cons x iov)
  obtain a n where x: "x = (a, n)" by fastforce
  show ?case
  proof (cases "n = 0")
    case True
    then show ?thesis using Cons x by simp
  next
    case False
    have "runs st (case r of None \<Rightarrow> Some (None, s1) | Some p \<Rightarrow> map_option (\<lambda>(r, s2). (map_option ((#) (p, n)) r, s2)) (translate_segs True iov s1))
        (\<lambda>(r, s'). step_ok st rest s0 s' \<and> (\<forall>p n. holds s p n \<longrightarrow> holds s' p n) \<and> (\<forall>v. r = Some v \<longrightarrow> (\<forall>(p, n) \<in> set v. holds s' p n)))"
      if s1: "step_ok st rest s0 s1" "\<forall>p. r = Some p \<longrightarrow> holds s1 p n" "\<forall>p k. holds s p k \<longrightarrow> holds s1 p k" for r s1
    proof (cases r)
      case (Some p)
      have h: "holds s1 p n" using s1(2) Some by simp
      show ?thesis unfolding Some option.case runs_map
        by (rule runs_mono [OF Cons.IH [OF s1(1)]]) (use h s1(3) in \<open>fastforce simp: split_beta\<close>)
    qed (use s1 in auto)
    then show ?thesis
      unfolding x translate_segs.simps using False by simp (rule runs_bind [OF hold_mmu_w [OF Cons.prems]], clarify)
  qed
qed auto

lemma translate_read_step: "step_ok st rest s0 s \<Longrightarrow> runs st (translate_segs False iov s) (\<lambda>(r, s'). step_ok st rest s0 s')"
proof (induction iov arbitrary: s)
  case (Cons x iov)
  obtain a n where x: "x = (a, n)" by fastforce
  obtain r s1 where mm: "mmu s a n = (r, s1)" by fastforce
  note s1 = mmu_any_step(1) [OF Cons.prems mm]
  show ?case using Cons s1 mm by (cases r) (auto simp: x runs_map split_beta)
qed simp

subsection \<open>Shapes of calls\<close>

lemma with_path_step:
  assumes "step_ok False rest s0 s" "\<And>path s1. step_ok False rest s0 s1 \<Longrightarrow> runs False (f path s1) (\<lambda>(r, s'). step_ok False rest s0 s')"
  shows "runs False (with_path a f s) (\<lambda>(r, s'). step_ok False rest s0 s')"
  unfolding with_path_def by (rule runs_bind [OF read_c_string_step [OF assms(1)]]) (use assms(2) in \<open>auto intro!: runs_option\<close>)

lemma with_fd_step:
  assumes "step_ok st rest s0 s" "\<And>i. runs st (f i s) (\<lambda>(r, s'). step_ok st rest s0 s')"
  shows "runs st (with_fd f s) (\<lambda>(r, s'). step_ok st rest s0 s')"
  unfolding with_fd_def using assms by (auto intro!: runs_option)

lemma with_tty_step:
  assumes "step_ok st rest s0 s" "\<And>i s1. step_ok st rest s0 s1 \<Longrightarrow> runs st (f i s1) (\<lambda>(r, s'). step_ok st rest s0 s')"
  shows "runs st (with_tty E b f s) (\<lambda>(r, s'). step_ok st rest s0 s')"
  unfolding with_tty_def using assms by (auto intro!: runs_option runs_pair)

lemma restarting_step: "runs st m (\<lambda>(r, s'). step_ok st rest s0 s') \<Longrightarrow> runs st (restarting m) (\<lambda>(r, s'). step_ok st rest s0 s')"
  by (cases m) (auto simp: restarting_def runs_def)

lemma fd_fill_step:
  assumes so: "step_ok st rest s0 s"
  shows "runs st (fd_fill E i a n op s) (\<lambda>(r, s'). step_ok st rest s0 s')"
  unfolding fd_fill_def
  by (rule runs_bind [OF hold_step [OF so]]) (auto intro!: runs_option runs_pair pieces_step)

lemma fd_drain_step: "step_ok False rest s0 s \<Longrightarrow> runs False (fd_drain E i a n op s) (\<lambda>(r, s'). step_ok False rest s0 s')"
  unfolding fd_drain_def
  by (auto intro!: runs_option runs_pair runs_bind [OF runs_lenient] dest: mmu_any_step(1))

lemma fd_plain_step: "step_ok st rest s0 s \<Longrightarrow> runs st (fd_plain E op s) (\<lambda>(r, s'). step_ok st rest s0 s')"
  unfolding fd_plain_def by (auto intro!: runs_option runs_pair)

lemma path_do_step: "step_ok False rest s0 s \<Longrightarrow> runs False (path_do E d op p s) (\<lambda>(r, s'). step_ok False rest s0 s')"
  by (auto simp: path_do_def runs_map runs_def split: option.splits)

lemma path_fill_step:
  assumes so: "step_ok False rest s0 s"
  shows "runs False (path_fill E a n f s) (\<lambda>(r, s'). step_ok False rest s0 s')"
  unfolding path_fill_def
  by (rule runs_bind [OF hold_step [OF so]]) (auto intro!: runs_option runs_bind [OF runs_lenient] runs_pair pieces_step)

lemma iovec_write_step:
  assumes so: "step_ok st rest s0 s" and n: "0 < n" "n < 2 ^ 32"
  shows "runs st (translate_iovec s a n True) (\<lambda>(r, s'). step_ok st rest s0 s' \<and> (\<forall>v. r = Some v \<longrightarrow> (\<forall>(p, n) \<in> set v. holds s' p n)))"
  unfolding translate_iovec_def
  by (rule runs_bind [OF words_step [OF so]]) (use n in \<open>auto intro!: runs_option runs_mono [OF translate_write_step]\<close>)

lemma iovec_read_step:
  assumes so: "step_ok st rest s0 s" and n: "0 < n" "n < 2 ^ 32"
  shows "runs st (translate_iovec s a n False) (\<lambda>(r, s'). step_ok st rest s0 s')"
  unfolding translate_iovec_def
  by (rule runs_bind [OF words_step [OF so]]) (use n in \<open>auto intro!: runs_option translate_read_step\<close>)

lemma arg_s32_bound: "\<not> arg_s32 w \<le> 0 \<Longrightarrow> 0 < nat (arg_s32 w) \<and> nat (arg_s32 w) < 2 ^ 32"
  using sint_lt [of "ucast w :: u32"] by (auto simp: arg_s32_def)

subsection \<open>The calls\<close>

lemma io_calls_step:
  assumes so: "step_ok False rest s0 s"
  shows "runs False (do_read E s) (\<lambda>(r, s'). step_ok False rest s0 s')" "runs False (do_write E s) (\<lambda>(r, s'). step_ok False rest s0 s')"
    "runs False (do_pread E s) (\<lambda>(r, s'). step_ok False rest s0 s')" "runs False (do_pwrite E s) (\<lambda>(r, s'). step_ok False rest s0 s')"
    "runs False (do_getdents64 E s) (\<lambda>(r, s'). step_ok False rest s0 s')" "runs False (do_lseek E s) (\<lambda>(r, s'). step_ok False rest s0 s')"
    "runs False (do_ftruncate E s) (\<lambda>(r, s'). step_ok False rest s0 s')" "runs False (do_fsync E s) (\<lambda>(r, s'). step_ok False rest s0 s')"
    "runs False (do_fdatasync E s) (\<lambda>(r, s'). step_ok False rest s0 s')"
  using so unfolding do_read_def do_write_def do_pread_def do_pwrite_def do_getdents64_def do_lseek_def do_ftruncate_def do_fsync_def do_fdatasync_def fd_sync_def
  by (auto intro!: with_tty_step with_fd_step restarting_step fd_fill_step fd_drain_step fd_plain_step runs_if)

lemma do_readv_step:
  assumes so: "step_ok False rest s0 s"
  shows "runs False (do_readv E s) (\<lambda>(r, s'). step_ok False rest s0 s')"
proof -
  have sc: "runs False (map_option (Pair r) (scatter iov bs s1)) (\<lambda>(r, s'). step_ok False rest s0 s')"
    if "step_ok False rest s0 s1" "\<forall>(p, n) \<in> set iov. holds s1 p n" for iov bs s1 r
    unfolding runs_map prod.case by (rule scatter_step [OF that])
  show ?thesis
    using so unfolding do_readv_def Let_def
    by (intro with_tty_step) (auto intro!: runs_if runs_option runs_pair runs_bind [OF iovec_write_step] sc dest: arg_s32_bound)
qed

lemma do_writev_step: "step_ok False rest s0 s \<Longrightarrow> runs False (do_writev E s) (\<lambda>(r, s'). step_ok False rest s0 s')"
  unfolding do_writev_def Let_def
  by (intro with_tty_step runs_if, simp, simp, rule runs_bind [OF iovec_read_step])
     (auto intro!: runs_if runs_option runs_pair runs_bind [OF runs_lenient] dest: arg_s32_bound)

lemma opt_words_step: "\<lbrakk>step_ok st rest s0 s; 0 < n; n < 2 ^ 60\<rbrakk> \<Longrightarrow> runs st (opt_words s a n) (\<lambda>(r, s'). step_ok st rest s0 s')"
  unfolding opt_words_def by (auto intro!: runs_if words_step)

lemma do_sendfile_step:
  assumes so: "step_ok False rest s0 s"
  shows "runs False (do_sendfile E s) (\<lambda>(r, s'). step_ok False rest s0 s')"
proof -
  have p: "runs False (map_option (Pair rc) (if a = 0 then Some s1 else map_option snd (put_words s1 a [x]))) (\<lambda>(r, s'). step_ok False rest s0 s')"
    if "step_ok False rest s0 s1" for rc a s1 x
    using that runs_mono [OF put_words_step [OF that, of "[x]" a]] by (auto simp: runs_map split_beta)
  show ?thesis using so unfolding do_sendfile_def Let_def
    by (auto intro!: runs_if runs_bind [OF opt_words_step] runs_pair p split: option.split)
qed

lemma path_calls_step:
  assumes so: "step_ok False rest s0 s"
  shows "runs False (do_unlinkat E s) (\<lambda>(r, s'). step_ok False rest s0 s')" "runs False (do_mkdirat E s) (\<lambda>(r, s'). step_ok False rest s0 s')"
    "runs False (do_fchmodat E s) (\<lambda>(r, s'). step_ok False rest s0 s')" "runs False (do_faccessat E s) (\<lambda>(r, s'). step_ok False rest s0 s')"
    "runs False (do_truncate E s) (\<lambda>(r, s'). step_ok False rest s0 s')" "runs False (do_symlinkat E s) (\<lambda>(r, s'). step_ok False rest s0 s')"
    "runs False (do_linkat E s) (\<lambda>(r, s'). step_ok False rest s0 s')" "runs False (do_renameat2 E s) (\<lambda>(r, s'). step_ok False rest s0 s')"
    "runs False (do_readlinkat E s) (\<lambda>(r, s'). step_ok False rest s0 s')" "runs False (do_statx E s) (\<lambda>(r, s'). step_ok False rest s0 s')"
  using so unfolding do_unlinkat_def do_mkdirat_def do_fchmodat_def do_faccessat_def do_truncate_def do_symlinkat_def do_linkat_def do_renameat2_def
    do_readlinkat_def do_statx_def at_call_def two_paths_def Let_def
  by (auto intro!: with_path_step path_do_step path_fill_step runs_if)

lemma do_openat_step: "step_ok False rest s0 s \<Longrightarrow> runs False (do_openat E s) (\<lambda>(r, s'). step_ok False rest s0 s')"
  unfolding do_openat_def Let_def
  by (auto intro!: with_path_step runs_if runs_bind [OF runs_lenient] runs_sum runs_pair)

lemma do_utimensat_step: "step_ok False rest s0 s \<Longrightarrow> runs False (do_utimensat E s) (\<lambda>(r, s'). step_ok False rest s0 s')"
  unfolding do_utimensat_def Let_def
  by (auto intro!: with_path_step runs_if runs_bind [OF opt_words_step] runs_option runs_pair path_do_step)

lemma do_fchdir_step: "step_ok st rest s0 s \<Longrightarrow> runs st (do_fchdir E s) (\<lambda>(r, s'). step_ok st rest s0 s')"
  unfolding do_fchdir_def by (auto intro!: with_fd_step runs_pair runs_if)

lemma do_getcwd_step: "step_ok st rest s0 s \<Longrightarrow> runs st (do_getcwd s) (\<lambda>(r, s'). step_ok st rest s0 s')"
  unfolding do_getcwd_def Let_def
  by (auto intro!: runs_if runs_option runs_bind [OF hold_step] fill_step [where n = "v_reg s 2"] simp: c_bytes_def)

lemma machine_calls_step:
  assumes so: "step_ok st rest s0 s"
  shows "runs st (do_uname s) (\<lambda>(r, s'). step_ok st rest s0 s')" "runs st (do_sysinfo E s) (\<lambda>(r, s'). step_ok st rest s0 s')"
  using so unfolding do_uname_def do_sysinfo_def
  by (auto intro!: runs_bind [OF write_step] simp: padded_def c_bytes_def sysinfo_bytes_def)

end
