(* ===== verification/Posix_Calls_Props.thy ===== *)
theory Posix_Calls_Props
  imports Posix_File_Props
begin

text \<open>
  The system calls keep the machine invariant and never touch the memory of another address space,
  and so the whole handler satisfies the contract of a handler.
\<close>

subsection \<open>Signal calls\<close>

lemmas call_intros = runs_if runs_option in_kern_step words_step read_step write_step hold_step fill_step put_words_opt_step

lemma kernel_calls_step:
  assumes so: "step_ok st rest s0 s"
  shows "runs st (do_kill s) (\<lambda>(r, s'). step_ok st rest s0 s')" "runs st (do_tkill s) (\<lambda>(r, s'). step_ok st rest s0 s')"
    "runs st (do_tgkill s) (\<lambda>(r, s'). step_ok st rest s0 s')" "runs st (do_exit s) (\<lambda>(r, s'). step_ok st rest s0 s')"
    "runs st (do_exit_group s) (\<lambda>(r, s'). step_ok st rest s0 s')" "runs st (do_setpgid s) (\<lambda>(r, s'). step_ok st rest s0 s')"
    "runs st (do_setsid E s) (\<lambda>(r, s'). step_ok st rest s0 s')" "runs st (do_umask s) (\<lambda>(r, s'). step_ok st rest s0 s')"
    "runs st (do_dup E s) (\<lambda>(r, s'). step_ok st rest s0 s')" "runs st (do_dup3 E s) (\<lambda>(r, s'). step_ok st rest s0 s')"
    "runs st (do_close s) (\<lambda>(r, s'). step_ok st rest s0 s')" "runs st (do_eventfd2 E s) (\<lambda>(r, s'). step_ok st rest s0 s')"
  unfolding do_kill_def do_tkill_def do_tgkill_def do_exit_def do_exit_group_def do_setpgid_def do_setsid_def do_umask_def do_dup_def
    do_dup3_def do_close_def do_eventfd2_def Let_def runs_Some
  by (rule in_kern_step [OF so])+

lemma plain_calls_step:
  assumes so: "step_ok st rest s0 s"
  shows "runs st (do_getpid s) (\<lambda>(r, s'). step_ok st rest s0 s')" "runs st (do_getppid s) (\<lambda>(r, s'). step_ok st rest s0 s')"
    "runs st (do_getuid s) (\<lambda>(r, s'). step_ok st rest s0 s')" "runs st (do_getgroups s) (\<lambda>(r, s'). step_ok st rest s0 s')"
    "runs st (do_gettid s) (\<lambda>(r, s'). step_ok st rest s0 s')" "runs st (do_set_tid_address s) (\<lambda>(r, s'). step_ok st rest s0 s')"
    "runs st (do_sched_yield s) (\<lambda>(r, s'). step_ok st rest s0 s')" "runs st (do_set_tls s) (\<lambda>(r, s'). step_ok st rest s0 s')"
    "runs st (do_get_tls s) (\<lambda>(r, s'). step_ok st rest s0 s')" "runs st (do_getpgid s) (\<lambda>(r, s'). step_ok st rest s0 s')"
    "runs st (do_getpgrp s) (\<lambda>(r, s'). step_ok st rest s0 s')" "runs st (do_getsid s) (\<lambda>(r, s'). step_ok st rest s0 s')"
  using so by (simp_all add: do_getpid_def do_getppid_def do_getuid_def do_getgroups_def do_gettid_def do_set_tid_address_def do_sched_yield_def
    do_set_tls_def do_get_tls_def do_getpgid_def do_getpgrp_def do_getsid_def ret_def)

lemma do_sigqueueinfo_step: "step_ok st rest s0 s \<Longrightarrow> runs st (do_sigqueueinfo s) (\<lambda>(r, s'). step_ok st rest s0 s')"
  unfolding do_sigqueueinfo_def Let_def
  by (auto intro!: call_intros runs_bind [OF words_step])

lemma do_sigaction_step: "step_ok st rest s0 s \<Longrightarrow> runs st (do_sigaction s) (\<lambda>(r, s'). step_ok st rest s0 s')"
  unfolding do_sigaction_def Let_def
  by (auto intro!: runs_if runs_option runs_bind [OF words_step] runs_bind [OF put_words_opt_step] simp: action_words_def set_action_def)

lemma do_sigaltstack_step: "step_ok st rest s0 s \<Longrightarrow> runs st (do_sigaltstack s) (\<lambda>(r, s'). step_ok st rest s0 s')"
  unfolding do_sigaltstack_def by (auto intro!: runs_bind [OF put_words_opt_step])

lemma do_sigprocmask_step: "step_ok st rest s0 s \<Longrightarrow> runs st (do_sigprocmask s) (\<lambda>(r, s'). step_ok st rest s0 s')"
  unfolding do_sigprocmask_def Let_def
  by (auto intro!: runs_if runs_option runs_bind [OF words_step] runs_bind [OF put_words_opt_step] simp: step_ok_leave)

lemma do_sigsetjmp_step: "step_ok st rest s0 s \<Longrightarrow> runs st (do_sigsetjmp s) (\<lambda>(r, s'). step_ok st rest s0 s')"
  unfolding do_sigsetjmp_def
  by (auto intro!: runs_option runs_bind [OF hold_step] fill_step simp: jmp_env_def)

lemma do_siglongjmp_step: "step_ok st rest s0 s \<Longrightarrow> runs st (do_siglongjmp s) (\<lambda>(r, s'). step_ok st rest s0 s')"
  unfolding do_siglongjmp_def jump_to_def Let_def
  by (auto intro!: runs_option runs_bind [OF words_step])

lemma parse_sigset_step: "step_ok st rest s0 s \<Longrightarrow> runs st (parse_guest_sigset s a) (\<lambda>(r, s'). step_ok st rest s0 s')"
  unfolding parse_guest_sigset_def by (auto intro!: runs_if runs_bind [OF words_step])

lemma do_sigsuspend_step: "step_ok False rest s0 s \<Longrightarrow> runs False (do_sigsuspend E s) (\<lambda>(r, s'). step_ok False rest s0 s')"
  unfolding do_sigsuspend_def
  by (auto intro!: runs_option runs_bind [OF parse_sigset_step] simp: runs_map runs_lenient)

lemma do_signalfd4_step: "step_ok st rest s0 s \<Longrightarrow> runs st (do_signalfd4 E s) (\<lambda>(r, s'). step_ok st rest s0 s')"
  unfolding do_signalfd4_def Let_def
  by (auto intro!: runs_if runs_option runs_bind [OF parse_sigset_step] in_kern_step)

subsection \<open>Waiting calls\<close>

lemma futex_wait_step: "step_ok False rest s0 s \<Longrightarrow> runs False (futex_wait E a v t s) (\<lambda>(r, s'). step_ok False rest s0 s')"
  unfolding futex_wait_def
  by (auto intro!: runs_option runs_bind [OF read_step] simp: runs_map runs_lenient split_beta)

lemma do_futex_step: "step_ok False rest s0 s \<Longrightarrow> runs False (do_futex E s) (\<lambda>(r, s'). step_ok False rest s0 s')"
  unfolding do_futex_def Let_def
  by (auto intro!: runs_if runs_option runs_bind [OF words_step] futex_wait_step in_kern_step)

lemma do_wait4_step:
  assumes so: "step_ok False rest s0 s"
  shows "runs False (do_wait4 E s) (\<lambda>(r, s'). step_ok False rest s0 s')"
proof -
  have w: "runs False (if a = 0 then Some (None, s) else mmu_w s a 4) (\<lambda>(p, s'). step_ok False rest s0 s' \<and> (\<forall>q. p = Some q \<longrightarrow> holds s' q 4))" for a
    using so hold_step [OF so, of a 4] by simp
  have fill: "runs False (do { s3 \<leftarrow> (case p of None \<Rightarrow> Some s2 | Some q \<Rightarrow> poke s2 q (u32_bytes x)); Some (r, s3) }) (\<lambda>(r, s'). step_ok False rest s0 s')"
    if "step_ok False rest s0 s2" "\<forall>q. p = Some q \<longrightarrow> holds s2 q 4" for p s2 x r
    using that by (cases p) (auto intro!: runs_bind [OF hold_poke0] simp: word_less_nat_alt)
  have wait: "runs False (case i of (idtype, wid) \<Rightarrow> do_wait_common E (me s) idtype wid opt k \<bind> f) Q"
    if "\<And>rc ev k. runs False (f (rc, ev, k)) Q" for i opt k Q and f :: "int \<times> wait_event \<times> kern \<Rightarrow> (int \<times> kern vm) option"
    unfolding split_beta by (rule runs_bind [OF runs_lenient]) (use that in \<open>auto split: prod.split\<close>)
  show ?thesis unfolding do_wait4_def Let_def
    by (intro runs_if, simp add: so, simp add: so, rule runs_bind [OF w]) (auto intro!: wait runs_option runs_if fill)
qed

lemma do_waitid_step:
  assumes so: "step_ok False rest s0 s"
  shows "runs False (do_waitid E s) (\<lambda>(r, s'). step_ok False rest s0 s')"
proof -
  have fill: "runs False (do { s3 \<leftarrow> poke s2 p (concat (map u32_bytes [x0, x1, x2])); s4 \<leftarrow> poke s3 (hadd p 16) (concat (map u32_bytes [y0, y1, y2])); Some (0, s4) })
      (\<lambda>(r, s'). step_ok False rest s0 s')"
    if p: "step_ok False rest s0 s2" "holds s2 p 28" for p s2 x0 x1 x2 y0 y1 y2
    by (rule runs_bind [OF hold_poke0 [OF p]], simp, simp, rule runs_bind [OF hold_poke [where n = 28]])
       (use p(2) in \<open>auto simp: holds_at_def\<close>)
  show ?thesis unfolding do_waitid_def Let_def
    by (intro runs_if, simp add: so, simp add: so, simp add: so, rule runs_bind [OF runs_lenient])
       (auto intro!: runs_option runs_if runs_bind [OF hold_step] fill so)
qed

subsection \<open>Calls that fill a guest structure\<close>

lemma do_prctl_step: "step_ok st rest s0 s \<Longrightarrow> runs st (do_prctl s) (\<lambda>(r, s'). step_ok st rest s0 s')"
  unfolding do_prctl_def Let_def
  by (auto intro!: runs_if runs_option runs_bind [OF read_step] runs_bind [OF write_step])

lemma do_pipe2_step: "step_ok st rest s0 s \<Longrightarrow> runs st (do_pipe2 E s) (\<lambda>(r, s'). step_ok st rest s0 s')"
  unfolding do_pipe2_def
  by (rule runs_bind [OF hold_step]) (auto intro!: runs_option runs_pair runs_sum fill_step [where n = 8])

lemma do_ioctl_step:
  assumes "step_ok st rest s0 s" "\<And>c. runs st (pe_other E s c) (\<lambda>(r, s'). step_ok st rest s0 s')"
  shows "runs st (do_ioctl E s) (\<lambda>(r, s'). step_ok st rest s0 s')"
  using assms unfolding do_ioctl_def Let_def
  by (auto intro!: runs_if runs_option runs_bind [OF read_step] runs_bind [OF write_step] in_kern_step runs_sum)

lemma do_fcntl_step:
  assumes "step_ok st rest s0 s" "\<And>c. runs st (pe_other E s c) (\<lambda>(r, s'). step_ok st rest s0 s')"
  shows "runs st (do_fcntl E s) (\<lambda>(r, s'). step_ok st rest s0 s')"
  using assms unfolding do_fcntl_def Let_def by (auto intro!: runs_if runs_option in_kern_step)

lemma pollfd_bytes_length: "length (concat (map pollfd_bytes gs)) = 8 * length gs"
  by (induction gs) (simp_all add: pollfd_bytes_def)

lemma poll_guest_step:
  fixes s :: "kern vm"
  assumes so: "step_ok st rest s0 s" and n: "v_reg s 2 \<le> 1024"
  shows "runs st (poll_guest E t s) (\<lambda>(r, s'). step_ok st rest s0 s')"
proof (cases "unat (v_reg s 2) = 0")
  case True
  then show ?thesis using so by (simp add: poll_guest_def Let_def)
next
  case False
  let ?n = "unat (v_reg s 2)"
  define b :: u64 where "b = of_nat (8 * ?n)"
  have le: "?n \<le> 1024" using n by (simp add: word_le_nat_alt)
  have un: "unat b = 8 * ?n" unfolding b_def using le by (subst unsigned_of_nat) (simp add: take_bit_eq_mod)
  have b0: "0 < b" unfolding word_less_nat_alt un using False by simp
  have pk: "runs st (peek_words s1 p ?n) (\<lambda>ws. True)" if h: "step_ok st rest s0 s1" "holds s1 p b" for s1 p
    using h(2) un peek_words_step [OF h(1), of _ _ b 0 ?n] unfolding holds_at_def
    by (auto simp: hadd_simps intro: runs_mono)
  show ?thesis
    unfolding poll_guest_def Let_def b_def [symmetric] if_not_P [OF False]
    by (rule runs_bind [OF hold_step [OF so]])
       (use b0 un in \<open>auto intro!: runs_option runs_bind [OF pk] runs_bind [OF hold_poke0] simp: pollfd_bytes_length split_beta\<close>)
qed

lemma do_poll_step: "step_ok st rest s0 s \<Longrightarrow> runs st (do_poll E s) (\<lambda>(r, s'). step_ok st rest s0 s')"
  unfolding do_poll_def by (auto intro!: runs_if poll_guest_step)

lemma do_ppoll_step:
  assumes so: "step_ok st rest s0 s"
  shows "runs st (do_ppoll E s) (\<lambda>(r, s'). step_ok st rest s0 s')"
  unfolding do_ppoll_def
  by (intro runs_if, (simp add: so poll_guest_step)+, rule runs_bind [OF guest_words_step [OF so]])
     (auto intro!: runs_option poll_guest_step dest: same_cpuD)

lemma do_clock_gettime_step: "step_ok st rest s0 s \<Longrightarrow> runs st (do_clock_gettime E s) (\<lambda>(r, s'). step_ok st rest s0 s')"
  unfolding do_clock_gettime_def
  by (rule runs_bind [OF hold_step]) (auto intro!: runs_option fill_step [where n = 16] split: sum.split)

lemma opt_hold_step:
  assumes so: "step_ok st rest s0 s"
  shows "runs st (if a = 0 then Some (None, s) else mmu_w s a n) (\<lambda>(p, s'). step_ok st rest s0 s' \<and> (\<forall>q. p = Some q \<longrightarrow> holds s' q n))"
  using so hold_step [OF so, of a n] by simp

lemma nanosleep_step: "step_ok st rest s0 s \<Longrightarrow> runs st (clock_nanosleep_core E c f a b s) (\<lambda>(r, s'). step_ok st rest s0 s')"
  unfolding clock_nanosleep_core_def Let_def
  by (rule runs_bind [OF words_step])
     (auto intro!: runs_option runs_if runs_pair runs_bind [OF opt_hold_step] runs_bind [OF hold_step] fill_step [where n = 16])

lemma do_getrandom_step: "step_ok st rest s0 s \<Longrightarrow> runs st (do_getrandom E s) (\<lambda>(r, s'). step_ok st rest s0 s')"
  unfolding do_getrandom_def Let_def
  by (auto intro!: runs_if runs_option runs_bind [OF hold_step] fill_step [where n = "v_reg s 2"] simp: word_greater_zero_iff split: sum.split)

lemma do_prlimit64_step:
  assumes so: "step_ok st rest s0 s"
  shows "runs st (do_prlimit64 E s) (\<lambda>(r, s'). step_ok st rest s0 s')"
proof -
  have w: "runs st (if a = 0 then Some (None, s) else guest_words s a 2) (\<lambda>(p, s'). step_ok st rest s0 s')" for a
    using so words_step [OF so, of 2 a] by simp
  show ?thesis unfolding do_prlimit64_def Let_def
    by (intro runs_if, simp add: so, rule runs_bind [OF w])
       (auto intro!: runs_option runs_if runs_sum runs_bind [OF opt_hold_step] runs_bind [OF hold_step] fill_step [where n = 16])
qed

subsection \<open>Delivery\<close>

lemma handle_signals_keeps: "step_ok st rest s0 s \<Longrightarrow> runs st (handle_signals s) (\<lambda>(b, i, s'). step_ok st rest s0 s')"
  by (auto simp: handle_signals_def Let_def split: prod.split delivery.split)

lemma frame_lengths: "length (siginfo_words i) = 16" "length (ucontext_words r sp pc mk) = 33"
  by (simp_all add: siginfo_words_def ucontext_words_def)

lemma build_siginfo_keeps:
  fixes s :: "kern vm"
  assumes so: "step_ok False rest s0 s"
  shows "runs False (build_siginfo s base i pc sp) (\<lambda>s'. step_ok False rest s0 s')"
  unfolding build_siginfo_def
  by (rule runs_bind [OF hold_step [OF so]], simp, clarify, rule runs_bind [OF hold_mmu_w])
     (auto intro!: runs_option two_pokes_step [where n = 128 and k = 264] simp: frame_lengths)

lemma sigreturn_keeps: "step_ok st rest s0 s \<Longrightarrow> runs st (sigreturn s base pc) (\<lambda>(r, s'). step_ok st rest s0 s')"
  unfolding sigreturn_def by (auto intro!: runs_option runs_bind [OF words_step])

subsection \<open>Memory calls\<close>

text \<open>
  The calls the contract covers: mmap may not wrap around the end of the address space, and
  mprotect must run to its end on a range that does not wrap.
\<close>

definition mprotect_fits :: "mm_env \<Rightarrow> 'h vm \<Rightarrow> bool" where
  "mprotect_fits E s \<longleftrightarrow> v_reg s 2 \<noteq> 0 \<and> unat (v_reg s 1) + unat (v_reg s 2) < 2 ^ 64
     \<and> (case mprotect_loop E (v_reg s 1) (v_reg s 1 + v_reg s 2) (prot_flags (ucast (v_reg s 3))) (ucast (v_reg s 3)) 0 False (v_maps s) (v_host s) of
          (Inl e, z) \<Rightarrow> False | (Inr any, z) \<Rightarrow> True)"

definition call_fits :: "posix_env \<Rightarrow> kern vm \<Rightarrow> u32 \<Rightarrow> bool" where
  "call_fits E s call \<longleftrightarrow> (call_id call = 1 \<longrightarrow> mmap_fits s) \<and> (call_id call = 41 \<longrightarrow> mprotect_fits (pe_mm E) s)"

lemma do_mprotect_step:
  assumes ok: "vm_ok False rest s" and f: "mprotect_fits E s"
  shows "case do_mprotect E s of (r, s') \<Rightarrow> step_ok False rest s s'"
proof -
  obtain res ms h where l: "mprotect_loop E (v_reg s 1) (v_reg s 1 + v_reg s 2) (prot_flags (ucast (v_reg s 3))) (ucast (v_reg s 3)) 0 False
      (v_maps s) (v_host s) = (res, ms, h)" by (metis prod_cases3)
  have r: "v_reg s 2 \<noteq> 0" "unat (v_reg s 1) + unat (v_reg s 2) < 2 ^ 64" "\<exists>any. res = Inr any"
    using f l by (auto simp: mprotect_fits_def split: sum.splits)
  show ?thesis using mprotect_result(3,4) [OF ok r(1,2) l] r(3) l by (auto simp: do_mprotect_def step_ok_def)
qed

lemma do_munmap_step: "vm_ok st rest s \<Longrightarrow> case do_munmap s of (r, s') \<Rightarrow> step_ok st rest s s'"
  by (cases "unmap (v_reg s 1) s") (use unmap_runs [of st rest s "v_reg s 1"] in \<open>fastforce simp: do_munmap_def\<close>)

lemma do_alloca_step: "vm_ok st rest s \<Longrightarrow> runs st (do_alloca s) (\<lambda>(r, s'). step_ok st rest s s')"
  unfolding do_alloca_def
  using sint_lt [of "v_reg s 1"] sint_ge [of "v_reg s 1"]
  by (intro runs_mono [OF alloca_runs [OF step_ok_refl]]) auto

subsection \<open>The handler\<close>

text \<open>The contract of the calls that are not modelled.\<close>

locale other_calls =
  fixes E :: posix_env
  assumes other: "\<And>rest s c. vm_ok False rest s \<Longrightarrow> runs False (pe_other E s c) (\<lambda>(r, s'). step_ok False rest s s')"
begin

lemma posix_syscall_step:
  assumes ok: "vm_ok False rest s" and f: "call_fits E s c"
  shows "runs False (posix_syscall E s c) (\<lambda>(r, s'). step_ok False rest s s')"
proof -
  note so = step_ok_refl [OF ok]
  have mm: "call_id c = 1 \<Longrightarrow> runs False (do_mmap (pe_mm E) s) (\<lambda>(r, s'). step_ok False rest s s')"
    using f runs_result [OF do_mmap_runs [OF ok, of "pe_mm E"]] by (cases "do_mmap (pe_mm E) s") (auto simp: call_fits_def)
  have mp: "call_id c = 41 \<Longrightarrow> case do_mprotect (pe_mm E) s of (r, s') \<Rightarrow> step_ok False rest s s'"
    using f do_mprotect_step [OF ok] by (simp add: call_fits_def)
  show ?thesis
    unfolding posix_syscall_def Let_def
    by (intro runs_if mm kernel_calls_step [OF so] plain_calls_step [OF so] do_wait4_step [OF so] do_waitid_step [OF so] do_futex_step [OF so]
          do_pipe2_step [OF so] do_fcntl_step [OF so] do_ioctl_step [OF so] do_sigqueueinfo_step [OF so] do_sigaction_step [OF so]
          do_sigprocmask_step [OF so] do_sigsuspend_step [OF so] do_prctl_step [OF so] do_sigaltstack_step [OF so] do_sigsetjmp_step [OF so]
          do_siglongjmp_step [OF so] do_clock_gettime_step [OF so] do_poll_step [OF so] do_ppoll_step [OF so] do_signalfd4_step [OF so]
          do_getrandom_step [OF so] do_prlimit64_step [OF so] do_alloca_step [OF ok] io_calls_step [OF so] do_readv_step [OF so] do_writev_step [OF so]
          do_sendfile_step [OF so] path_calls_step [OF so] do_openat_step [OF so] do_utimensat_step [OF so] do_fchdir_step [OF so] do_getcwd_step [OF so]
          machine_calls_step [OF so] other [OF ok])
       (auto simp: mp do_munmap_step [OF ok] do_madvise_def so do_nanosleep_def do_clock_nanosleep_def intro: nanosleep_step [OF so])
qed

end

text \<open>The POSIX handler, with no answer for a call outside the contract.\<close>

definition posix_checked :: "posix_env \<Rightarrow> kern handler" where
  "posix_checked E = (posix_handler E)\<lparr>h_syscall := (\<lambda>s c. if call_fits E s c then posix_syscall E s c else None)\<rparr>"

sublocale other_calls \<subseteq> posix: syscall_handler False "posix_checked E"
  by unfold_locales
     (auto simp: posix_checked_def posix_handler_def intro: posix_syscall_step handle_signals_keeps build_siginfo_keeps sigreturn_keeps step_ok_refl)

context other_calls
begin

lemma posix_reaches: "\<lbrakk>vm_ok False rest s; reaches F (posix_checked E) s s'\<rbrakk> \<Longrightarrow> step_ok False rest s s'"
  by (rule posix.reaches_step_ok) simp_all

end

text \<open>The answer ENOSYS, which is the default of the dispatch, satisfies the contract.\<close>

interpretation enosys: other_calls "E\<lparr>pe_other := (\<lambda>s c. Some (- ENOSYS, s))\<rparr>" for E
  by unfold_locales (simp add: step_ok_refl)

end
