(* ===== verification/Posix_Clone_Props.thy ===== *)
theory Posix_Clone_Props
  imports Posix_Clone Posix_Calls_Props
begin

text \<open>
  The address space of a new process: parent and child see the memory that the parent saw, their
  pages are shared through counted blocks, and no other address space is touched.
\<close>

subsection \<open>Sharing one mapping\<close>

lemma clone_map_simps [simp]:
  "m_paddr (clone_map m) = m_paddr m" "m_size (clone_map m) = m_size m" "m_flags (clone_map m) = m_flags m"
  "m_data (clone_map m) = m_data m" "m_cow (clone_map m) = m_cow m" "m_lo (clone_map m) = m_lo m" "m_hi (clone_map m) = m_hi m"
  by (simp_all add: clone_map_def m_lo_def m_hi_def)

lemma mem_ok_clone:
  assumes ok: "mem_ok st h M" and m: "m \<in># M" "m_cow m = Some i"
  shows "mem_ok st (cow_ref m h) (add_mset (clone_map m) M)"
proof -
  have inv: "own_inv h M" using ok by (simp add: mem_ok_def)
  then have mg: "managed m" "cow_map_ok h m" using m(1) by (simp_all add: own_inv_def)
  then obtain cb where cb: "hcow h i = Some cb" "inside m (cb_ptr cb) (cb_size cb)"
    using m(2) by (auto simp: cow_map_ok_def)
  have "own_inv (cow_copy i h) (add_mset (clone_map m) M)"
    by (rule own_inv_cow_copy [OF inv cb(1)]) (use m(2) mg(1) cb(2) in \<open>simp_all add: managed_def inside_def clone_map_def\<close>)
  moreover have "prot_ok (cow_copy i h) x" if "prot_ok h x" for x using that by (simp add: prot_ok_def)
  moreover have "prot_ok (cow_copy i h) (clone_map m)" if st
    by (rule prot_ok_cong [of h m]) (use that ok m in \<open>auto simp: mem_ok_def m_pages_def\<close>)
  ultimately show ?thesis using ok m(2) by (simp add: mem_ok_def cow_ref_def)
qed

subsection \<open>Sharing all mappings\<close>

lemma insert_last: "\<forall>c \<in> set cs. m_paddr c < m_paddr m \<Longrightarrow> insert_map m cs = cs @ [m]"
  by (simp add: insert_map_def takeWhile_eq_all_conv [THEN iffD2])

lemma clone_maps_spec:
  assumes "mem_ok st h (mset ms + M)" "as_ok ms" "\<forall>c \<in> set cs. \<forall>m \<in> set ms. m_paddr c < m_paddr m" "clone_maps ms cs h = (ms', cs', h')"
  shows "mem_ok st h' (mset ms' + mset (map clone_map ms') + M) \<and> cs' = cs @ map clone_map ms' \<and> hval h' = hval h \<and> same_view h ms h' ms'"
  using assms
proof (induction ms arbitrary: cs h M ms' cs' h')
  case (Cons m ms)
  obtain m1 h1 where sh: "share_data m h = (m1, h1)" by fastforce
  note g = share_data_geo [OF sh]
  obtain ms2 cs2 h2 where rec: "clone_maps ms (insert_map (clone_map m1) cs) (cow_ref m1 h1) = (ms2, cs2, h2)" by (metis prod_cases3)
  have out: "ms' = m1 # ms2" "cs' = cs2" "h' = h2" using Cons.prems(4) sh rec by simp_all
  have ok: "mem_ok st h (add_mset m (mset ms + M))" using Cons.prems(1) by simp
  note so = mem_ok_share [OF ok sh]
  obtain i where i: "m_cow m1 = Some i" using so(2) by blast
  have 1: "mem_ok st (cow_ref m1 h1) (mset ms + add_mset (clone_map m1) (add_mset m1 M))"
    using mem_ok_clone [OF so(1) _ i] by (simp add: add_mset_commute)
  have lt: "\<forall>x \<in> set ms. m_paddr m < m_paddr x" and as: "as_ok ms"
    using Cons.prems(2) by (auto simp: as_ok_Cons m_lo_def m_hi_def word_less_nat_alt)
  have ins: "insert_map (clone_map m1) cs = cs @ [clone_map m1]"
    by (rule insert_last) (use Cons.prems(3) g(1) in simp)
  have "\<forall>c \<in> set (insert_map (clone_map m1) cs). \<forall>x \<in> set ms. m_paddr c < m_paddr x"
    using Cons.prems(3) lt g(1) by (auto simp: ins)
  note ih = Cons.IH [OF 1 as this rec]
  have hv: "hval h' = hval h" using ih g(7) out(3) by simp
  have "same_map (cow_ref m1 h1) h2 = same_map h h2" using g(7) by (simp add: same_map_def fun_eq_iff)
  moreover have "same_map h h2 m m1" using g hv out(3) by (simp add: same_map_def)
  ultimately show ?case
    using ih hv out ins by (auto simp: same_view_def ac_simps)
qed (simp add: same_view_def)

lemma clone_views:
  assumes "as_ok ms"
  shows "as_ok (map clone_map ms)" "gbyte h (map clone_map ms) = gbyte h ms"
proof -
  have v: "same_view h ms h (map clone_map ms)"
    by (simp add: same_view_def list_all2_conv_all_nth same_map_def)
  show "as_ok (map clone_map ms)" by (rule same_view_as_ok [OF v assms])
  show "gbyte h (map clone_map ms) = gbyte h ms" using same_view_gbyte [OF v assms] by (simp add: fun_eq_iff)
qed

lemma clone_space_ok:
  assumes ok: "vm_ok st rest s" and c: "clone_space False s = (s1, cs)"
  shows "vm_ok st (mset cs + rest) s1" "as_ok cs" "gbyte (v_host s1) cs = mem_at s" "mem_at s1 = mem_at s" "isolated rest (v_host s) (v_host s1)"
    "same_cpu s s1" "hval (v_host s1) = hval (v_host s)"
proof -
  obtain ms cs' h where cm: "clone_maps (v_maps s) [] (v_host s) = (ms, cs', h)" by (metis prod_cases3)
  have s1: "s1 = flush_tlb (s\<lparr>v_maps := ms, v_host := h\<rparr>)" "cs = cs'" using c cm by (simp_all add: clone_space_def)
  note sp = clone_maps_spec [OF vm_okD(3) [OF ok] vm_okD(1) [OF ok] _ cm]
  have as: "as_ok ms" using sp same_view_as_ok vm_okD(1) [OF ok] by auto
  note cv = clone_views [OF as]
  have g: "gbyte h ms = mem_at s" using sp same_view_gbyte vm_okD(1) [OF ok] by (fastforce simp: fun_eq_iff)
  show "vm_ok st (mset cs + rest) s1" using sp as by (simp add: s1 vm_ok_def ac_simps)
  show "as_ok cs" "gbyte (v_host s1) cs = mem_at s" "mem_at s1 = mem_at s" using sp cv g by (simp_all add: s1)
  show "isolated rest (v_host s) (v_host s1)" "hval (v_host s1) = hval (v_host s)" using sp by (simp_all add: s1 isolated_def)
  show "same_cpu s s1" by (simp add: s1 flush_tlb_def same_cpu_def)
qed

lemma store_if_step:
  assumes "step_ok st rest s0 s" "same_cpu x s" "0 < length bs" "length bs < 2 ^ 64"
  shows "runs st (store_if c a bs s) (\<lambda>s'. step_ok st rest s0 s' \<and> same_cpu x s')"
  unfolding store_if_def
  using assms step_ok_trans [OF assms(1)] same_cpu_trans [OF assms(2)]
  by (auto simp: runs_map intro!: runs_if runs_mono [OF guest_write_runs [OF step_ok_vm_ok]])

subsection \<open>The whole call\<close>

text \<open>
  What a fork leaves: two machines over the same host, each of them well-formed beside the other, the
  child with the memory of the parent.
\<close>

definition forked :: "bool \<Rightarrow> memmap multiset \<Rightarrow> kern vm \<Rightarrow> kern vm \<Rightarrow> kern vm \<Rightarrow> bool" where
  "forked st rest s s' c \<longleftrightarrow> v_host c = v_host s' \<and> vm_ok st (mset (v_maps c) + rest) s' \<and> vm_ok st (mset (v_maps s') + rest) c
     \<and> isolated rest (v_host s) (v_host s') \<and> mem_at c = mem_at s
     \<and> v_reg c = (v_reg s)(0 := 0, 10 := (if v_reg s 2 \<noteq> 0 then v_reg s 2 else v_reg s 10)) \<and> v_pc c = v_pc s + 8"

text \<open>A call that asks for no store into the memory of the caller.\<close>

definition quiet :: "kern vm \<Rightarrow> bool" where
  "quiet s \<longleftrightarrow> v_reg s 2 = 0 \<and> \<not> bit (v_reg s 1) CLONE_PARENT_SETTID \<and> \<not> bit (v_reg s 1) CLONE_CHILD_SETTID"

lemma isolated_view:
  assumes "isolated rest h h'" "mset ms \<subseteq># rest" "as_ok ms"
  shows "gbyte h' ms = gbyte h ms"
proof -
  have "\<forall>m \<in> set ms. m \<in># rest" using assms(2) by (auto dest: mset_subset_eqD)
  then have "same_view h ms h' ms"
    using assms(1) by (auto simp: same_view_def list_all2_same same_map_def isolated_def)
  then show ?thesis using same_view_gbyte assms(3) by (fastforce simp: fun_eq_iff)
qed

lemma tlb_zero_ok [simp]: "tlb_ok ms (\<lambda>_. tlb_zero)"
  by (simp add: tlb_ok_def)

lemma do_clone_runs:
  assumes ok: "vm_ok st rest s" and v: "\<not> bit (v_reg s 1) CLONE_VM"
  shows "runs st (do_clone E rc s) (\<lambda>(r, s', ch). (quiet s \<longrightarrow> mem_at s' = mem_at s)
     \<and> (case ch of None \<Rightarrow> step_ok st rest s s' | Some c \<Rightarrow> forked st rest s s' c))"
proof -
  obtain s1 cs where cs: "clone_space False s = (s1, cs)" by fastforce
  note c = clone_space_ok [OF ok cs]
  let ?R = "mset cs + rest"
  have so: "step_ok st ?R s1 s1" by (rule step_ok_refl [OF c(1)])
  have fin: "step_ok st rest s (s4\<lparr>v_sys := k, v_host := fold memmap_destroy cs (v_host s4)\<rparr>)"
    "forked st rest s (s4\<lparr>v_sys := k\<rparr>) (child_vm (v_reg s 1) (v_reg s 2) nt n cs (s4\<lparr>v_sys := k\<rparr>))"
    if s4: "step_ok st ?R s1 s4 \<and> same_cpu s s4" for s4 k nt n
  proof -
    have v4: "as_ok (v_maps s4)" "tlb_ok (v_maps s4) (v_tlb s4)" "mem_ok st (v_host s4) (mset cs + (mset (v_maps s4) + rest))"
      "isolated ?R (v_host s1) (v_host s4)"
      using s4 by (simp_all add: step_ok_def vm_ok_def ac_simps)
    have iso: "isolated rest (v_host s) (v_host s4)" using c(5) v4(4) by (auto simp: isolated_def)
    have "gbyte (v_host s4) cs = mem_at s" using isolated_view [OF v4(4) _ c(2)] c(3) by simp
    then show "forked st rest s (s4\<lparr>v_sys := k\<rparr>) (child_vm (v_reg s 1) (v_reg s 2) nt n cs (s4\<lparr>v_sys := k\<rparr>))"
      using v4 iso c(2) same_cpuD [of s s4] s4 by (simp add: forked_def child_vm_def vm_ok_def ac_simps)
    show "step_ok st rest s (s4\<lparr>v_sys := k, v_host := fold memmap_destroy cs (v_host s4)\<rparr>)"
      using v4 iso mem_ok_destroy_all [OF v4(3)] by (simp add: step_ok_def vm_ok_def isolated_def)
  qed
  define P where "P x \<longleftrightarrow> step_ok st ?R s1 x \<and> same_cpu s x \<and> (quiet s \<longrightarrow> x = s1)" for x
  have st: "runs st (store_if d a bs x) P" if "P x" "0 < length bs" "length bs < 2 ^ 64" "quiet s \<longrightarrow> \<not> d" for d a bs x
  proof (cases "quiet s")
    case True
    then show ?thesis using that by (simp add: store_if_def)
  next
    case False
    have x: "step_ok st ?R s1 x" "same_cpu s x" using that(1) by (simp_all add: P_def)
    show ?thesis by (rule runs_mono [OF store_if_step [OF x that(2,3)]]) (use False in \<open>simp add: P_def\<close>)
  qed
  have stores: "runs st (store_if (v_reg s 2 \<noteq> 0) a1 (u64_bytes w) s1 \<bind> (\<lambda>s2. store_if (bit (v_reg s 1) CLONE_PARENT_SETTID) a2 (u32_bytes x) s2
      \<bind> (\<lambda>s3. store_if (bit (v_reg s 1) CLONE_CHILD_SETTID) a3 (u32_bytes y) s3 \<bind> f))) Q"
    if "\<And>s4. P s4 \<Longrightarrow> runs st (f s4) Q" for a1 w a2 x a3 y f and Q :: "int \<times> kern vm \<times> kern vm option \<Rightarrow> bool"
    by (intro runs_bind [OF st] that) (simp_all add: P_def so c(6) quiet_def)
  have view: "mem_at s4 = mem_at s" "gbyte (fold memmap_destroy cs (v_host s4)) (v_maps s4) = mem_at s" if "P s4" "quiet s" for s4
  proof -
    have e: "s4 = s1" using that by (simp add: P_def)
    have "mem_ok st (v_host s1) (mset cs + (mset (v_maps s1) + rest))" using vm_okD(3) [OF c(1)] by (simp add: ac_simps)
    then have "hval (fold memmap_destroy cs (v_host s1)) = hval (v_host s1)" using mem_ok_destroy_all by blast
    then have "gbyte (fold memmap_destroy cs (v_host s1)) (v_maps s1) = mem_at s1" by (intro ext) (simp add: gbyte_def)
    then show "mem_at s4 = mem_at s" "gbyte (fold memmap_destroy cs (v_host s4)) (v_maps s4) = mem_at s"
      unfolding e c(4) by simp_all
  qed
  have v': "bit (v_reg s 1) CLONE_VM = False" using v by simp
  have post: "runs st (if rc \<noteq> 0 then Some (- rc, s4\<lparr>v_sys := k, v_host := fold memmap_destroy cs (v_host s4)\<rparr>, None)
      else Some (r, s4\<lparr>v_sys := k'\<rparr>, Some (child_vm (v_reg s 1) (v_reg s 2) (v_reg s 5) n cs (s4\<lparr>v_sys := k'\<rparr>))))
      (\<lambda>(r, s', ch). (quiet s \<longrightarrow> mem_at s' = mem_at s) \<and> (case ch of None \<Rightarrow> step_ok st rest s s' | Some c \<Rightarrow> forked st rest s s' c))"
    if "P s4" for s4 k k' n r
    using view [OF that] fin [of s4] that by (simp add: P_def del: One_nat_def)
  show ?thesis
    unfolding do_clone_def Let_def v' if_False cs prod.case
    by (intro runs_sum runs_pair stores) (simp add: step_ok_refl [OF ok], rule post)
qed

end
