(* ===== verification/Posix_Machine_Claims.thy ===== *)
theory Posix_Machine_Claims
  imports Posix_Calls_Props Posix_Memory_Claims Posix_Process_Claims
begin

text \<open>
  The machine with the POSIX handler: every run keeps the machine invariant and the memory of the
  other address spaces, a non-local jump and the return from a signal handler restore what was
  saved, and the end of a machine releases its pages.
\<close>

subsection \<open>Reading saved words\<close>

lemma guest_words_get:
  assumes so: "step_ok st rest s0 s" and n: "length ws \<le> n" "0 < n" "n < 2 ^ 60"
    and r: "resolve (v_maps s) a (of_nat (8 * n)) \<noteq> None"
    and w: "\<And>i. i < length ws \<Longrightarrow> gword (mem_at s) (a + of_nat (8 * i)) = Some (ws ! i)"
  shows "runs st (guest_words s a n) (\<lambda>(r, s'). step_ok st rest s0 s' \<and> same_cpu s s' \<and> mem_at s' = mem_at s
     \<and> (\<exists>vs. r = Some vs \<and> length vs = n \<and> (\<forall>i < length ws. vs ! i = ws ! i)))"
proof -
  have rd: "length vs = n \<and> (\<forall>i < length ws. vs ! i = ws ! i)"
    if vs: "map Some vs = map (\<lambda>i. gword (mem_at s) (a + of_nat (8 * i))) [0..<n]" for vs
  proof -
    have len: "length vs = n" using arg_cong [OF vs, of length] by simp
    have "vs ! i = ws ! i" if "i < length ws" for i
      using arg_cong [OF vs, of "\<lambda>xs. xs ! i"] w [OF that] that n(1) len by (simp del: of_nat_mult)
    then show ?thesis using len by blast
  qed
  show ?thesis
    by (rule runs_mono [OF guest_words_step [OF so n(2,3), of a]]) (use rd r in fastforce)
qed

text \<open>Words written at an address and unchanged since.\<close>

lemma kept_words:
  assumes "\<forall>j < 8 * length ws. g' (a + of_nat j) = g (a + of_nat j)" "g = gput a (concat (map u64_bytes ws)) g0"
    and "unat a + 8 * length ws \<le> 2 ^ 64" "i < length ws"
  shows "gword g' (a + of_nat (8 * i)) = Some (ws ! i)"
proof -
  have "g' (a + of_nat (8 * i) + of_nat j) = g (a + of_nat (8 * i) + of_nat j)" if "j < 8" for j
    using assms(1) [rule_format, of "8 * i + j"] assms(4) that by (simp add: add.assoc)
  then have "gword g' (a + of_nat (8 * i)) = gword g (a + of_nat (8 * i))" by (rule gword_cong)
  then show ?thesis using gword_gput [OF assms(4,3), of g0] assms(2) by simp
qed

subsection \<open>Non-local jumps\<close>

lemma jmp_env_same: "same_cpu s s1 \<Longrightarrow> jmp_env m s1 = jmp_env m s"
  by (simp add: jmp_env_def same_cpuD)

lemma jmp_env_length: "length (jmp_env m s) \<le> 10" "0 < length (jmp_env m s)"
  by (simp_all add: jmp_env_def)

lemma setjmp_saves:
  fixes s :: "kern vm"
  assumes so: "step_ok st rest s0 s"
  shows "runs st (do_sigsetjmp s) (\<lambda>(r, s1). r = 0 \<longrightarrow> unat (v_reg s 1) + 80 < 2 ^ 64
     \<and> mem_at s1 = gput (v_reg s 1) (concat (map u64_bytes (jmp_env (arg_s32 (v_reg s 2)) s))) (mem_at s))"
  unfolding do_sigsetjmp_def
proof (rule runs_bind [OF holds_at_mmu_w [OF so]], clarify, rule runs_option)
  fix r p and s1 :: "kern vm"
  assume so1: "step_ok st rest s0 s1" and e: "same_cpu s s1" "mem_at s1 = mem_at s" and p: "r = Some p"
    and h: "\<forall>p. r = Some p \<longrightarrow> holds_at s1 p (v_reg s 1) 80"
  have h1: "holds_at s1 p (v_reg s 1) 80" using h p by simp
  have b: "unat (v_reg s 1) + 80 < 2 ^ 64" using holds_at_bound(1) [OF so1 h1] by simp
  have l: "length (concat (map u64_bytes (jmp_env (arg_s32 (v_reg s 2)) s1))) \<le> unat (80 :: u64)"
    using jmp_env_length(1) [of "arg_s32 (v_reg s 2)" s1] by simp
  show "runs st (map_option (Pair 0) (poke s1 p (concat (map u64_bytes (jmp_env (arg_s32 (v_reg s 2)) s1)))))
      (\<lambda>(r, s1). r = 0 \<longrightarrow> unat (v_reg s 1) + 80 < 2 ^ 64
     \<and> mem_at s1 = gput (v_reg s 1) (concat (map u64_bytes (jmp_env (arg_s32 (v_reg s 2)) s))) (mem_at s))"
    unfolding runs_map prod.case
    by (rule runs_mono [OF holds_at_poke [OF so1 h1 l]], simp) (unfold e(2) jmp_env_same [OF e(1)], use b in blast)
qed simp

text \<open>What a jump with the environment of s brings back.\<close>

definition jumped :: "int \<Rightarrow> kern vm \<Rightarrow> kern vm \<Rightarrow> kern vm \<Rightarrow> bool" where
  "jumped savemask s s2 s3 \<longleftrightarrow> mem_at s3 = mem_at s2 \<and> v_reg s3 = returned False (v_reg s) (v_reg s2)
     \<and> v_pc s3 = v_pc s \<and> v_signal_depth s3 = v_signal_depth s
     \<and> t_sigmask (k_task (v_sys s3) (me s2)) = t_sigmask (if savemask \<noteq> 0 then k_task (v_sys s) (me s) else k_task (v_sys s2) (me s2))"

lemma set_mask_mask: "t_sigmask (k_task (set_mask t m k) t) = m"
  by (simp add: set_mask_def Let_def wakeup_def or_flags_def)

lemma jump_to_env:
  assumes "length ws = 10" "\<forall>i < length (jmp_env m s). ws ! i = jmp_env m s ! i"
  shows "jumped m s s2 (jump_to ws s2)"
proof -
  obtain w0 w1 w2 w3 w4 w5 w6 w7 w8 w9 where ws: "ws = [w0, w1, w2, w3, w4, w5, w6, w7, w8, w9]"
    using assms(1) by (auto simp: numeral_eq_Suc length_Suc_conv)
  have w: "w0 = v_reg s 6" "w1 = v_reg s 7" "w2 = v_reg s 8" "w3 = v_reg s 9" "w4 = v_reg s 10" "w5 = v_pc s" "w6 = v_signal_depth s"
    "w7 = 0" "w8 = (if m \<noteq> 0 then 1 else 0)" "m \<noteq> 0 \<Longrightarrow> w9 = t_sigmask (k_task (v_sys s) (me s))"
    using assms(2) by (auto simp: ws jmp_env_def nth_Cons' dest: spec [of _ 0] spec [of _ 1] spec [of _ 2] spec [of _ 3] spec [of _ 4]
      spec [of _ 5] spec [of _ 6] spec [of _ 7] spec [of _ 8] spec [of _ 9])
  show ?thesis
    using w(10) by (auto simp: jumped_def jump_to_def ws w(1-9) Let_def restore_regs_def set_reg_def returned_def fun_eq_iff leave_kern_def
      set_mask_mask)
qed

lemma longjmp_jumps:
  fixes s2 :: "kern vm"
  assumes so: "step_ok st rest s0 s2" and r: "resolve (v_maps s2) (v_reg s2 1) 80 \<noteq> None"
    and w: "\<And>i. i < length (jmp_env m s) \<Longrightarrow> gword (mem_at s2) (v_reg s2 1 + of_nat (8 * i)) = Some (jmp_env m s ! i)"
  shows "runs st (do_siglongjmp s2) (\<lambda>(r, s3). r = (let v = arg_s32 (v_reg s2 2) in if v = 0 then 1 else v) \<and> step_ok st rest s0 s3 \<and> jumped m s s2 s3)"
  unfolding do_siglongjmp_def
proof (rule runs_bind [OF guest_words_get [OF so, of "jmp_env m s" 10 "v_reg s2 1"]])
  show "length (jmp_env m s) \<le> 10" by (rule jmp_env_length)
  fix x assume "case x of (q, s') \<Rightarrow> step_ok st rest s0 s' \<and> same_cpu s2 s' \<and> mem_at s' = mem_at s2
      \<and> (\<exists>vs. q = Some vs \<and> length vs = 10 \<and> (\<forall>i < length (jmp_env m s). vs ! i = jmp_env m s ! i))"
  then obtain s' vs where x: "x = (Some vs, s')" "step_ok st rest s0 s'" "same_cpu s2 s'" "mem_at s' = mem_at s2" "length vs = 10"
      "\<forall>i < length (jmp_env m s). vs ! i = jmp_env m s ! i" by (cases x) auto
  have "jumped m s s2 (jump_to vs s')"
    using jump_to_env [OF x(5,6), of s'] same_cpuD [OF x(3)] x(4) by (simp add: jumped_def)
  moreover have "step_ok st rest s0 (jump_to vs s')" using x(2) by (simp add: jump_to_def Let_def)
  ultimately show "runs st (case x of (env, s1) \<Rightarrow> case env of None \<Rightarrow> Some (- EFAULT, s1)
      | Some ws \<Rightarrow> Some (let val = arg_s32 (v_reg s2 2) in if val = 0 then 1 else val, jump_to ws s1))
      (\<lambda>(r, s3). r = (let v = arg_s32 (v_reg s2 2) in if v = 0 then 1 else v) \<and> step_ok st rest s0 s3 \<and> jumped m s s2 s3)"
    by (simp add: x(1))
qed (use r w in simp_all)

subsection \<open>Signal frames\<close>

lemma build_saves:
  fixes s :: "kern vm"
  assumes so: "step_ok st rest s0 s" and b: "build_siginfo s base i pc sp = Some s1"
  shows "unat (base + SIGINFO_FRAME_UC_OFF) + 264 < 2 ^ 64 \<and> (\<exists>g. mem_at s1 = gput (base + SIGINFO_FRAME_UC_OFF)
      (concat (map u64_bytes (ucontext_words (v_reg s) sp pc (t_sigmask (k_task (v_sys s) (me s)))))) g)"
proof -
  let ?a = "base + SIGINFO_FRAME_UC_OFF" and ?ws = "ucontext_words (v_reg s) sp pc (t_sigmask (k_task (v_sys s) (me s)))"
  obtain r1 t1 r2 t2 where t: "mmu_w s (base + SIGINFO_FRAME_SI_OFF) 128 = Some (r1, t1)" "mmu_w t1 ?a 264 = Some (r2, t2)"
    using b by (auto simp: build_siginfo_def bind_eq_Some_conv)
  obtain p q s3 where p: "r1 = Some p" "r2 = Some q" and k: "poke t2 p (concat (map u64_bytes (siginfo_words i))) = Some s3"
      "poke s3 q (concat (map u64_bytes ?ws)) = Some s1"
    using b t by (auto simp: build_siginfo_def bind_eq_Some_conv split: option.splits)
  have t1: "step_ok st rest s0 t1" "holds_at t1 p (base + SIGINFO_FRAME_SI_OFF) 128"
    using runs_result [OF holds_at_mmu_w [OF so] t(1)] p(1) by auto
  have t2: "step_ok st rest s0 t2" "holds_at t2 q ?a 264" "holds_at t2 p (base + SIGINFO_FRAME_SI_OFF) 128"
    using runs_result [OF holds_at_mmu_w [OF t1(1)] t(2)] p(2) t1(2) by auto
  have s3: "step_ok st rest s0 s3" "holds_at s3 q ?a 264"
    using runs_result [OF holds_at_poke [OF t2(1,3)] k(1)] t2(2) by (auto simp: frame_lengths holds_at_def)
  show ?thesis
    using runs_result [OF holds_at_poke [OF s3] k(2)] holds_at_bound(1) [OF s3] by (auto simp: frame_lengths)
qed

text \<open>What the return through the frame of s brings back.\<close>

definition sig_returned :: "u64 \<Rightarrow> kern vm \<Rightarrow> kern vm \<Rightarrow> kern vm \<Rightarrow> bool" where
  "sig_returned sp s s2 s3 \<longleftrightarrow> mem_at s3 = mem_at s2
     \<and> v_reg s3 = (\<lambda>n. if n \<le> 9 then v_reg s n else if n = 10 then sp else v_reg s2 n)
     \<and> t_sigmask (k_task (v_sys s3) (me s2)) = mask_bits (t_sigmask (k_task (v_sys s) (me s)))"

lemma restore_all:
  "v_reg (restore_regs [0..<11] (drop 5 (ucontext_words r sp pc mk)) s) = (\<lambda>n. if n \<le> 9 then r n else if n = 10 then sp else v_reg s n)"
proof -
  have u: "[0..<11] = [0, 1, 2, 3, 4, 5, 6, 7, 8, 9, 10 :: nat]" "[0..<10] = [0, 1, 2, 3, 4, 5, 6, 7, 8, 9 :: nat]" by (simp_all add: upt_rec)
  show ?thesis
    by (auto simp: restore_regs_def ucontext_words_def u set_reg_def fun_eq_iff numeral_eq_Suc le_Suc_eq)
qed

lemma ucontext_nth: "ucontext_words r sp pc mk ! 16 = pc" "ucontext_words r sp pc mk ! 17 = mk"
  by (simp_all add: ucontext_words_def nth_append)

lemma sigreturn_restores:
  fixes s2 :: "kern vm"
  assumes so: "step_ok st rest s0 s2" and r: "resolve (v_maps s2) (base + SIGINFO_FRAME_UC_OFF) 264 \<noteq> None"
    and w: "\<And>i. i < 33 \<Longrightarrow> gword (mem_at s2) (base + SIGINFO_FRAME_UC_OFF + of_nat (8 * i))
      = Some (ucontext_words (v_reg s) sp pc (t_sigmask (k_task (v_sys s) (me s))) ! i)"
  shows "runs st (sigreturn s2 base fb) (\<lambda>(pc', s3). pc' = pc \<and> step_ok st rest s0 s3 \<and> sig_returned sp s s2 s3)"
  unfolding sigreturn_def
proof (rule runs_bind [OF guest_words_get [OF so, of "ucontext_words (v_reg s) sp pc (t_sigmask (k_task (v_sys s) (me s)))" 33]])
  let ?ws = "ucontext_words (v_reg s) sp pc (t_sigmask (k_task (v_sys s) (me s)))"
  fix x assume "case x of (q, s') \<Rightarrow> step_ok st rest s0 s' \<and> same_cpu s2 s' \<and> mem_at s' = mem_at s2
      \<and> (\<exists>vs. q = Some vs \<and> length vs = 33 \<and> (\<forall>i < length ?ws. vs ! i = ?ws ! i))"
  then obtain s' vs where x: "x = (Some vs, s')" "step_ok st rest s0 s'" "same_cpu s2 s'" "mem_at s' = mem_at s2"
      "length vs = 33" "\<forall>i < length ?ws. vs ! i = ?ws ! i" by (cases x) auto
  have vs: "vs = ?ws" using x(5,6) by (intro nth_equalityI) (simp_all add: frame_lengths)
  show "runs st (case x of (uc, s1) \<Rightarrow> case uc of None \<Rightarrow> Some (fb, s1)
      | Some ws \<Rightarrow> Some (ws ! 16, (restore_regs [0..<11] (drop 5 ws) s1)\<lparr>v_sys := upd_task (me s2) (\<lambda>T. T\<lparr>t_sigmask := mask_bits (ws ! 17)\<rparr>) (v_sys s1)\<rparr>))
      (\<lambda>(pc', s3). pc' = pc \<and> step_ok st rest s0 s3 \<and> sig_returned sp s s2 s3)"
    using x(2,4) same_cpuD [OF x(3)] by (simp add: x(1) vs ucontext_nth sig_returned_def restore_all cong: if_cong)
qed (use r w in \<open>simp_all add: frame_lengths\<close>)

subsection \<open>The end of a machine\<close>

lemma destroyed_pages:
  assumes "m \<in> set ds" "m_owned m" "m_pages m q" "managed m" "hp_off (m_data m) mod 4096 = 0"
  shows "hpages (fold memmap_destroy ds h) q = None"
proof -
  have gone: "hpages h q = None \<Longrightarrow> hpages (memmap_destroy d h) q = None" for d h using destroy_pages [of d h q] by fastforce
  have mono: "hpages (fold memmap_destroy ds h) q = None" if "hpages h q = None" for ds h
    using that by (induction ds arbitrary: h) (auto simp: gone)
  have own: "hpages (memmap_destroy m h) q = None" for h
    using assms(2-5) by (auto simp: memmap_destroy_def DataDeleter_def m_pages_def host_munmap_def managed_def)
  show ?thesis using assms(1) by (induction ds arbitrary: h) (auto simp: own intro: mono)
qed

lemma clear_child_tid_step:
  fixes s :: "kern vm"
  assumes so: "step_ok st rest s0 s"
  shows "runs st (clear_child_tid s) (\<lambda>s1. step_ok st rest s0 s1 \<and> (\<forall>m \<in> set (v_maps s). m_owned m \<longrightarrow> m \<in> set (v_maps s1)))"
  unfolding clear_child_tid_def Let_def
proof (rule runs_if, simp add: so, rule runs_bind [OF mmu_w_step [OF so]], clarify, rule runs_option)
  fix r p and s1 :: "kern vm"
  assume s1: "step_ok st rest s0 s1" "\<forall>m \<in> set (v_maps s). m_cow m = None \<longrightarrow> m \<in> set (v_maps s1)"
  have kept: "m \<in> set (v_maps s1)" if "m \<in> set (v_maps s)" "m_owned m" for m
    using own_invD(2) [of "v_host s" "mset (v_maps s) + rest" m] so that s1(2)
    by (simp add: step_ok_def vm_ok_def mem_ok_def managed_def)
  then show "runs st (Some s1) (\<lambda>s1. step_ok st rest s0 s1 \<and> (\<forall>m \<in> set (v_maps s). m_owned m \<longrightarrow> m \<in> set (v_maps s1)))"
    using s1(1) by simp
  assume "r = Some p" "\<forall>p. r = Some p \<longrightarrow> (\<exists>m \<in> set (v_maps s1). covers m (t_tid_address (k_task (v_sys s) (me s))) 4 \<and>
      p = m_off m (t_tid_address (k_task (v_sys s) (me s))) \<and> m_owned m \<and> bit (m_flags m) PF_W)"
  then have h: "holds s1 p 4" by (auto simp: holds_at_def)
  show "runs st (poke s1 p (u32_bytes 0) \<bind> (\<lambda>s2. Some (s2\<lparr>v_sys := futex_child_tid_clear
      (t_tg (k_task (v_sys s) (me s)), t_tid_address (k_task (v_sys s) (me s))) (v_sys s2)\<rparr>)))
      (\<lambda>s1. step_ok st rest s0 s1 \<and> (\<forall>m \<in> set (v_maps s). m_owned m \<longrightarrow> m \<in> set (v_maps s1)))"
    by (rule runs_bind [OF hold_poke0 [OF s1(1) h]]) (use kept in auto)
qed

lemma fini_runs:
  assumes so: "step_ok st rest s0 s"
  shows "runs st (fini s) (\<lambda>s'. v_maps s' = [] \<and> mem_ok st (v_host s') rest \<and> isolated rest (v_host s0) (v_host s')
     \<and> (\<forall>m \<in> set (v_maps s). m_owned m \<and> hp_off (m_data m) mod 4096 = 0 \<longrightarrow> (\<forall>q. m_pages m q \<longrightarrow> hpages (v_host s') q = None)))"
  unfolding fini_def Let_def
proof (rule runs_bind [OF clear_child_tid_step [OF so]])
  fix s1 :: "kern vm"
  assume s1: "step_ok st rest s0 s1 \<and> (\<forall>m \<in> set (v_maps s). m_owned m \<longrightarrow> m \<in> set (v_maps s1))"
  then have "mem_ok st (v_host s1) (mset (v_maps s1) + rest)" by (simp add: step_ok_def vm_ok_def)
  moreover have "managed m" if "m \<in> set (v_maps s)" for m
    using own_invD(2) [of "v_host s" "mset (v_maps s) + rest" m] so that by (simp add: step_ok_def vm_ok_def mem_ok_def)
  ultimately
  show "runs st (Some (leave_kern (fini_task (me s) (enter_kern (release_maps (s1\<lparr>v_signal_depth := 0\<rparr>)))) (release_maps (s1\<lparr>v_signal_depth := 0\<rparr>))))
     (\<lambda>s'. v_maps s' = [] \<and> mem_ok st (v_host s') rest \<and> isolated rest (v_host s0) (v_host s')
     \<and> (\<forall>m \<in> set (v_maps s). m_owned m \<and> hp_off (m_data m) mod 4096 = 0 \<longrightarrow> (\<forall>q. m_pages m q \<longrightarrow> hpages (v_host s') q = None)))"
    using s1 mem_ok_destroy_all [of st "v_host s1" "v_maps s1" rest]
    by (auto simp: release_maps_def leave_kern_def step_ok_def isolated_def destroyed_pages)
qed

subsection \<open>A machine that makes a call\<close>

text \<open>The demonstration machine with the instruction call getpid, as task 1 of the demonstration kernel.\<close>

definition posix_host :: host where
  "posix_host = demo_host\<lparr>hval := put_bytes (Ptr 0 0) [0x85, 0, 0, 0, 14, 0, 0, 0] (\<lambda>_. 0)\<rparr>"

definition posix_vm :: "(nat \<Rightarrow> u64) \<Rightarrow> kern vm" where
  "posix_vm r = \<lparr>v_pc = 0x10000000, v_reg = r, v_flags = 0, v_insn_count = 0,
     v_tlb = (\<lambda>_. tlb_zero), v_maps = [demo_map], v_host = posix_host, v_signal_depth = 0,
     v_interp_insns = 0, v_tp = 0, v_restart_pc = 0, v_restart_nohand = False, v_raw_stack = False,
     v_insn_limit = 0, v_stack_limit = 512, v_sys = demo_kern, v_env = []\<rparr>"

text \<open>A host without files: paths do not exist, and descriptors have nothing to read.\<close>

definition demo_proc :: proc_env where
  "demo_proc = \<lparr>pr_cpus = 1, pr_uptime = ''1.00 0.00'', pr_argv = (\<lambda>_. []), pr_envp = (\<lambda>_. []), pr_maps = (\<lambda>_. []), pr_image = (\<lambda>_. None),
     pr_link = (\<lambda>_. None), pr_root = []\<rparr>"

definition demo_files :: file_env where
  "demo_files = \<lparr>fe_proc = (\<lambda>_. demo_proc), fe_flags = x86_flags, fe_fresh = (\<lambda>_. 10), fe_open = (\<lambda>_ _ _ _. 2), fe_reopen = (\<lambda>_ _ _. 2),
     fe_open_exe = (\<lambda>_ _ _. 2), fe_stat_exe = (\<lambda>_ _ _. (- 2, [])), fe_dup = (\<lambda>_ _. 0), fe_ptmx = (\<lambda>_. Inl 2), fe_tostop = (\<lambda>_ _. False),
     fe_path = (\<lambda>_ _ _. (- 2, [])), fe_fd = (\<lambda>_ _ _. (0, []))\<rparr>"

definition posix_demo_env :: posix_env where
  "posix_demo_env = \<lparr>pe_mm = demo_env, pe_fresh = (\<lambda>_. 10), pe_err = (\<lambda>_. 0), pe_rounds = (\<lambda>_ _. []), pe_fuel = 1, pe_now = (\<lambda>_. (0, 0)),
     pe_poll = (\<lambda>_ fds _. Inr (0, map (\<lambda>_. 0) fds)), pe_clock = (\<lambda>_ _. Inr (0, 0)), pe_sleep = (\<lambda>_ _ _ _. (0, (0, 0))), pe_random = (\<lambda>_ n. Inr (replicate n 4)),
     pe_prlimit = (\<lambda>_ _ _. Inr [1, 1]), pe_files = demo_files, pe_sendfile = (\<lambda>_ _ _ _ _. (0, 0)), pe_other = (\<lambda>s c. Some (- ENOSYS, s))\<rparr>"

lemma posix_own: "own_inv posix_host {#demo_other, demo_map#}"
  unfolding own_inv_def
  by (auto simp: own_count_def demo_pages managed_def cow_map_ok_def fresh_ids_def)
     (auto simp: posix_host_def demo_map_def demo_other_def demo_host_def)

lemma posix_vm_ok: "vm_ok st {#demo_other#} (posix_vm r)"
  using posix_own
  by (auto simp: vm_ok_def mem_ok_def posix_vm_def tlb_ok_def prot_ok_def demo_pages as_ok_def m_lo_def m_hi_def)
     (auto simp: posix_host_def demo_map_def demo_other_def demo_host_def)

lemmas posix_eval = posix_vm_def posix_host_def demo_host_def demo_map_def demo_kern_def

lemma posix_getpid: "map_option (\<lambda>(oc, s). (oc, v_reg s 0)) (step F (posix_checked posix_demo_env) (posix_vm ((\<lambda>_. 0)(10 := 0x10000800)))) = Some (Go, 1)"
  by (simp add: insn_eval mem_eval flag_defs posix_eval jmp_def call_insn_def do_syscall_def finish_syscall_def posix_checked_def
    posix_handler_def call_fits_def call_id_def posix_syscall_def do_getpid_def ret_def demo_task_def demo_tg_def)

subsection \<open>Properties\<close>



text \<open>
  C32: siglongjmp returns to the sigsetjmp that filled the buffer. When the buffer is still mapped and
  its 80 bytes are unchanged, the call always returns: r6 to r10, the program counter and the signal
  depth are those of the sigsetjmp, the other registers and the memory stay, the signal mask is the
  saved one if sigsetjmp was asked to save it and stays otherwise, and the value returned is the one
  given, with 1 in place of 0.
\<close>

theorem longjmp_returns_to_setjmp:
  assumes "vm_ok True rest s" "do_sigsetjmp s = Some (0, s1)"
    and "vm_ok True rest s2" "v_reg s2 1 = v_reg s 1" "resolve (v_maps s2) (v_reg s 1) 80 \<noteq> None"
    and "\<forall>i < 80. mem_at s2 (v_reg s 1 + of_nat i) = mem_at s1 (v_reg s 1 + of_nat i)"
  shows "\<exists>s3. do_siglongjmp s2 = Some (let v = arg_s32 (v_reg s2 2) in if v = 0 then 1 else v, s3) \<and> vm_ok True rest s3
     \<and> jumped (arg_s32 (v_reg s 2)) s s2 s3"
proof -
  let ?m = "arg_s32 (v_reg s 2)"
  have b: "unat (v_reg s 1) + 80 < 2 ^ 64" and g: "mem_at s1 = gput (v_reg s 1) (concat (map u64_bytes (jmp_env ?m s))) (mem_at s)"
    using runs_result [OF setjmp_saves [OF step_ok_refl [OF assms(1)]] assms(2)] by simp_all
  have l: "length (jmp_env ?m s) \<le> 10" by (rule jmp_env_length)
  have "gword (mem_at s2) (v_reg s2 1 + of_nat (8 * i)) = Some (jmp_env ?m s ! i)" if "i < length (jmp_env ?m s)" for i
    unfolding assms(4) by (rule kept_words [OF _ g _ that]) (use assms(6) b l in auto)
  from runs_strictD [OF longjmp_jumps [OF step_ok_refl [OF assms(3)] _ this]] assms(4,5)
  show ?thesis by (auto simp: step_ok_def)
qed

text \<open>The machine that saves its state at 0x10000100, and the jump back with other registers.\<close>

definition jmp_vm :: "kern vm" where
  "jmp_vm = posix_vm ((\<lambda>n. of_nat n)(1 := 0x10000100, 2 := 1, 10 := 0x10000800))"

lemma jmp_vm_ok: "vm_ok st {#demo_other#} jmp_vm"
  unfolding jmp_vm_def by (rule posix_vm_ok)

lemma jmp_vm_buffer: "map_option (\<lambda>(r, s). (r, v_maps s)) (mmu_w jmp_vm 0x10000100 80) = Some (Some (Ptr 0 256), [demo_map])"
  by (simp add: jmp_vm_def posix_eval mem_eval)

lemma jmp_vm_saves: "\<exists>s1. do_sigsetjmp jmp_vm = Some (0, s1) \<and> v_maps s1 = [demo_map] \<and> vm_ok True {#demo_other#} s1"
proof -
  obtain t where t: "mmu_w jmp_vm 0x10000100 80 = Some (Some (Ptr 0 256), t)" "v_maps t = [demo_map]"
    using jmp_vm_buffer by (auto simp: map_option_eq_Some)
  have "v_reg jmp_vm (Suc 0) = 0x10000100" by (simp add: jmp_vm_def posix_vm_def)
  then show ?thesis
    using runs_strictD [OF do_sigsetjmp_step [OF step_ok_refl [OF jmp_vm_ok]]] t
    by (auto simp: do_sigsetjmp_def poke_def step_ok_def)
qed

lemma longjmp_returns_to_setjmp_witness:
  "\<exists>s1 s3. do_sigsetjmp jmp_vm = Some (0, s1)
     \<and> do_siglongjmp (s1\<lparr>v_reg := (\<lambda>_. 0)(1 := 0x10000100, 2 := 7), v_pc := 0x10000040\<rparr>) = Some (7, s3)
     \<and> v_reg s3 6 = 6 \<and> v_reg s3 10 = 0x10000800 \<and> v_reg s3 3 = 0 \<and> v_pc s3 = 0x10000000"
proof -
  obtain s1 where s1: "do_sigsetjmp jmp_vm = Some (0, s1)" "v_maps s1 = [demo_map]" "vm_ok True {#demo_other#} s1"
    using jmp_vm_saves by blast
  have ok1: "vm_ok True {#demo_other#} (s1\<lparr>v_reg := (\<lambda>_. 0)(1 := 0x10000100, 2 := 7), v_pc := 0x10000040\<rparr>)" using s1(3) by (simp add: vm_ok_def)
  have r: "resolve (v_maps s1) 0x10000100 80 \<noteq> None" by (simp add: s1(2) demo_map_def resolve_def covers_def m_lo_def m_hi_def)
  from longjmp_returns_to_setjmp [OF jmp_vm_ok s1(1) ok1] r s1(1) show ?thesis
    by (auto simp: jmp_vm_def posix_vm_def jumped_def returned_def arg_s32_def)
qed

text \<open>
  C33: the return from a signal handler undoes its delivery. When the ucontext that the delivery wrote
  into the frame is still mapped and its 264 bytes are unchanged, the return goes to the saved program
  counter with r0 to r9 as they were, r10 at the interrupted stack pointer and the signal mask of the
  delivery without SIGKILL and SIGSTOP, and the memory stays.
\<close>

theorem sigreturn_undoes_delivery:
  assumes "vm_ok True rest s" "build_siginfo s base info pc sp = Some s1"
    and "vm_ok True rest s2" "resolve (v_maps s2) (base + SIGINFO_FRAME_UC_OFF) 264 \<noteq> None"
    and "\<forall>i < 264. mem_at s2 (base + SIGINFO_FRAME_UC_OFF + of_nat i) = mem_at s1 (base + SIGINFO_FRAME_UC_OFF + of_nat i)"
  shows "\<exists>s3. sigreturn s2 base fallback_pc = Some (pc, s3) \<and> vm_ok True rest s3 \<and> sig_returned sp s s2 s3"
proof -
  let ?a = "base + SIGINFO_FRAME_UC_OFF" and ?ws = "ucontext_words (v_reg s) sp pc (t_sigmask (k_task (v_sys s) (me s)))"
  obtain g where b: "unat ?a + 264 < 2 ^ 64" and g: "mem_at s1 = gput ?a (concat (map u64_bytes ?ws)) g"
    using build_saves [OF step_ok_refl [OF assms(1)] assms(2)] by blast
  have l: "length ?ws = 33" by (rule frame_lengths)
  have "gword (mem_at s2) (?a + of_nat (8 * i)) = Some (?ws ! i)" if "i < 33" for i
    by (rule kept_words [OF _ g]) (use assms(5) b l that in auto)
  from runs_strictD [OF sigreturn_restores [OF step_ok_refl [OF assms(3)] assms(4) this]]
  show ?thesis by (auto simp: step_ok_def)
qed

lemma frame_pointers:
  "(do { (r, s1) \<leftarrow> mmu_w jmp_vm (0x10000100 + SIGINFO_FRAME_SI_OFF) 128; (q, s2) \<leftarrow> mmu_w s1 (0x10000100 + SIGINFO_FRAME_UC_OFF) 264; Some (r, q, v_maps s2) })
     = Some (Some (Ptr 0 0x180), Some (Ptr 0 0x200), [demo_map])"
  by (simp add: jmp_vm_def posix_eval mem_eval frame_consts)

lemma frame_built:
  "\<exists>s1. build_siginfo jmp_vm 0x10000100 no_signal 0x10000008 0x10000800 = Some s1 \<and> v_maps s1 = [demo_map] \<and> vm_ok True {#demo_other#} s1"
proof -
  let ?a = "0x10000100 + SIGINFO_FRAME_SI_OFF" and ?b = "0x10000100 + SIGINFO_FRAME_UC_OFF"
  obtain t1 t2 where t: "mmu_w jmp_vm ?a 128 = Some (Some (Ptr 0 0x180), t1)" "mmu_w t1 ?b 264 = Some (Some (Ptr 0 0x200), t2)" "v_maps t2 = [demo_map]"
    using frame_pointers by (auto simp: bind_eq_Some_conv)
  note so = step_ok_refl [OF jmp_vm_ok [of True]]
  have t1: "step_ok True {#demo_other#} jmp_vm t1" "holds t1 (Ptr 0 0x180) 128"
    using runs_result [OF hold_step [OF so] t(1)] by auto
  have t2: "step_ok True {#demo_other#} jmp_vm t2" "holds t2 (Ptr 0 0x180) 128" "holds t2 (Ptr 0 0x200) 264"
    using runs_result [OF hold_mmu_w [OF t1(1)] t(2)] t1(2) by auto
  note two = runs_strictD [OF two_pokes_step [OF t2]]
  obtain s1 where "build_siginfo jmp_vm 0x10000100 no_signal 0x10000008 0x10000800 = Some s1" "step_ok True {#demo_other#} jmp_vm s1"
    using two [of "concat (map u64_bytes (siginfo_words no_signal))"
        "concat (map u64_bytes (ucontext_words (v_reg jmp_vm) 0x10000800 0x10000008 (t_sigmask (k_task (v_sys jmp_vm) (me jmp_vm)))))"] t
    by (auto simp: build_siginfo_def frame_lengths)
  then show ?thesis using t by (auto simp: build_siginfo_def poke_def step_ok_def bind_eq_Some_conv)
qed

lemma sigreturn_undoes_delivery_witness:
  "\<exists>s1 s3. build_siginfo jmp_vm 0x10000100 no_signal 0x10000008 0x10000800 = Some s1
     \<and> sigreturn (s1\<lparr>v_reg := (\<lambda>_. 0)\<rparr>) 0x10000100 0 = Some (0x10000008, s3)
     \<and> v_reg s3 1 = 0x10000100 \<and> v_reg s3 9 = 9 \<and> v_reg s3 10 = 0x10000800"
proof -
  obtain s1 where s1: "build_siginfo jmp_vm 0x10000100 no_signal 0x10000008 0x10000800 = Some s1" "v_maps s1 = [demo_map]"
      "vm_ok True {#demo_other#} s1" using frame_built by blast
  have ok1: "vm_ok True {#demo_other#} (s1\<lparr>v_reg := (\<lambda>_. 0)\<rparr>)" using s1(3) by (simp add: vm_ok_def)
  have r: "resolve (v_maps s1) (0x10000100 + SIGINFO_FRAME_UC_OFF) 264 \<noteq> None"
    by (simp add: s1(2) demo_map_def resolve_def covers_def m_lo_def m_hi_def frame_consts)
  from sigreturn_undoes_delivery [OF jmp_vm_ok s1(1) ok1, of 0] r s1(1) show ?thesis
    by (auto simp: jmp_vm_def posix_vm_def sig_returned_def)
qed



end
