(* ===== verification/Posix_System.thy ===== *)
theory Posix_System
  imports Posix_Clone_Props Posix_Machine_Claims
begin

text \<open>
  A system of processes: machines with address spaces of their own over one host and one kernel.
  Its steps are a round of one machine, a clone without CLONE_VM and the end of a machine, in any
  order; the host threads of the program interleave them in this way. A clone may happen at any
  moment of a machine, which allows more than the call instruction does.
\<close>

subsection \<open>States and steps\<close>

record system =
  sy_host :: host
  sy_kern :: kern
  sy_vms :: "(nat \<times> kern vm) list"

text \<open>The machine of task t with the shared host and kernel, and the way back.\<close>

definition load :: "system \<Rightarrow> nat \<Rightarrow> kern vm \<Rightarrow> kern vm" where
  "load Y t m = m\<lparr>v_host := sy_host Y, v_sys := (sy_kern Y)\<lparr>k_me := t\<rparr>, v_flags := t_flags (k_task (sy_kern Y) t)\<rparr>"

definition unload :: "nat \<Rightarrow> kern vm \<Rightarrow> (nat \<times> kern vm) list \<Rightarrow> system" where
  "unload t s vms = \<lparr>sy_host = v_host s, sy_kern = upd_task t (\<lambda>T. T\<lparr>t_flags := v_flags s\<rparr>) (v_sys s), sy_vms = vms\<rparr>"

fun children :: "kern vm option \<Rightarrow> (nat \<times> kern vm) list" where
  "children None = []"
| "children (Some c) = [(me c, c)]"

text \<open>What the interpreter does with the result of a call.\<close>

definition returns :: "int \<Rightarrow> kern vm \<Rightarrow> kern vm" where
  "returns r s = (set_reg 0 (word_of_int r) s)\<lparr>v_pc := v_pc s + 8\<rparr>"

inductive sys_step :: "fpu \<Rightarrow> posix_env \<Rightarrow> nat \<Rightarrow> system \<Rightarrow> system \<Rightarrow> bool" for F E where
  run: "\<lbrakk>sy_vms Y = xs @ (t, m) # ys; turn F (posix_checked E) (load Y t m) s\<rbrakk> \<Longrightarrow> sys_step F E t Y (unload t s (xs @ (t, s) # ys))"
| clone: "\<lbrakk>sy_vms Y = xs @ (t, m) # ys; \<not> bit (v_reg m 1) CLONE_VM; do_clone E rc (load Y t m) = Some (r, s, ch)\<rbrakk>
    \<Longrightarrow> sys_step F E t Y (unload t s (xs @ (t, returns r s) # ys @ children ch))"
| finish: "\<lbrakk>sy_vms Y = xs @ (t, m) # ys; fini (load Y t m) = Some s\<rbrakk> \<Longrightarrow> sys_step F E t Y (unload t s (xs @ ys))"

inductive sys_run :: "fpu \<Rightarrow> posix_env \<Rightarrow> nat list \<Rightarrow> system \<Rightarrow> system \<Rightarrow> bool" for F E where
  sys_here: "sys_run F E [] Y Y"
| sys_more: "\<lbrakk>sys_step F E t Y Y1; sys_run F E ts Y1 Y2\<rbrakk> \<Longrightarrow> sys_run F E (t # ts) Y Y2"

subsection \<open>The invariant of a system\<close>

definition all_maps :: "(nat \<times> kern vm) list \<Rightarrow> memmap multiset" where
  "all_maps vms = (\<Sum>(t, m) \<leftarrow> vms. mset (v_maps m))"

definition space_ok :: "kern vm \<Rightarrow> bool" where
  "space_ok m \<longleftrightarrow> as_ok (v_maps m) \<and> tlb_ok (v_maps m) (v_tlb m)"

definition sys_ok :: "system \<Rightarrow> bool" where
  "sys_ok Y \<longleftrightarrow> mem_ok False (sy_host Y) (all_maps (sy_vms Y)) \<and> (\<forall>(t, m) \<in> set (sy_vms Y). space_ok m)"

lemma all_maps_simps [simp]:
  "all_maps [] = {#}" "all_maps ((t, m) # xs) = mset (v_maps m) + all_maps xs" "all_maps (xs @ ys) = all_maps xs + all_maps ys"
  by (simp_all add: all_maps_def)

lemma all_maps_in: "(u, m) \<in> set xs \<Longrightarrow> mset (v_maps m) \<subseteq># all_maps xs"
proof (induction xs)
  case (Cons x xs)
  then show ?case by (cases x) (auto simp: subset_mset.le_iff_add intro: add.left_commute)
qed simp

lemma load_ok:
  assumes "sys_ok Y" "sy_vms Y = xs @ (t, m) # ys"
  shows "vm_ok False (all_maps (xs @ ys)) (load Y t m)"
  using assms by (simp add: sys_ok_def space_ok_def load_def vm_ok_def ac_simps)

lemma unload_ok:
  assumes "mem_ok False (v_host s) (all_maps vms)" "\<forall>(u, m) \<in> set vms. space_ok m"
  shows "sys_ok (unload t s vms)"
  using assms by (simp add: sys_ok_def unload_def)

text \<open>What a step must leave of the machines of the other tasks.\<close>

definition others_kept :: "nat \<Rightarrow> system \<Rightarrow> system \<Rightarrow> bool" where
  "others_kept t Y Y' \<longleftrightarrow> (\<forall>(u, m) \<in> set (sy_vms Y). u \<noteq> t \<longrightarrow> (u, m) \<in> set (sy_vms Y') \<and> gbyte (sy_host Y') (v_maps m) = gbyte (sy_host Y) (v_maps m))"

lemma others_keptI:
  assumes "sys_ok Y" "sy_vms Y = xs @ (t, m) # ys" "isolated (all_maps (xs @ ys)) (sy_host Y) (v_host s)" "set (xs @ ys) \<subseteq> set vms"
  shows "others_kept t Y (unload t s vms)"
proof -
  have "gbyte (v_host s) (v_maps x) = gbyte (sy_host Y) (v_maps x)" if "(u, x) \<in> set (xs @ ys)" for u x
  proof (rule isolated_view [OF assms(3) all_maps_in [OF that]])
    show "as_ok (v_maps x)" using assms(1,2) that by (auto simp: sys_ok_def space_ok_def)
  qed
  then show ?thesis using assms(2,4) by (fastforce simp: others_kept_def unload_def)
qed

lemma sys_step_kept:
  assumes E: "\<forall>rest s c. vm_ok False rest s \<longrightarrow> runs False (pe_other E s c) (\<lambda>(r, s'). step_ok False rest s s')"
    and ok: "sys_ok Y" and step: "sys_step F E t Y Y'"
  shows "sys_ok Y' \<and> others_kept t Y Y'"
  using step
proof cases
  case (run xs m ys s)
  note l = load_ok [OF ok run(2)]
  have "other_calls E" by unfold_locales (use E in blast)
  then have so: "step_ok False (all_maps (xs @ ys)) (load Y t m) s"
    using other_calls.posix_reaches [OF _ l reaches.more [OF reaches.here run(3)]] by blast
  have sp: "\<forall>(u, x) \<in> set (xs @ (t, s) # ys). space_ok x"
    using ok so run(2) by (auto simp: sys_ok_def step_ok_def vm_ok_def space_ok_def)
  have "sys_ok Y'" unfolding run(1) by (rule unload_ok [OF _ sp]) (use so in \<open>simp add: step_ok_def vm_ok_def ac_simps\<close>)
  moreover have "others_kept t Y Y'" unfolding run(1)
    by (rule others_keptI [OF ok run(2)]) (use so in \<open>auto simp: step_ok_def load_def\<close>)
  ultimately show ?thesis by blast
next
  case (clone xs m ys rc r s ch)
  note l = load_ok [OF ok clone(2)]
  have "\<not> bit (v_reg (load Y t m) 1) CLONE_VM" using clone(3) by (simp add: load_def)
  from runs_result [OF do_clone_runs [OF l this] clone(4)]
  have post: "case ch of None \<Rightarrow> step_ok False (all_maps (xs @ ys)) (load Y t m) s | Some c \<Rightarrow> forked False (all_maps (xs @ ys)) (load Y t m) s c"
    by simp
  then have sp: "\<forall>(u, x) \<in> set (xs @ (t, returns r s) # ys @ children ch). space_ok x"
    using ok clone(2) by (cases ch) (auto simp: sys_ok_def step_ok_def forked_def vm_ok_def space_ok_def returns_def)
  have "mem_ok False (v_host s) (all_maps (xs @ (t, returns r s) # ys @ children ch))"
    using post by (cases ch) (simp_all add: step_ok_def forked_def vm_ok_def returns_def ac_simps)
  then have "sys_ok Y'" unfolding clone(1) by (rule unload_ok [OF _ sp])
  moreover have "others_kept t Y Y'" unfolding clone(1)
    by (rule others_keptI [OF ok clone(2)]) (use post in \<open>auto simp: step_ok_def forked_def load_def split: option.splits\<close>)
  ultimately show ?thesis by blast
next
  case (finish xs m ys s)
  note l = load_ok [OF ok finish(2)]
  note f = runs_result [OF fini_runs [OF step_ok_refl [OF l]] finish(3)]
  have "\<forall>(u, x) \<in> set (xs @ ys). space_ok x" using ok finish(2) by (auto simp: sys_ok_def)
  then have "sys_ok Y'" unfolding finish(1) by (intro unload_ok) (use f in simp_all)
  moreover have "others_kept t Y Y'" unfolding finish(1)
    by (rule others_keptI [OF ok finish(2)]) (use f in \<open>auto simp: load_def\<close>)
  ultimately show ?thesis by blast
qed

end
