(* ===== verification/Posix_System_Claims.thy ===== *)
theory Posix_System_Claims
  imports Posix_System
begin

text \<open>
  The memory of a system of processes: what fork does, and that processes never reach each other's
  memory, whatever the order in which they run.
\<close>

subsection \<open>A system of two processes\<close>

definition two_procs :: system where
  "two_procs = \<lparr>sy_host = posix_host, sy_kern = demo_kern,
     sy_vms = [(1, posix_vm ((\<lambda>_. 0)(10 := 0x10000800))), (2, (posix_vm (\<lambda>_. 0))\<lparr>v_maps := [demo_other]\<rparr>)]\<rparr>"

lemma two_procs_ok: "sys_ok two_procs"
  using posix_vm_ok [of False "\<lambda>_. 0"]
  by (auto simp: two_procs_def sys_ok_def space_ok_def vm_ok_def posix_vm_def as_ok_def m_lo_def m_hi_def add_mset_commute)
     (simp_all add: demo_other_def demo_map_def)

lemma two_procs_load: "load two_procs 1 (posix_vm r) = posix_vm r"
  by (simp add: load_def two_procs_def posix_vm_def demo_kern_def demo_task_def)

lemma demo_other_calls: "vm_ok False rest s \<longrightarrow> runs False (pe_other posix_demo_env s c) (\<lambda>(r, s'). step_ok False rest s s')"
  by (simp add: posix_demo_env_def step_ok_refl)

subsection \<open>Properties\<close>



text \<open>
  C36: fork gives the child the memory of the parent. A clone without CLONE_VM always returns. With a
  child, the two machines are well-formed beside each other over the same host, the child sees the
  bytes that the parent saw and starts behind the call with r0 cleared and the new stack pointer if
  one was given; without one, the parent is as well-formed as before. The memory of the parent stays
  unless the call asks for a store into it, and the other address spaces keep their bytes.
\<close>

theorem fork_copies_memory:
  assumes "vm_ok True rest s" "\<not> bit (v_reg s 1) CLONE_VM"
  shows "\<exists>r s' ch. do_clone E rc s = Some (r, s', ch) \<and> (quiet s \<longrightarrow> mem_at s' = mem_at s)
     \<and> (case ch of None \<Rightarrow> step_ok True rest s s' | Some c \<Rightarrow> forked True rest s s' c)"
  using runs_strictD [OF do_clone_runs [OF assms]] by auto

lemma fork_copies_memory_witness:
  "\<exists>r s' c. do_clone posix_demo_env 0 (posix_vm (\<lambda>_. 0)) = Some (r, s', Some c) \<and> mem_at c = mem_at (posix_vm (\<lambda>_. 0)) \<and> mem_at s' = mem_at c"
proof -
  have nv: "\<not> bit (v_reg (posix_vm (\<lambda>_. 0)) 1) CLONE_VM" by (simp add: posix_vm_def)
  obtain r s' ch where d: "do_clone posix_demo_env 0 (posix_vm (\<lambda>_. 0)) = Some (r, s', ch)" "quiet (posix_vm (\<lambda>_. 0)) \<longrightarrow> mem_at s' = mem_at (posix_vm (\<lambda>_. 0))"
      "case ch of None \<Rightarrow> step_ok True {#demo_other#} (posix_vm (\<lambda>_. 0)) s' | Some c \<Rightarrow> forked True {#demo_other#} (posix_vm (\<lambda>_. 0)) s' c"
    using fork_copies_memory [OF posix_vm_ok nv] by blast
  have q: "quiet (posix_vm (\<lambda>_. 0))" by (simp add: quiet_def posix_vm_def)
  have "ch \<noteq> None"
    using d(1) by (auto simp: do_clone_def posix_vm_def demo_kern_def store_if_def Let_def demo_task_def split: prod.splits)
  then show ?thesis using d q by (auto simp: forked_def)
qed

end
