(* ===== verification/Posix_Path_Props.thy ===== *)
theory Posix_Path_Props
  imports Posix_Path
begin

text \<open>
  Normal paths have no dots, normalising twice is normalising once, and the host path of a normal
  path of the guest lies below the root directory of the process.
\<close>

subsection \<open>Names of a path\<close>

lemma split_at_nonempty [simp]: "split_at c xs \<noteq> []"
  by (induction xs) (auto split: list.splits)

lemma split_at_append: "split_at c (xs @ c # ys) = split_at c xs @ split_at c ys"
  by (induction xs) (auto split: list.splits dest: split_at_nonempty [THEN notE])

lemma split_at_no [simp]: "c \<notin> set xs \<Longrightarrow> split_at c xs = [xs]"
  by (induction xs) auto

lemma split_at_parts: "w \<in> set (split_at c xs) \<Longrightarrow> c \<notin> set w"
  by (induction xs arbitrary: w) (auto split: list.splits if_splits)

lemma path_names_simps [simp]:
  "path_names [] = []" "path_names (slash # p) = path_names p" "path_names (p @ slash # q) = path_names p @ path_names q"
  "path_names (p @ [slash]) = path_names p"
  using split_at_append [of slash p "[]"] by (simp_all add: path_names_def split_at_append)

definition name_ok :: "string \<Rightarrow> bool" where
  "name_ok n \<longleftrightarrow> n \<noteq> [] \<and> slash \<notin> set n"

lemma path_names_ok: "list_all name_ok (path_names p)"
  using split_at_parts by (auto simp: path_names_def list_all_iff name_ok_def)

lemma path_names_name [simp]: "name_ok n \<Longrightarrow> path_names n = [n]"
  by (simp add: name_ok_def path_names_def)

lemma path_names_join [simp]: "list_all name_ok ns \<Longrightarrow> path_names (join_names ns) = ns"
  by (induction ns rule: join_names.induct) auto

subsection \<open>Normal paths\<close>

lemma normal_names_ok: "list_all name_ok st \<Longrightarrow> list_all name_ok ns \<Longrightarrow> list_all name_ok (normal_names ab st ns)"
  by (induction ab st ns rule: normal_names.induct) (auto simp: name_ok_def split: list.splits)

lemma normal_names_down:
  "dot \<notin> set st \<Longrightarrow> dotdot \<notin> set st \<Longrightarrow> dot \<notin> set (normal_names True st ns) \<and> dotdot \<notin> set (normal_names True st ns)"
  by (induction "True" st ns rule: normal_names.induct) (auto split: list.splits)

lemma normal_names_same: "dot \<notin> set ns \<Longrightarrow> dotdot \<notin> set ns \<Longrightarrow> normal_names ab st ns = rev st @ ns"
  by (induction ns arbitrary: st) auto

lemma normal_names_path: "list_all name_ok (normal_names ab [] (path_names p))"
  by (rule normal_names_ok) (simp_all add: path_names_ok)

lemma lexically_normal_names:
  assumes "is_absolute p"
  shows "path_names (lexically_normal p) = normal_names True [] (path_names p)" "is_absolute (lexically_normal p)"
  using assms normal_names_path [of True p] by (auto simp: lexically_normal_def Let_def is_absolute_def)

lemma lexically_normal_down: "is_absolute p \<Longrightarrow> goes_down (lexically_normal p)"
  using normal_names_down [of "[]"] by (simp add: goes_down_def lexically_normal_names)

lemma last_join: "ns \<noteq> [] \<Longrightarrow> list_all name_ok ns \<Longrightarrow> join_names ns \<noteq> [] \<and> last (join_names ns) \<noteq> slash"
proof (induction ns rule: join_names.induct)
  case (2 n)
  then show ?case using last_in_set [of n] by (auto simp: name_ok_def simp del: last_in_set)
qed auto

lemma lexically_normal_idem:
  assumes "is_absolute p"
  shows "lexically_normal (lexically_normal p) = lexically_normal p"
proof -
  let ?q = "lexically_normal p" and ?ns = "normal_names True [] (path_names p)"
  let ?d = "last p = slash \<or> (path_names p \<noteq> [] \<and> (last (path_names p) = dot \<or> last (path_names p) = dotdot))"
  have nd: "dot \<notin> set ?ns" "dotdot \<notin> set ?ns" using normal_names_down [of "[]" "path_names p"] by simp_all
  have q: "?q = slash # join_names ?ns @ (if ?ns \<noteq> [] \<and> ?d then [slash] else [])"
  proof (cases "?ns = []")
    case False
    then have "last ?ns \<noteq> dotdot" using nd(2) last_in_set by metis
    then show ?thesis using assms by (simp add: lexically_normal_def Let_def is_absolute_def)
  qed (use assms in \<open>simp add: lexically_normal_def Let_def is_absolute_def\<close>)
  have ls: "last ?q = slash \<longleftrightarrow> ?ns = [] \<or> ?d"
    using last_join [OF _ normal_names_path [of True p]] by (auto simp: q)
  have "?ns \<noteq> [] \<Longrightarrow> last ?ns \<noteq> dot \<and> last ?ns \<noteq> dotdot" using nd last_in_set by metis
  then have "lexically_normal ?q = slash # join_names ?ns @ (if ?ns \<noteq> [] \<and> last ?q = slash then [slash] else [])"
    using lexically_normal_names [OF assms] normal_names_same [OF nd, of True "[]"]
    by (auto simp: lexically_normal_def [of ?q] Let_def is_absolute_def)
  then show ?thesis using ls q by auto
qed

lemma strip_rev_names: "is_absolute (rev p) \<Longrightarrow> path_names (rev (strip_rev p)) = path_names (rev p) \<and> is_absolute (rev (strip_rev p))"
proof (induction p rule: strip_rev.induct)
  case (1 a b xs)
  have "is_absolute (rev (b # xs))" using 1(2) by (cases "rev xs") (auto simp: is_absolute_def)
  then show ?case using 1 by (auto simp del: rev.simps(2) simp: rev.simps(2) [of a "b # xs"])
qed auto

lemma strip_slashes_down: "goes_down p \<Longrightarrow> goes_down (strip_slashes p)"
  using strip_rev_names [of "rev p"] by (simp add: goes_down_def strip_slashes_def)

subsection \<open>Paths of the guest and of the host\<close>

text \<open>Working directories and the paths of descriptors are absolute where they are known.\<close>

definition paths_ok :: "kern \<Rightarrow> SharedState \<Rightarrow> bool" where
  "paths_ok k S \<longleftrightarrow> (ps_cwd S = [] \<or> is_absolute (ps_cwd S)) \<and> (\<forall>i \<in> snd ` set (ps_fds S). fd_path (k_fd k i) = [] \<or> is_absolute (fd_path (k_fd k i)))"

lemma base_path_absolute: "paths_ok k S \<Longrightarrow> is_absolute (base_path k S dirfd)"
  by (auto simp: base_path_def paths_ok_def Let_def find_fd_def is_absolute_def split: option.splits dest!: map_of_SomeD)

lemma path_append_absolute: "is_absolute p \<Longrightarrow> is_absolute (path_append p q)"
  by (auto simp: path_append_def is_absolute_def)

lemma guest_abs_path_down:
  assumes "paths_ok k S" "path \<noteq> []"
  shows "goes_down (guest_abs_path k S path dirfd)"
proof -
  have "goes_down (lexically_normal (if is_absolute path then path else path_append (base_path k S dirfd) path))"
    using lexically_normal_down path_append_absolute [OF base_path_absolute [OF assms(1)]] by simp
  then show ?thesis using assms(2) by (auto simp: guest_abs_path_def Let_def goes_down_def is_absolute_def)
qed

lemma host_of_below:
  assumes "goes_down root" "goes_down g"
  shows "path_names (host_of root g) = path_names root @ path_names g"
proof -
  obtain g' where g: "g = slash # g'" using assms(2) by (cases g) (auto simp: goes_down_def is_absolute_def)
  have "is_absolute (root @ g)" using assms(1) by (auto simp: goes_down_def is_absolute_def)
  then have "path_names (lexically_normal (root @ g)) = normal_names True [] (path_names root @ path_names g)"
    by (simp add: lexically_normal_names g)
  also have "\<dots> = path_names root @ path_names g"
    using assms by (subst normal_names_same) (auto simp: goes_down_def)
  finally show ?thesis using assms by (auto simp: host_of_def g goes_down_def is_absolute_def)
qed

lemma resolve_below:
  assumes "goes_down root" "goes_down g"
  shows "below root (pa_host (ResolvePath root g))" "goes_down (pa_guest (ResolvePath root g))"
proof -
  have "below root (host_of root x)" if "goes_down x" for x
    using that host_of_below [OF assms(1) that] by (auto simp: below_def goes_down_def)
  then show "below root (pa_host (ResolvePath root g))"
    using assms(2) strip_slashes_down [OF assms(2)] by (simp add: ResolvePath_def make_path_def)
  show "goes_down (pa_guest (ResolvePath root g))"
    using assms(2) strip_slashes_down [OF assms(2)] by (simp add: ResolvePath_def make_path_def)
qed

end
