(* ===== verification/Posix_Procfs_Props.thy ===== *)
theory Posix_Procfs_Props
  imports Posix_Procfs Posix_Path_Props
begin

text \<open>
  The walk through /proc: where it comes out it leaves a path without dots, it returns when the links
  of the tasks lead out of /proc, and it never returns for a working directory that is reached
  through itself.
\<close>

subsection \<open>Decimal names\<close>

lemma digit_char_digit: "d < 10 \<Longrightarrow> is_digit (digit_char d) \<and> of_char (digit_char d) - 48 = d"
  by (simp add: digit_char_def is_digit_def)

lemma digits_value_snoc: "digits_value (xs @ [c]) = 10 * digits_value xs + (of_char c - 48)"
  by (simp add: digits_value_def)

lemma nat_string_digits: "nat_string n \<noteq> [] \<and> list_all is_digit (nat_string n) \<and> digits_value (nat_string n) = n"
proof (induction n rule: nat_string.induct)
  case (1 n)
  show ?case
  proof (cases "n < 10")
    case True
    then show ?thesis using digit_char_digit [of n] by (simp add: nat_string.simps [of n] digits_value_def)
  next
    case False
    then show ?thesis using 1 digit_char_digit [of "n mod 10"] by (simp add: nat_string.simps [of n] digits_value_snoc)
  qed
qed

lemma u64_string_eq [simp]: "u64_string p = u64_string q \<longleftrightarrow> p = q"
  by (metis nat_string_digits u64_string_def word_unat_eq_iff)

lemma u64_string_ok: "name_ok (u64_string p)" "u64_string p \<noteq> dot" "u64_string p \<noteq> dotdot" "\<not> is_digit c \<Longrightarrow> u64_string p \<noteq> c # cs"
proof -
  note d = nat_string_digits [of "unat p"]
  show "name_ok (u64_string p)" using d by (auto simp: name_ok_def u64_string_def list_all_iff is_digit_def)
  show "u64_string p \<noteq> dot" "u64_string p \<noteq> dotdot" "\<not> is_digit c \<Longrightarrow> u64_string p \<noteq> c # cs"
    using d by (auto simp: u64_string_def is_digit_def)
qed

subsection \<open>Maps\<close>

lemma map_of_insort: "fst e \<notin> fst ` set m \<Longrightarrow> map_of (insort_key fst e m) = (map_of m)(fst e \<mapsto> snd e)"
  by (induction m) (auto simp: fun_upd_twist)

lemma map_of_emplace: "map_of (emplace e m) x = (case map_of m x of Some v \<Rightarrow> Some v | None \<Rightarrow> if x = fst e then Some (snd e) else None)"
proof (cases "fst e \<in> fst ` set m")
  case False
  then have "map_of m (fst e) = None" by (simp add: map_of_eq_None_iff)
  then show ?thesis using False by (auto simp: emplace_def map_of_insort split: option.split)
qed (auto simp: emplace_def map_of_eq_None_iff split: option.split)

lemma map_of_std_map [simp]: "map_of (std_map es) = map_of es"
proof -
  have "map_of (fold emplace es m) x = (case map_of m x of Some v \<Rightarrow> Some v | None \<Rightarrow> map_of es x)" for m x
    by (induction es arbitrary: m) (auto simp: map_of_emplace split: option.splits)
  then show ?thesis by (auto simp: std_map_def)
qed

subsection \<open>Links\<close>

lemma parent_path_absolute: "is_absolute (parent_path p)"
  by (simp add: parent_path_def is_absolute_def)

lemma list_all_tl: "list_all P xs \<Longrightarrow> list_all P (tl xs)"
  by (cases xs) auto

lemma resolve_target_down: "goes_down (resolve_target p l)"
  unfolding resolve_target_def by (rule lexically_normal_down) (simp add: path_append_absolute parent_path_absolute)

definition plain_name :: "string \<Rightarrow> bool" where
  "plain_name n \<longleftrightarrow> name_ok n \<and> n \<noteq> dot \<and> n \<noteq> dotdot"

lemma goes_down_names: "goes_down p \<longleftrightarrow> is_absolute p \<and> list_all plain_name (path_names p)"
  using path_names_ok [of p] by (auto simp: goes_down_def list_all_iff plain_name_def)

lemma path_names_append: "\<lbrakk>is_absolute p; plain_name n\<rbrakk> \<Longrightarrow> path_names (path_append p n) = path_names p @ [n]"
proof -
  assume p: "is_absolute p" "plain_name n"
  then have na: "\<not> is_absolute n" using list.set_sel(1) [of n] by (auto simp: plain_name_def name_ok_def is_absolute_def simp del: list.set_sel(1) hd_in_set)
  show ?thesis
  proof (cases "last p = slash")
    case True
    then obtain q where "p = q @ [slash]" using p(1) by (metis append_butlast_last_id is_absolute_def)
    then show ?thesis using p na by (simp add: path_append_def plain_name_def)
  qed (use p na in \<open>auto simp: path_append_def plain_name_def is_absolute_def\<close>)
qed

lemma append_names_down: "\<lbrakk>goes_down p; list_all plain_name ns\<rbrakk> \<Longrightarrow> goes_down (foldl path_append p ns)"
  by (induction ns arbitrary: p) (auto simp: goes_down_names path_names_append path_append_absolute)

lemma after_proc_names: "list_all plain_name (path_names (''/proc'' @ y)) \<Longrightarrow> list_all plain_name (tl (path_names y))"
proof -
  assume *: "list_all plain_name (path_names (''/proc'' @ y))"
  obtain w ws where y: "split_at slash y = w # ws" by (metis split_at_nonempty neq_Nil_conv)
  have "path_names (''/proc'' @ y) = (''proc'' @ w) # filter (\<lambda>w. w \<noteq> []) ws" by (simp add: path_names_def y)
  then have "list_all plain_name (filter (\<lambda>w. w \<noteq> []) ws)" using * by simp
  then show ?thesis using list_all_tl by (auto simp: path_names_def y)
qed

lemma drop_proc: "has_prefix ''/proc'' p \<Longrightarrow> p = ''/proc'' @ drop 5 p"
  using append_take_drop_id [of 5 p] by (simp add: has_prefix_def eval_nat_numeral)

subsection \<open>Where the walk comes out\<close>

lemma follow_names:
  assumes "has_prefix ''/proc'' (resolve_target p l)" "list_all plain_name ns"
  shows "list_all plain_name (tl (path_names (drop 5 (resolve_target p l)) @ ns))"
proof -
  have "list_all plain_name (path_names (''/proc'' @ drop 5 (resolve_target p l)))"
    using resolve_target_down [of p l] drop_proc [OF assms(1)] by (simp add: goes_down_names)
  then have "list_all plain_name (tl (path_names (drop 5 (resolve_target p l))))" by (rule after_proc_names)
  then show ?thesis using assms(2) by (cases "path_names (drop 5 (resolve_target p l))") (auto dest: list_all_tl)
qed

lemma resolve_target_some [simp]: "resolve_target p l \<noteq> []"
  using resolve_target_down [of p l] by (auto simp: goes_down_def is_absolute_def)

lemma lookup_loop_escape:
  assumes "lookup_loop root segs cur p = Some r"
  shows "list_all plain_name (tl segs) \<longrightarrow> snd r = [] \<or> goes_down (snd r)"
  by (rule lookup_loop.raw_induct [OF _ assms])
     (auto split: list.splits option.splits gen.splits if_splits simp: Let_def follow_names append_names_down resolve_target_down list_all_tl)

subsection \<open>A walk that returns\<close>

text \<open>
  A link that leads out of /proc and not into /dev/fd, which leads back, and a tree in which the links
  of a directory do, or name nothing in it, as the targets of pipes and sockets do.
\<close>

definition outside :: "string \<Rightarrow> bool" where
  "outside p \<longleftrightarrow> goes_down p \<and> \<not> has_prefix ''/proc'' p \<and> take 1 (path_names p) \<noteq> [''proc''] \<and> take 2 (path_names p) \<noteq> [''dev'', ''fd'']"

definition leads_out :: "string \<Rightarrow> bool" where
  "leads_out l \<longleftrightarrow> l = [] \<or> (is_absolute l \<and> outside (lexically_normal l))"

text \<open>
  The result of a walk of n names: a node, whose plain link leads out, or a path outside with at most
  n - 1 names behind it.
\<close>

definition walk_ok :: "nat \<Rightarrow> gen \<times> string \<Rightarrow> bool" where
  "walk_ok n r \<longleftrightarrow> (snd r = [] \<and> (\<forall>l. fst r = LinkGen l \<longrightarrow> leads_out l))
     \<or> (\<exists>rs rest. fst r = NoneGen \<and> snd r = foldl path_append rs rest \<and> outside rs \<and> list_all plain_name rest \<and> length rest < n)"

lemma walk_ok_none [simp]: "walk_ok n (NoneGen, [])"
  by (simp add: walk_ok_def)

lemma walk_ok_mono: "walk_ok n r \<Longrightarrow> n \<le> m \<Longrightarrow> walk_ok m r"
  unfolding walk_ok_def by (meson less_le_trans)

fun tame :: "gen \<Rightarrow> bool" where
  "tame (DirGen es) = list_all (\<lambda>(n, g).
     case link_target g of
       Some l \<Rightarrow> (leads_out l \<or> (plain_name l \<and> map_of es l = None)) \<and> (g = LinkGen l \<longrightarrow> leads_out l)
     | None \<Rightarrow> tame g) es"
| "tame g = True"

fun descend :: "gen \<Rightarrow> string list \<Rightarrow> gen option" where
  "descend g [] = Some g"
| "descend (DirGen es) (n # ns) = (case map_of es n of None \<Rightarrow> None | Some g \<Rightarrow> descend g ns)"
| "descend g (n # ns) = None"

abbreviation under :: "string \<Rightarrow> string list \<Rightarrow> string" where
  "under p ns \<equiv> p @ concat (map ((#) slash) ns)"

lemma descend_dir: "descend g ns = Some (DirGen es) \<Longrightarrow> link_target g = None"
  by (cases ns; cases g) auto

lemma descend_loop:
  "descend g ns = Some (DirGen es) \<Longrightarrow> lookup_loop root (ns @ rest) g p = lookup_loop root rest (DirGen es) (under p ns)"
proof (induction ns arbitrary: g p)
  case (Cons n ns)
  then obtain ds g' where g: "g = DirGen ds" "map_of ds n = Some g'" "descend g' ns = Some (DirGen es)"
    by (cases g) (auto split: option.splits)
  have "lookup_loop root ((n # ns) @ rest) g p = lookup_loop root (ns @ rest) g' (p @ slash # n)"
    by (subst lookup_loop.simps) (use g descend_dir [OF g(3)] in auto)
  then show ?case using Cons.IH [OF g(3)] by simp
qed simp

lemma descend_append: "descend g ns = Some (DirGen es) \<Longrightarrow> descend g (ns @ [n]) = map_of es n"
proof (induction ns arbitrary: g)
  case (Cons m ns)
  then show ?case by (cases g) (auto split: option.splits)
qed (simp split: option.splits)

lemma normal_proc:
  assumes "is_absolute q" "normal_names True [] (path_names q) = ''proc'' # ms"
  shows "has_prefix ''/proc'' (lexically_normal q)" "path_names (drop 5 (lexically_normal q)) = ms"
proof -
  have ms: "list_all name_ok ms" using normal_names_path [of True q] assms(2) by simp
  have "lexically_normal q = ''/proc'' @ (if ms = [] then [] else slash # join_names ms)
      \<or> lexically_normal q = ''/proc'' @ (if ms = [] then [] else slash # join_names ms) @ [slash]"
    using assms by (cases ms) (auto simp: lexically_normal_def Let_def is_absolute_def)
  then obtain e where e: "e \<in> {[], [slash]}" "lexically_normal q = ''/proc'' @ (if ms = [] then [] else slash # join_names ms) @ e"
    by (elim disjE) (use that [of "[]"] that [of "[slash]"] in auto)
  then show "has_prefix ''/proc'' (lexically_normal q)" by (simp add: has_prefix_def)
  have "path_names ((if ms = [] then [] else slash # join_names ms) @ e) = ms" using e(1) ms by auto
  then show "path_names (drop 5 (lexically_normal q)) = ms" by (simp add: e(2))
qed

lemma names_under: "list_all plain_name ns \<Longrightarrow> path_names (under ''/proc'' ns) = ''proc'' # ns"
proof (induction ns rule: rev_induct)
  case Nil
  show ?case by (simp add: path_names_def)
next
  case (snoc n ns)
  then show ?case using path_names_simps(3) [of "under ''/proc'' ns" n] by (simp add: plain_name_def)
qed

lemma relative_target:
  assumes ns: "list_all plain_name ns" and l: "\<not> is_absolute l" "l \<noteq> []" "list_all plain_name (path_names l)" and n: "plain_name n"
  shows "has_prefix ''/proc'' (resolve_target (under ''/proc'' (ns @ [n])) l)"
    "path_names (drop 5 (resolve_target (under ''/proc'' (ns @ [n])) l)) = ns @ path_names l"
    "path_names (resolve_target (under ''/proc'' (ns @ [n])) l) = ''proc'' # ns @ path_names l"
proof -
  let ?p = "parent_path (under ''/proc'' (ns @ [n]))" and ?q = "path_append (parent_path (under ''/proc'' (ns @ [n]))) l"
  have nm: "list_all name_ok (''proc'' # ns)" using ns by (auto simp: plain_name_def name_ok_def list_all_iff)
  have p: "?p = slash # join_names (''proc'' # ns)"
    using names_under [of "ns @ [n]"] ns n by (simp only: parent_path_def) (simp add: butlast_append)
  have "last ?p \<noteq> slash" using last_join [OF _ nm] p by auto
  then have q: "?q = ?p @ slash # l" using l(1) p by (simp add: path_append_def)
  have "path_names ?q = path_names (slash # join_names (''proc'' # ns)) @ path_names l" unfolding q by (simp only: p path_names_simps(3))
  then have "path_names ?q = ''proc'' # ns @ path_names l" using path_names_join [OF nm] by simp
  then have "normal_names True [] (path_names ?q) = ''proc'' # ns @ path_names l"
    using ns l(3) by (subst normal_names_same) (auto simp: list_all_iff plain_name_def)
  moreover have "is_absolute ?q" by (simp add: path_append_absolute parent_path_absolute)
  ultimately show "has_prefix ''/proc'' (resolve_target (under ''/proc'' (ns @ [n])) l)"
    "path_names (drop 5 (resolve_target (under ''/proc'' (ns @ [n])) l)) = ns @ path_names l"
    "path_names (resolve_target (under ''/proc'' (ns @ [n])) l) = ''proc'' # ns @ path_names l"
    using normal_proc [of ?q] lexically_normal_names [of ?q] l(1) by (simp_all add: resolve_target_def)
qed

lemma link_step:
  assumes "link_target g = Some l" "l \<noteq> []"
  shows "lookup_loop root (seg # rest) g p =
    (if has_prefix ''/proc'' (resolve_target p l) then lookup_loop root (path_names (drop 5 (resolve_target p l)) @ rest) root ''/proc''
     else Some (NoneGen, foldl path_append (resolve_target p l) rest))"
  by (subst lookup_loop.simps) (simp add: assms Let_def)

lemma empty_link_returns: "\<lbrakk>link_target g = Some []\<rbrakk> \<Longrightarrow> lookup_loop root (seg # rest) g p = Some (NoneGen, [])"
  by (subst lookup_loop.simps) simp

lemma loop_end: "lookup_loop root [] g p = Some (g, [])"
  by (subst lookup_loop.simps) simp

lemma file_returns: "\<lbrakk>link_target g = None; \<nexists>es. g = DirGen es\<rbrakk> \<Longrightarrow> \<exists>r. lookup_loop root segs g p = Some r \<and> walk_ok n r"
  by (subst lookup_loop.simps) (cases segs; cases g; simp add: walk_ok_def)

lemma tame_link_returns:
  assumes t: "leads_out l \<or> (plain_name l \<and> map_of es l = None)" and l: "link_target g = Some l" and d: "descend root ns = Some (DirGen es)"
    and ns: "list_all plain_name ns" "plain_name seg" "list_all plain_name rest"
  shows "\<exists>r. lookup_loop root (seg # rest) g (under ''/proc'' (ns @ [seg])) = Some r \<and> walk_ok (length (seg # rest)) r"
proof (cases "leads_out l")
  case True
  then show ?thesis using l empty_link_returns [of g] link_step [OF l] ns(3)
    by (cases "l = []") (auto simp: leads_out_def outside_def resolve_target_def walk_ok_def)
next
  case False
  then have n: "plain_name l" "map_of es l = None" "l \<noteq> []" using t by (auto simp: leads_out_def)
  then have na: "\<not> is_absolute l" "path_names l = [l]"
    using list.set_sel(1) [of l] by (auto simp: plain_name_def name_ok_def is_absolute_def simp del: list.set_sel(1) hd_in_set)
  have "lookup_loop root (seg # rest) g (under ''/proc'' (ns @ [seg])) = lookup_loop root (ns @ l # rest) root ''/proc''"
    using link_step [OF l n(3)] relative_target [OF ns(1) na(1) n(3) _ ns(2)] n(1) na(2) by simp
  also have "\<dots> = lookup_loop root (l # rest) (DirGen es) (under ''/proc'' ns)" by (rule descend_loop [OF d])
  also have "\<dots> = Some (NoneGen, [])" by (subst lookup_loop.simps) (simp add: n(2))
  finally show ?thesis by simp
qed

lemma dir_step:
  assumes "map_of es seg = Some g"
  shows "lookup_loop root (seg # rest) (DirGen es) p =
    lookup_loop root (if link_target g \<noteq> None \<and> rest \<noteq> [] then seg # rest else rest) g (p @ slash # seg)"
  by (subst lookup_loop.simps) (simp add: assms)

lemma dir_miss: "map_of es seg = None \<Longrightarrow> lookup_loop root (seg # rest) (DirGen es) p = Some (NoneGen, [])"
  by (subst lookup_loop.simps) simp

lemma tame_returns:
  "\<lbrakk>tame (DirGen es); descend root ns = Some (DirGen es); list_all plain_name ns; list_all plain_name segs\<rbrakk>
   \<Longrightarrow> \<exists>r. lookup_loop root segs (DirGen es) (under ''/proc'' ns) = Some r \<and> walk_ok (length segs) r"
proof (induction segs arbitrary: es ns)
  case (Cons seg rest)
  show ?case
  proof (cases "map_of es seg")
    case (Some g)
    have t: "case link_target g of Some l \<Rightarrow> (leads_out l \<or> (plain_name l \<and> map_of es l = None)) \<and> (g = LinkGen l \<longrightarrow> leads_out l) | None \<Rightarrow> tame g"
      using Cons.prems(1) map_of_SomeD [OF Some] by (auto simp: list_all_iff)
    consider (link) l where "link_target g = Some l" | (dir) ds where "g = DirGen ds" | (other) "link_target g = None" "\<nexists>es. g = DirGen es"
      by blast
    then show ?thesis
    proof cases
      case link
      show ?thesis
      proof (cases "rest = []")
        case True
        then show ?thesis using dir_step [OF Some] t link by (auto simp: loop_end walk_ok_def)
      next
        case False
        have "leads_out l \<or> (plain_name l \<and> map_of es l = None)" using t link by simp
        then show ?thesis using False dir_step [OF Some] link tame_link_returns [OF _ link Cons.prems(2,3), of seg rest] Cons.prems(4) by auto
      qed
    next
      case dir
      have "\<exists>r. lookup_loop root rest (DirGen ds) (under ''/proc'' (ns @ [seg])) = Some r \<and> walk_ok (length rest) r"
        by (rule Cons.IH) (use t dir Cons.prems descend_append [OF Cons.prems(2), of seg] Some in simp_all)
      then show ?thesis using dir_step [OF Some] dir walk_ok_mono [of "length rest" _ "length (seg # rest)"] by auto
    qed (use dir_step [OF Some] file_returns in auto)
  qed (simp add: dir_miss)
qed (simp add: loop_end walk_ok_def)

subsection \<open>The whole tree\<close>

definition links_tame :: "proc_env \<Rightarrow> kern \<Rightarrow> bool" where
  "links_tame PE k \<longleftrightarrow> (\<forall>t. leads_out (ps_cwd (ps_of k t)) \<and> leads_out (ps_exe_path (ps_of k t))
     \<and> (\<forall>(fd, i) \<in> set (ps_fds (ps_of k t)). leads_out (fd_link_target PE k i)
          \<or> (plain_name (fd_link_target PE k i) \<and> fd_link_target PE k i \<notin> (int_string \<circ> fst) ` set (ps_fds (ps_of k t)))))"

lemma set_std_map: "set (std_map es) \<subseteq> set es"
proof -
  have "set (fold emplace es m) \<subseteq> set m \<union> set es" for m
  proof (induction es arbitrary: m)
    case (Cons e es)
    show ?case using Cons.IH [of "emplace e m"] by (auto simp: emplace_def set_insort_key split: if_splits)
  qed simp
  from this [of "[]"] show ?thesis by (simp add: std_map_def)
qed

lemma tame_std_map: "tame (DirGen es) \<Longrightarrow> tame (DirGen (std_map es))"
  unfolding tame.simps map_of_std_map list_all_iff using set_std_map [of es] by blast

lemma fd_dir_tame: "links_tame PE k \<Longrightarrow> tame (DirGen (gen_pid_fd_entries PE k t))"
  unfolding gen_pid_fd_entries_def
  by (rule tame_std_map) (force simp: links_tame_def list_all_iff map_of_eq_None_iff image_iff)

lemma out_simps: "leads_out []" "leads_out [slash]"
  by (simp_all add: leads_out_def outside_def goes_down_def path_names_def is_absolute_def has_prefix_def lexically_normal_def Let_def)

lemma task_entries_tame: "links_tame PE k \<Longrightarrow> tame (DirGen (task_entries PE k p t))"
  using fd_dir_tame [of PE k t] by (simp add: task_entries_def proc_task_common_entries_def out_simps links_tame_def)

lemma pid_entries_tame: "links_tame PE k \<Longrightarrow> tame (DirGen (proc_pid_entries PE k p t))"
proof -
  assume l: "links_tame PE k"
  have "tame (DirGen (proc_pid_task_entries PE k t))"
    unfolding proc_pid_task_entries_def
    by (rule tame_std_map) (use tame_std_map [OF task_entries_tame [OF l]] in \<open>auto simp: list_all_iff Let_def\<close>)
  then show ?thesis
    unfolding proc_pid_entries_def using l fd_dir_tame [OF l, of t]
    by (intro tame_std_map) (simp add: task_entries_def proc_task_common_entries_def out_simps links_tame_def)
qed

definition root_entries :: "proc_env \<Rightarrow> kern \<Rightarrow> nat \<Rightarrow> (string \<times> gen) list" where
  "root_entries PE k me =
     (let tgid = u64_string (tg_tgid (tg_of k me)) in
      std_map (procs @ map (\<lambda>(p, t). (u64_string p, DirGen (proc_pid_entries PE k p t))) (k_pid_map k)
        @ [(''self'', LinkGen tgid), (''thread-self'', LinkGen (tgid @ ''/task/'' @ u64_string (t_pid (k_task k me))))]))"

lemma proc_root_entries: "proc_root PE k me = DirGen (root_entries PE k me)"
  by (simp add: proc_root_def root_entries_def Let_def)

lemma map_of_pids: "map_of (map (\<lambda>(p, t). (u64_string p, f p t)) xs) (u64_string q) = map_option (f q) (map_of xs q)"
  by (induction xs) auto

lemma map_of_pids_no: "\<not> is_digit c \<Longrightarrow> map_of (map (\<lambda>(p, t). (u64_string p, f p t)) xs) (c # cs) = None"
  using not_sym [OF u64_string_ok(4) [of c]] by (induction xs) auto

lemma procs_digits: "map_of procs (u64_string p) = None"
  using u64_string_ok(4) [of _ p] by (auto simp: procs_def is_digit_def)

lemma root_entries_of:
  "map_of (root_entries PE k me) (u64_string p) = map_option (\<lambda>t. DirGen (proc_pid_entries PE k p t)) (map_of (k_pid_map k) p)"
  "map_of (root_entries PE k me) ''self'' = Some (LinkGen (u64_string (tg_tgid (tg_of k me))))"
  "map_of (root_entries PE k me) ''thread-self'' = Some (LinkGen (u64_string (tg_tgid (tg_of k me)) @ ''/task/'' @ u64_string (t_pid (k_task k me))))"
  "map_of (root_entries PE k me) ''mounts'' = Some (LinkGen ''self/mounts'')"
proof -
  have nd: "\<not> is_digit CHR ''s''" "\<not> is_digit CHR ''t''" "\<not> is_digit CHR ''m''" by (simp_all add: is_digit_def)
  note u = u64_string_ok(4) [of _ p]
  show "map_of (root_entries PE k me) (u64_string p) = map_option (\<lambda>t. DirGen (proc_pid_entries PE k p t)) (map_of (k_pid_map k) p)"
    using u [OF nd(1)] u [OF nd(2)] by (simp add: root_entries_def Let_def map_add_def procs_digits map_of_pids split: option.split)
  show "map_of (root_entries PE k me) ''self'' = Some (LinkGen (u64_string (tg_tgid (tg_of k me))))"
    "map_of (root_entries PE k me) ''thread-self'' = Some (LinkGen (u64_string (tg_tgid (tg_of k me)) @ ''/task/'' @ u64_string (t_pid (k_task k me))))"
    "map_of (root_entries PE k me) ''mounts'' = Some (LinkGen ''self/mounts'')"
    by (simp_all add: root_entries_def Let_def map_add_def map_of_pids_no nd procs_def)
qed

lemma root_entries_cases:
  assumes "map_of (root_entries PE k me) seg = Some g"
  shows "(\<exists>f. g = FileGen f) \<or> (\<exists>p. seg = u64_string p) \<or> seg \<in> {''self'', ''thread-self'', ''mounts''}"
proof -
  have "map_of (procs @ map (\<lambda>(p, t). (u64_string p, DirGen (proc_pid_entries PE k p t))) (k_pid_map k)
        @ [(''self'', LinkGen (u64_string (tg_tgid (tg_of k me)))),
           (''thread-self'', LinkGen (u64_string (tg_tgid (tg_of k me)) @ ''/task/'' @ u64_string (t_pid (k_task k me))))]) seg = Some g"
    using assms by (simp only: root_entries_def Let_def map_of_std_map)
  from map_of_SomeD [OF this] have "(seg, g) \<in> set procs \<or> (\<exists>p. seg = u64_string p) \<or> seg \<in> {''self'', ''thread-self''}"
    by (auto simp del: list.inject)
  moreover have "list_all (\<lambda>(n, g). (\<exists>f. g = FileGen f) \<or> n = ''mounts'') procs" by (simp add: procs_def)
  ultimately show ?thesis by (auto simp: list_all_iff)
qed

lemma root_link:
  assumes "map_of (root_entries PE k me) seg = Some (LinkGen l)" "\<not> is_absolute l" "l \<noteq> []" "list_all plain_name (path_names l)" "plain_name seg" "rest \<noteq> []"
  shows "lookup_loop (proc_root PE k me) (seg # rest) (proc_root PE k me) ''/proc'' =
    lookup_loop (proc_root PE k me) (path_names l @ rest) (proc_root PE k me) ''/proc''"
proof -
  have u: "under ''/proc'' [seg] = ''/proc'' @ slash # seg" by simp
  show ?thesis
    using dir_step [OF assms(1), of "proc_root PE k me" rest "''/proc''"] link_step [of "LinkGen l" l "proc_root PE k me" seg rest "''/proc'' @ slash # seg"]
      relative_target [of "[]", OF _ assms(2-5)] assms(3,6) by (simp add: proc_root_entries u del: append_Cons)
qed

lemma tame_entry: "tame (DirGen es) \<Longrightarrow> map_of es n = Some (DirGen ds) \<Longrightarrow> tame (DirGen ds)"
  by (drule map_of_SomeD) (fastforce simp: list_all_iff simp del: tame.simps simp: tame.simps(1) [of es])

lemma pid_returns:
  assumes "links_tame PE k" "list_all plain_name rest"
  shows "\<exists>r. lookup_loop (proc_root PE k me) (u64_string p # rest) (proc_root PE k me) ''/proc'' = Some r \<and> walk_ok (length rest) r"
proof (cases "map_of (k_pid_map k) p")
  case None
  then show ?thesis using dir_miss root_entries_of(1) [of PE k me p] by (simp add: proc_root_entries)
next
  case (Some t)
  then have m: "map_of (root_entries PE k me) (u64_string p) = Some (DirGen (proc_pid_entries PE k p t))" by (simp add: root_entries_of)
  have "\<exists>r. lookup_loop (proc_root PE k me) rest (DirGen (proc_pid_entries PE k p t)) (under ''/proc'' [u64_string p]) = Some r \<and> walk_ok (length rest) r"
    by (rule tame_returns [OF pid_entries_tame [OF assms(1)]]) (use m assms(2) u64_string_ok(1,2,3) [of p] in \<open>simp_all add: proc_root_entries plain_name_def del: append_Cons\<close>)
  then show ?thesis using dir_step [OF m, of "proc_root PE k me" rest "''/proc''"] by (simp add: proc_root_entries)
qed

text \<open>Behind a name that is a directory, the walk has the names behind it.\<close>

lemma below_returns:
  assumes d: "descend (proc_root PE k me) ns = Some (DirGen es)" and t: "tame (DirGen es)" and n: "list_all plain_name ns" "list_all plain_name rest"
    and e: "\<forall>g. map_of es m = Some g \<longrightarrow> (\<exists>ds. g = DirGen ds)" "plain_name m"
  shows "\<exists>r. lookup_loop (proc_root PE k me) (m # rest) (DirGen es) (under ''/proc'' ns) = Some r \<and> walk_ok (length rest) r"
proof (cases "map_of es m")
  case None
  then show ?thesis using dir_miss by simp
next
  case (Some g)
  then obtain ds where g: "g = DirGen ds" using e by blast
  have "\<exists>r. lookup_loop (proc_root PE k me) rest (DirGen ds) (under ''/proc'' (ns @ [m])) = Some r \<and> walk_ok (length rest) r"
    by (rule tame_returns) (use tame_entry [OF t] Some g descend_append [OF d, of m] n e(2) in simp_all)
  then show ?thesis using dir_step [OF Some] g by simp
qed

lemma task_returns:
  assumes l: "links_tame PE k" and rest: "list_all plain_name rest"
  shows "\<exists>r. lookup_loop (proc_root PE k me) ([u64_string p, ''task'', u64_string q] @ rest) (proc_root PE k me) ''/proc'' = Some r \<and> walk_ok (length rest) r"
proof (cases "map_of (k_pid_map k) p")
  case None
  then show ?thesis using dir_miss root_entries_of(1) [of PE k me p] by (simp add: proc_root_entries)
next
  case (Some t)
  have m: "map_of (root_entries PE k me) (u64_string p) = Some (DirGen (proc_pid_entries PE k p t))" using Some by (simp add: root_entries_of)
  have task: "map_of (proc_pid_entries PE k p t) ''task'' = Some (DirGen (proc_pid_task_entries PE k t))"
    by (simp add: proc_pid_entries_def task_entries_def proc_task_common_entries_def)
  have d: "descend (proc_root PE k me) [u64_string p, ''task''] = Some (DirGen (proc_pid_task_entries PE k t))"
    using m task by (simp add: proc_root_entries)
  have dirs: "\<forall>g. map_of (proc_pid_task_entries PE k t) n = Some g \<longrightarrow> (\<exists>ds. g = DirGen ds)" for n
    using set_std_map by (fastforce simp: proc_pid_task_entries_def Let_def simp del: map_of_std_map dest!: map_of_SomeD)
  have pn: "plain_name (u64_string p)" "plain_name (u64_string q)" "plain_name ''task''" using u64_string_ok by (simp_all add: plain_name_def) (simp add: name_ok_def)
  from below_returns [OF d tame_entry [OF pid_entries_tame [OF l] task] _ rest dirs pn(2)] pn
  show ?thesis using descend_loop [OF d, of "proc_root PE k me" "u64_string q # rest" "''/proc''"] by simp
qed

lemma mounts_returns: "\<exists>r. lookup_loop (proc_root PE k me) (u64_string p # ''mounts'' # rest) (proc_root PE k me) ''/proc'' = Some r \<and> walk_ok n r"
proof (cases "map_of (k_pid_map k) p")
  case None
  then show ?thesis using dir_miss root_entries_of(1) [of PE k me p] by (simp add: proc_root_entries)
next
  case (Some t)
  have m: "map_of (root_entries PE k me) (u64_string p) = Some (DirGen (proc_pid_entries PE k p t))" using Some by (simp add: root_entries_of)
  have f: "map_of (proc_pid_entries PE k p t) ''mounts'' = Some (FileGen Mounts)"
    by (simp add: proc_pid_entries_def task_entries_def proc_task_common_entries_def)
  show ?thesis using dir_step [OF m] dir_step [OF f] file_returns [of "FileGen Mounts"] by (simp add: proc_root_entries)
qed

lemma lookup_loop_returns:
  assumes l: "links_tame PE k" and s: "list_all plain_name segs"
  shows "\<exists>r. lookup_loop (proc_root PE k me) segs (proc_root PE k me) ''/proc'' = Some r
    \<and> (walk_ok (length segs - 1) r \<or> (\<exists>seg l. segs = [seg] \<and> r = (LinkGen l, []) \<and> map_of (root_entries PE k me) seg = Some (LinkGen l)))"
proof (cases segs)
  case Nil
  then show ?thesis by (simp add: loop_end walk_ok_def proc_root_entries)
next
  case (Cons seg rest)
  let ?R = "proc_root PE k me" and ?t = "u64_string (tg_tgid (tg_of k me))" and ?p = "u64_string (t_pid (k_task k me))"
  have rest: "list_all plain_name rest" and seg: "plain_name seg" using s Cons by simp_all
  have pn: "plain_name ?t" "plain_name ?p" "plain_name ''task''" "plain_name ''self''" "plain_name ''mounts''" "plain_name ''thread-self''"
    using u64_string_ok by (simp_all add: plain_name_def) (simp_all add: name_ok_def)
  then have tn: "path_names ?t = [?t]" "\<not> is_absolute ?t" "?t \<noteq> []"
    using u64_string_ok(4) [of slash] by (auto simp: plain_name_def is_absolute_def name_ok_def is_digit_def neq_Nil_conv)
  have self: "\<exists>r. lookup_loop ?R (''self'' # rs) ?R ''/proc'' = Some r \<and> walk_ok (length rs) r" if "list_all plain_name rs" "rs \<noteq> []" for rs
    using root_link [OF root_entries_of(2) tn(2,3) _ pn(4) that(2)] pid_returns [OF l that(1)] tn(1) pn(1) by simp
  have ts: "path_names (?t @ ''/task/'' @ ?p) = [?t, ''task'', ?p]" "\<not> is_absolute (?t @ ''/task/'' @ ?p)"
    using path_names_simps(3) [of ?t "''task'' @ slash # ?p"] path_names_simps(3) [of "''task''" ?p] tn pn
    by (simp_all add: plain_name_def is_absolute_def)
  have ms: "path_names ''self/mounts'' = [''self'', ''mounts'']" by (simp add: path_names_def)
  show ?thesis
  proof (cases "rest = []")
    case True
    then show ?thesis
      using dir_step [of "root_entries PE k me" seg] dir_miss [of "root_entries PE k me" seg] Cons
      by (cases "map_of (root_entries PE k me) seg"; cases "the (map_of (root_entries PE k me) seg)") (auto simp: proc_root_entries loop_end walk_ok_def)
  next
    case False
    consider "map_of (root_entries PE k me) seg = None" | f where "map_of (root_entries PE k me) seg = Some (FileGen f)"
      | p where "seg = u64_string p" | "seg = ''self''" | "seg = ''thread-self''" | "seg = ''mounts''"
      using root_entries_cases [of PE k me seg] by fastforce
    then have "\<exists>r. lookup_loop ?R (seg # rest) ?R ''/proc'' = Some r \<and> walk_ok (length rest) r"
    proof cases
      case 1
      then show ?thesis using dir_miss [OF 1] by (simp add: proc_root_entries)
    next
      case (2 f)
      then show ?thesis using dir_step [OF 2] file_returns [of "FileGen f"] by (simp add: proc_root_entries)
    next
      case (3 p)
      then show ?thesis using pid_returns [OF l rest] by simp
    next
      case 4
      then show ?thesis using self [OF rest False] by simp
    next
      case 5
      have "list_all plain_name (path_names (?t @ ''/task/'' @ ?p))" unfolding ts using pn by simp
      then have "lookup_loop ?R (seg # rest) ?R ''/proc'' = lookup_loop ?R ([?t, ''task'', ?p] @ rest) ?R ''/proc''"
        unfolding 5 using root_link [OF root_entries_of(3) ts(2) _ _ pn(6) False, of PE] ts(1) by (simp only: append_is_Nil_conv) simp
      then show ?thesis using task_returns [OF l rest] by simp
    next
      case 6
      have "lookup_loop ?R (seg # rest) ?R ''/proc'' = lookup_loop ?R (''self'' # ''mounts'' # rest) ?R ''/proc''"
        unfolding 6 using root_link [OF root_entries_of(4) _ _ _ pn(5) False, of PE] ms pn by (simp add: is_absolute_def)
      then show ?thesis using root_link [OF root_entries_of(2) tn(2,3) _ pn(4), of "''mounts'' # rest" PE] mounts_returns tn(1) pn(1) by simp
    qed
    then show ?thesis using Cons by auto
  qed
qed

end
