(* ===== verification/Posix_Confine.thy ===== *)
theory Posix_Confine
  imports Posix_Procfs_Props Posix_Files
begin

text \<open>
  Which paths reach the host: two hosts that agree on the paths below the root directory and on the
  shared devices give the same results, whatever the guest asks for.
\<close>

subsection \<open>Paths that reach the host\<close>

text \<open>
  The paths that the calls hand to the host: the empty one, those below the root directory, and the
  nodes of devices that the guest shares with the host.
\<close>

definition device_path :: "string \<Rightarrow> bool" where
  "device_path p \<longleftrightarrow> map_of dev_nodes p = Some HostChr \<or> has_prefix ''/dev/pts/'' p"

definition in_reach :: "string \<Rightarrow> string \<Rightarrow> bool" where
  "in_reach root p \<longleftrightarrow> p = [] \<or> below root p \<or> device_path p"

fun other_path :: "path_op \<Rightarrow> string list" where
  "other_path (Link q f) = [q]"
| "other_path (Rename q f) = [q]"
| "other_path _ = []"

text \<open>
  Two hosts that answer alike for the paths in reach and for the program images of the tasks, and
  for every call that names no path.
\<close>

definition hosts_agree :: "string \<Rightarrow> file_env \<Rightarrow> file_env \<Rightarrow> bool" where
  "hosts_agree root FE FE' \<longleftrightarrow>
     (\<exists>po oo. FE' = FE\<lparr>fe_path := po, fe_open := oo\<rparr>
        \<and> (\<forall>k p op. in_reach root p \<and> list_all (in_reach root) (other_path op) \<longrightarrow> po k p op = fe_path FE k p op)
        \<and> (\<forall>k p f m. in_reach root p \<longrightarrow> oo k p f m = fe_open FE k p f m)
        \<and> (\<forall>k p f m t. pr_image (fe_proc FE k) t = Some p \<longrightarrow> oo k p f m = fe_open FE k p f m))"

lemma hosts_agreeD:
  assumes "hosts_agree root FE FE'"
  shows "fe_proc FE' = fe_proc FE" "fe_flags FE' = fe_flags FE" "fe_fresh FE' = fe_fresh FE" "fe_reopen FE' = fe_reopen FE"
    "fe_open_exe FE' = fe_open_exe FE" "fe_stat_exe FE' = fe_stat_exe FE" "fe_dup FE' = fe_dup FE" "fe_ptmx FE' = fe_ptmx FE" "fe_fd FE' = fe_fd FE"
    "\<lbrakk>in_reach root p; list_all (in_reach root) (other_path op)\<rbrakk> \<Longrightarrow> fe_path FE' k p op = fe_path FE k p op"
    "in_reach root p \<Longrightarrow> fe_open FE' k p f m = fe_open FE k p f m"
    "pr_image (fe_proc FE k) t = Some p \<Longrightarrow> fe_open FE' k p f m = fe_open FE k p f m"
  using assms unfolding hosts_agree_def by auto metis

lemma hosts_agree_sym: "hosts_agree root FE FE' \<Longrightarrow> hosts_agree root FE' FE"
  unfolding hosts_agree_def by (rule exI [of _ "fe_path FE"], rule exI [of _ "fe_open FE"]) (auto, metis)

text \<open>Arguments of the operations: no path, or one without dots.\<close>

abbreviation down_or_none :: "string \<Rightarrow> bool" where
  "down_or_none g \<equiv> g = [] \<or> goes_down g"

lemma resolve_in_reach:
  assumes "root = [] \<or> goes_down root" "down_or_none g"
  shows "in_reach root (pa_host (ResolvePath root g))" "pa_class (ResolvePath root g) \<noteq> HostPath \<Longrightarrow> goes_down (pa_guest (ResolvePath root g))"
proof -
  have e: "\<not> is_proc []" "\<not> is_dev []" by (simp_all add: is_proc_def is_dev_def has_prefix_def)
  have n: "below [] g" if "goes_down g" for g using that by (auto simp: below_def goes_down_def)
  show "in_reach root (pa_host (ResolvePath root g))"
  proof (cases "g = [] \<or> root = []")
    case True
    then show ?thesis using assms(2) n [of g] n [OF strip_slashes_down, of g] by (auto simp: e in_reach_def ResolvePath_def make_path_def host_of_def)
  qed (use assms resolve_below(1) [of root g] in \<open>auto simp: in_reach_def\<close>)
  show "pa_class (ResolvePath root g) \<noteq> HostPath \<Longrightarrow> goes_down (pa_guest (ResolvePath root g))"
    using assms(2) strip_slashes_down [of g] by (auto simp: e ResolvePath_def make_path_def split: if_splits)
qed

lemma strip_rev_split: "\<exists>s. p = s @ strip_rev p \<and> set s \<subseteq> {slash}"
proof (induction p rule: strip_rev.induct)
  case (1 a b xs)
  show ?case
  proof (cases "a = slash")
    case True
    then obtain s where "b # xs = s @ strip_rev (b # xs)" "set s \<subseteq> {slash}" using 1 by blast
    then have "a # b # xs = (slash # s) @ strip_rev (a # b # xs)" "set (slash # s) \<subseteq> {slash}" using True by simp_all
    then show ?thesis by blast
  qed simp
qed auto

lemma strip_slashes_split: "\<exists>s. p = strip_slashes p @ s \<and> set s \<subseteq> {slash}"
proof -
  obtain s where "rev p = s @ strip_rev (rev p)" "set s \<subseteq> {slash}" using strip_rev_split by blast
  then show ?thesis by (intro exI [of _ "rev s"]) (simp add: strip_slashes_def flip: rev_append)
qed

lemma has_prefix_append: "has_prefix p x \<longleftrightarrow> (\<exists>r. x = p @ r)"
  by (auto simp: has_prefix_def intro: exI [of _ "drop (length p) x"] append_take_drop_id [of "length p" x, symmetric]) (metis append_take_drop_id)

lemma proc_path_prefix:
  assumes "pa_class (ResolvePath root g) = ProcPath"
  shows "has_prefix ''/proc'' (pa_guest (ResolvePath root g))"
proof -
  have g: "is_proc g" "pa_guest (ResolvePath root g) = strip_slashes g" using assms by (auto simp: ResolvePath_def make_path_def split: if_splits)
  then obtain r where r: "g = ''/proc'' @ r" by (auto simp: is_proc_def has_prefix_append)
  define q where "q = strip_slashes g"
  obtain s where s: "q @ s = ''/proc'' @ r" "set s \<subseteq> {slash}" using strip_slashes_split [of g] r q_def by metis
  have "4 < length q"
  proof (rule ccontr)
    assume n: "\<not> 4 < length q"
    have "(q @ s) ! 4 = CHR ''c''" "4 < length (q @ s)" unfolding s(1) by simp_all
    then have "s ! (4 - length q) = CHR ''c''" "4 - length q < length s" using n by (auto simp: nth_append)
    then show False using s(2) nth_mem [of "4 - length q" s] by auto
  qed
  then have "take 5 q = take 5 (q @ s)" by simp
  also have "\<dots> = ''/proc''" unfolding s(1) by simp
  finally show ?thesis by (simp add: g(2) q_def [symmetric] has_prefix_def eval_nat_numeral)
qed

lemma goes_down_dev_links: "(n, Symlink l) \<in> set dev_nodes \<Longrightarrow> goes_down l"
  by (auto simp: dev_nodes_def goes_down_def is_absolute_def path_names_def)

lemma dev_lookup_escape:
  assumes "dev_lookup k g = (info, escape)" "goes_down g"
  shows "down_or_none escape" "info = Some (Symlink l) \<Longrightarrow> goes_down l" "info = Some HostChr \<Longrightarrow> device_path g"
proof -
  have "goes_down (''/proc/self/fd'' @ drop 7 g)" if p: "has_prefix ''/dev/fd/'' g"
  proof -
    define r where "r = drop 8 g"
    have r: "g = ''/dev/fd'' @ slash # r" using p append_take_drop_id [of 8 g] by (simp add: r_def has_prefix_def eval_nat_numeral)
    have "path_names (''/proc/self/fd'' @ slash # r) = path_names ''/proc/self/fd'' @ path_names r"
      "path_names (''/dev/fd'' @ slash # r) = path_names ''/dev/fd'' @ path_names r" by (simp_all only: path_names_simps(3))
    then show ?thesis using assms(2) by (auto simp: goes_down_def r is_absolute_def path_names_def)
  qed
  then show "down_or_none escape" using assms(1) by (auto simp: dev_lookup_def Let_def split: option.splits if_splits)
  show "info = Some (Symlink l) \<Longrightarrow> goes_down l"
    using assms(1) by (auto simp: dev_lookup_def Let_def goes_down_dev_links split: option.splits if_splits dest!: map_of_SomeD)
  show "info = Some HostChr \<Longrightarrow> device_path g"
    using assms(1) by (auto simp: dev_lookup_def device_path_def Let_def split: option.splits if_splits)
qed

lemma lookup_escape:
  assumes "lookup PE k me g = Some (node, escape)" "goes_down g" "has_prefix ''/proc'' g"
  shows "down_or_none escape"
proof -
  have "list_all plain_name (path_names (''/proc'' @ drop 5 g))" using assms(2) drop_proc [OF assms(3)] by (simp add: goes_down_names)
  then show ?thesis using lookup_loop_escape [of _ _ _ _ "(node, escape)"] after_proc_names assms(1) by (fastforce simp: lookup_def Let_def)
qed

subsection \<open>Operations\<close>

lemma path_call_agrees:
  assumes "path_call FE k me g op = Some r"
  shows "\<forall>FE'. hosts_agree (ps_root (ps_of k me)) FE FE' \<longrightarrow> (ps_root (ps_of k me) = [] \<or> goes_down (ps_root (ps_of k me)))
    \<longrightarrow> down_or_none g \<longrightarrow> other_path op = [] \<longrightarrow> path_call FE' k me g op = Some r"
proof (rule path_call.raw_induct [OF _ assms], intro allI impI, goal_cases)
  case (1 f FE k me g op r FE')
  let ?root = "ps_root (ps_of k me)" let ?P = "ResolvePath ?root g"
  have again: "path_call FE' k me g' op' = Some r" if "f FE k me g' op' = Some r" "down_or_none g'" "other_path op' = []" for g' op'
    using 1(1) [OF that(1)] 1(3,4) that(2,3) by blast
  note same = hosts_agreeD [OF 1(3)]
  note P = resolve_in_reach [OF 1(4,5)]
  have ho: "other_path (host_op op) = []" using 1(6) by (cases op) auto
  have no: "other_path (case op of Statx m f \<Rightarrow> Statx STATX_BASIC_STATS f | _ \<Rightarrow> op) = []" using 1(6) by (cases op) auto
  show ?case
  proof (cases "pa_class ?P")
    case HostPath
    then show ?thesis using 1(2) same(10) [OF P(1)] ho by (subst path_call.simps) (simp add: Let_def)
  next
    case DevPath
    obtain info escape where d: "dev_lookup k (pa_guest ?P) = (info, escape)" by fastforce
    have g: "goes_down (pa_guest ?P)" using P(2) DevPath by simp
    note dl = dev_lookup_escape [OF d g]
    have dop: "dev_op FE' k (pa_guest ?P) x op = dev_op FE k (pa_guest ?P) x op" if "info = Some x" for x
      using dl(3) that same(10) [of "pa_guest ?P"] by (cases op; cases x) (auto simp: in_reach_def)
    have dlink: "goes_down l" if "info = Some x" "dev_op FE k (pa_guest ?P) x op = Inr l" for x l
      using dl(2) that by (cases op; cases x) (auto split: if_splits)
    show ?thesis using 1(2) DevPath d dl(1) again no 1(6) dop dlink
      by (subst path_call.simps) (auto simp: Let_def split: option.splits sum.splits if_splits)
  next
    case ProcPath
    have g: "goes_down (pa_guest ?P)" using P(2) ProcPath by simp
    have pre: "has_prefix ''/proc'' (pa_guest ?P)" using ProcPath by (rule proc_path_prefix)
    have st: "proc_stat FE' k me (pa_guest ?P) node m fl = proc_stat FE k me (pa_guest ?P) node m fl" for node m fl
      unfolding proc_stat_def fd_stat.simps same(1,6,9) ..
    have tg: "goes_down l" if "proc_stat FE k me (pa_guest ?P) node m fl = Some (Inr l)" for node m fl l
      using that resolve_target_down by (cases node) (auto simp: proc_stat_def resolve_symlink_def Let_def split: if_splits option.splits)
    show ?thesis
    proof (cases "op_modifies op")
      case False
      then obtain node escape where l: "lookup (fe_proc FE k) k me (pa_guest ?P) = Some (node, escape)"
        using 1(2) ProcPath by (auto simp: Let_def bind_eq_Some_conv)
      show ?thesis using 1(2) ProcPath False l lookup_escape [OF l g pre] again no 1(6) tg
        by (subst path_call.simps) (auto simp: Let_def same st split: path_op.splits sum.splits if_splits Option.bind_splits)
    qed (use 1(2) ProcPath in \<open>subst path_call.simps, simp add: Let_def\<close>)
  qed
qed

lemma host_open_agrees: "hosts_agree root FE FE' \<Longrightarrow> in_reach root p \<Longrightarrow> host_open FE' k p f m g = host_open FE k p f m g"
  by (simp add: host_open_def hosts_agreeD)

lemma dev_open_agrees:
  assumes "hosts_agree root FE FE'"
  shows "dev_open FE' k me g f m = dev_open FE k me g f m"
proof -
  have p: "fe_open FE' k (''/dev/pts/'' @ x) f m = fe_open FE k (''/dev/pts/'' @ x) f m" for x f m
    by (rule hosts_agreeD(11) [OF assms]) (simp add: in_reach_def device_path_def has_prefix_def)
  have h: "host_open FE' k g f m g = host_open FE k g f m g" if "map_of dev_nodes g = Some HostChr"
    by (rule host_open_agrees [OF assms]) (simp add: in_reach_def device_path_def that)
  show ?thesis
    unfolding dev_open_def hosts_agreeD(2,3,7,8) [OF assms] p
    using h by (cases "map_of dev_nodes g") (auto split: DevInfo.splits)
qed

lemma proc_open_agrees:
  assumes "hosts_agree root FE FE'"
  shows "proc_open FE' k g node f = proc_open FE k g node f"
proof -
  have "exe_link_open FE' k t l f = exe_link_open FE k t l f" for t l
    unfolding exe_link_open_def hosts_agreeD(1,2,5) [OF assms]
    using hosts_agreeD(12) [OF assms] by (auto simp: Let_def split: option.splits)
  moreover have "fd_link_open FE' k i f = fd_link_open FE k i f" for i
    unfolding fd_link_open_def hosts_agreeD(2,4,7,9) [OF assms] ..
  ultimately show ?thesis unfolding proc_open_def hosts_agreeD(1) [OF assms] by presburger
qed

lemma path_open_agrees:
  assumes "path_open FE k me g fl mode = Some r"
  shows "\<forall>FE'. hosts_agree (ps_root (ps_of k me)) FE FE' \<longrightarrow> (ps_root (ps_of k me) = [] \<or> goes_down (ps_root (ps_of k me)))
    \<longrightarrow> down_or_none g \<longrightarrow> path_open FE' k me g fl mode = Some r"
proof (rule path_open.raw_induct [OF _ assms], intro allI impI, goal_cases)
  case (1 f FE k me g fl mode r FE')
  let ?root = "ps_root (ps_of k me)" let ?P = "ResolvePath ?root g"
  have again: "path_open FE' k me g' fl mode = Some r" if "f FE k me g' fl mode = Some r" "down_or_none g'" for g'
    using 1(1) [OF that(1)] 1(3,4) that(2) by blast
  note P = resolve_in_reach [OF 1(4,5)]
  show ?case
  proof (cases "pa_class ?P")
    case HostPath
    then show ?thesis using 1(2) host_open_agrees [OF 1(3) P(1)] by (subst path_open.simps) (simp add: Let_def)
  next
    case DevPath
    obtain info escape where d: "dev_lookup k (pa_guest ?P) = (info, escape)" by fastforce
    have g: "goes_down (pa_guest ?P)" using P(2) DevPath by simp
    note dl = dev_lookup_escape [OF d g]
    show ?thesis using 1(2) DevPath d dl(1,2) again
      by (subst path_open.simps) (auto simp: Let_def dev_open_agrees [OF 1(3)] split: option.splits DevInfo.splits if_splits)
  next
    case ProcPath
    have g: "goes_down (pa_guest ?P)" using P(2) ProcPath by simp
    have pre: "has_prefix ''/proc'' (pa_guest ?P)" using ProcPath by (rule proc_path_prefix)
    obtain node escape where l: "lookup (fe_proc FE k) k me (pa_guest ?P) = Some (node, escape)"
      using 1(2) ProcPath by (auto simp: Let_def bind_eq_Some_conv)
    have tg: "goes_down l" if "proc_open FE k (pa_guest ?P) node fl = Inr l" for l
      using that resolve_target_down by (cases node) (auto simp: proc_open_def resolve_symlink_def Let_def split: if_splits)
    show ?thesis using 1(2) ProcPath l lookup_escape [OF l g pre] again tg
      by (subst path_open.simps) (auto simp: Let_def hosts_agreeD(1) [OF 1(3)] proc_open_agrees [OF 1(3)] split: sum.splits if_splits)
  qed
qed

subsection \<open>Both directions\<close>

lemma agree_both:
  assumes "\<And>r. x = Some r \<Longrightarrow> y = Some r" "\<And>r. y = Some r \<Longrightarrow> x = Some r"
  shows "x = y"
  using assms by (cases x; cases y) auto

lemma link_call_agrees:
  assumes "hosts_agree (ps_root (ps_of k me)) FE FE'" "ps_root (ps_of k me) = [] \<or> goes_down (ps_root (ps_of k me))"
    and "down_or_none g" "down_or_none g'" "\<And>q. other_path (op q) \<in> {[], [q]}"
  shows "link_call FE' k me g g' op = link_call FE k me g g' op"
proof -
  let ?Q = "ResolvePath (ps_root (ps_of k me)) g'"
  have "list_all (in_reach (ps_root (ps_of k me))) (other_path (op (pa_host ?Q)))"
    using assms(5) [of "pa_host ?Q"] resolve_in_reach(1) [OF assms(2,4)] by auto
  then show ?thesis using hosts_agreeD(10) [OF assms(1) resolve_in_reach(1) [OF assms(2,3)]] by (simp add: link_call_def Let_def)
qed

end
