(* ===== verification/Posix_Walk.thy ===== *)
theory Posix_Walk
  imports Posix_Confine
begin

text \<open>
  Operations on paths return when no working directory, program or descriptor leads back into /proc:
  the paths that an operation goes on with are followed to their end.
\<close>

subsection \<open>Where an operation goes on\<close>

definition goes_on :: "proc_env \<Rightarrow> kern \<Rightarrow> nat \<Rightarrow> string \<Rightarrow> string \<Rightarrow> bool" where
  "goes_on PE k me g g' \<longleftrightarrow>
     (let P = ResolvePath (ps_root (ps_of k me)) g in
      case pa_class P of
        HostPath \<Rightarrow> False
      | DevPath \<Rightarrow> (case dev_lookup k (pa_guest P) of (info, escape) \<Rightarrow> if escape \<noteq> [] then g' = escape else info = Some (Symlink g'))
      | ProcPath \<Rightarrow>
          (case lookup PE k me (pa_guest P) of
             None \<Rightarrow> False
           | Some (node, escape) \<Rightarrow> if escape \<noteq> [] then g' = escape else \<exists>l. node = LinkGen l \<and> l \<noteq> [] \<and> g' = resolve_symlink (pa_guest P) l))"

definition walk_returns :: "proc_env \<Rightarrow> kern \<Rightarrow> nat \<Rightarrow> string \<Rightarrow> bool" where
  "walk_returns PE k me g \<longleftrightarrow>
     (let P = ResolvePath (ps_root (ps_of k me)) g in
      pa_class P = ProcPath \<longrightarrow>
        (\<exists>r. lookup PE k me (pa_guest P) = Some r
           \<and> (\<forall>l. fst r = LinkGen l \<and> l \<noteq> [] \<and> has_prefix ''/proc'' (resolve_symlink (pa_guest P) l) \<longrightarrow> lookup PE k me (resolve_symlink (pa_guest P) l) \<noteq> None)))"

inductive settles :: "proc_env \<Rightarrow> kern \<Rightarrow> nat \<Rightarrow> string \<Rightarrow> bool" for PE k me where
  settles: "\<lbrakk>walk_returns PE k me g; \<And>g'. goes_on PE k me g g' \<Longrightarrow> settles PE k me g'\<rbrakk> \<Longrightarrow> settles PE k me g"

lemma settles_open: "settles PE k me g \<Longrightarrow> PE = fe_proc FE k \<Longrightarrow> \<exists>r. path_open FE k me g fl mode = Some r"
proof (induction rule: settles.induct)
  case (settles g)
  let ?P = "ResolvePath (ps_root (ps_of k me)) g"
  have on: "\<exists>r. path_open FE k me g' fl mode = Some r" if "goes_on PE k me g g'" for g' using settles that by blast
  show ?case
  proof (cases "pa_class ?P")
    case DevPath
    then show ?thesis using on by (subst path_open.simps) (auto simp: Let_def goes_on_def split: prod.splits option.splits DevInfo.splits if_splits)
  next
    case ProcPath
    then obtain node escape where l: "lookup PE k me (pa_guest ?P) = Some (node, escape)" using settles(1) by (auto simp: walk_returns_def Let_def)
    have "\<exists>l. node = LinkGen l \<and> l \<noteq> [] \<and> t = resolve_symlink (pa_guest ?P) l" if "proc_open FE k (pa_guest ?P) node fl = Inr t" for t
      using that by (cases node) (auto simp: proc_open_def Let_def resolve_symlink_def split: if_splits)
    then show ?thesis using on ProcPath l settles(4) by (subst path_open.simps) (auto simp: Let_def goes_on_def split: sum.splits)
  qed (subst path_open.simps, simp add: Let_def)
qed

lemma settles_call: "settles PE k me g \<Longrightarrow> PE = fe_proc FE k \<Longrightarrow> \<exists>r. path_call FE k me g op = Some r"
proof (induction arbitrary: op rule: settles.induct)
  case (settles g)
  let ?P = "ResolvePath (ps_root (ps_of k me)) g"
  have on: "\<exists>r. path_call FE k me g' op' = Some r" if "goes_on PE k me g g'" for g' op' using settles that by blast
  show ?case
  proof (cases "pa_class ?P")
    case DevPath
    have "d = Symlink l" if "dev_op FE k (pa_guest ?P) d op = Inr l" for d l using that by (cases op; cases d) (auto split: if_splits)
    then show ?thesis using on DevPath by (subst path_call.simps) (auto simp: Let_def goes_on_def split: prod.splits option.splits sum.splits if_splits)
  next
    case ProcPath
    then obtain node escape where l: "lookup PE k me (pa_guest ?P) = Some (node, escape)"
      "\<And>l. \<lbrakk>node = LinkGen l; l \<noteq> []; has_prefix ''/proc'' (resolve_symlink (pa_guest ?P) l)\<rbrakk> \<Longrightarrow> lookup PE k me (resolve_symlink (pa_guest ?P) l) \<noteq> None"
      using settles(1) by (auto simp: walk_returns_def Let_def)
    have st: "\<exists>r. proc_stat FE k me (pa_guest ?P) node m fl = Some r \<and> (\<forall>t. r = Inr t \<longrightarrow> (\<exists>l. node = LinkGen l \<and> l \<noteq> [] \<and> t = resolve_symlink (pa_guest ?P) l))" for m fl
      using l(2) settles(4) by (cases node) (auto simp: proc_stat_def Let_def resolve_symlink_def)
    have "\<exists>x. proc_stat FE k me (pa_guest ?P) node m fl \<bind> case_sum Some (\<lambda>t. path_call FE k me t op') = Some x" if "escape = []" for m fl op'
    proof -
      obtain r where r: "proc_stat FE k me (pa_guest ?P) node m fl = Some r"
        "\<And>t. r = Inr t \<Longrightarrow> \<exists>l. node = LinkGen l \<and> l \<noteq> [] \<and> t = resolve_symlink (pa_guest ?P) l" using st by blast
      show ?thesis
      proof (cases r)
        case (Inr t)
        then have "goes_on PE k me g t" using r(2) ProcPath l(1) that by (simp add: goes_on_def Let_def)
        then show ?thesis using on r(1) Inr by simp
      qed (use r(1) in simp)
    qed
    then show ?thesis using on ProcPath l(1) settles(4) by (subst path_call.simps) (auto simp: Let_def goes_on_def split: sum.splits path_op.splits)
  qed (subst path_call.simps, simp add: Let_def)
qed

subsection \<open>Names of paths\<close>

lemma strip_names: "is_absolute g \<Longrightarrow> path_names (strip_slashes g) = path_names g"
  using strip_rev_names [of "rev g"] by (simp add: strip_slashes_def)

lemma resolve_class:
  assumes "pa_class (ResolvePath root g) \<noteq> HostPath" "goes_down g"
  shows "path_names (pa_guest (ResolvePath root g)) = path_names g" "goes_down (pa_guest (ResolvePath root g))"
  using assms strip_names [of g] strip_slashes_down [of g] by (auto simp: ResolvePath_def make_path_def goes_down_def split: if_splits)

lemma proc_names:
  assumes "pa_class (ResolvePath root g) = ProcPath" "goes_down g"
  shows "path_names g = ''proc'' # path_names (drop 5 (pa_guest (ResolvePath root g)))" "list_all plain_name (path_names (drop 5 (pa_guest (ResolvePath root g))))"
proof -
  let ?p = "pa_guest (ResolvePath root g)"
  have g: "is_proc g" "?p = strip_slashes g" using assms by (auto simp: ResolvePath_def make_path_def split: if_splits)
  obtain s where s: "strip_slashes g @ s = g" "set s \<subseteq> {slash}" using strip_slashes_split [of g] by metis
  have p: "?p = ''/proc'' @ drop 5 ?p" using drop_proc [OF proc_path_prefix [OF assms(1)]] .
  have "drop 5 ?p = [] \<or> (\<exists>r. drop 5 ?p = slash # r)"
  proof (cases "drop 5 ?p")
    case (Cons c r)
    have "''/proc'' @ (c # r) @ s = g" using s(1) g(2) p Cons by (metis append.assoc)
    then show ?thesis using g(1) Cons by (auto simp: is_proc_def has_prefix_append)
  qed simp
  then have "path_names ?p = ''proc'' # path_names (drop 5 ?p)"
  proof
    assume "drop 5 ?p = []"
    then show ?thesis using p by (simp add: path_names_def)
  next
    assume "\<exists>r. drop 5 ?p = slash # r"
    then obtain r where r: "drop 5 ?p = slash # r" by blast
    have "path_names (''/proc'' @ slash # r) = path_names ''/proc'' @ path_names r" by (rule path_names_simps(3))
    then show ?thesis using p r by (simp add: path_names_def)
  qed
  then show "path_names g = ''proc'' # path_names (drop 5 ?p)" using resolve_class [of root g] assms by simp
  then show "list_all plain_name (path_names (drop 5 ?p))" using assms(2) by (simp add: goes_down_names)
qed

lemma append_names: "\<lbrakk>goes_down p; list_all plain_name ns\<rbrakk> \<Longrightarrow> path_names (foldl path_append p ns) = path_names p @ ns"
proof (induction ns arbitrary: p)
  case (Cons n ns)
  have "goes_down (path_append p n)" using Cons.prems append_names_down [of p "[n]"] by simp
  then show ?case using Cons path_names_append [of p n] by (simp add: goes_down_def)
qed simp

subsection \<open>Links of /dev\<close>

lemma self_step:
  assumes "rest \<noteq> []"
  shows "lookup_loop (proc_root PE k me) (''self'' # rest) (proc_root PE k me) ''/proc''
    = lookup_loop (proc_root PE k me) (u64_string (tg_tgid (tg_of k me)) # rest) (proc_root PE k me) ''/proc''"
proof -
  let ?t = "u64_string (tg_tgid (tg_of k me))"
  have t: "plain_name ?t" "plain_name ''self''" using u64_string_ok by (simp_all add: plain_name_def) (simp add: name_ok_def)
  then have "path_names ?t = [?t]" "\<not> is_absolute ?t" "?t \<noteq> []"
    using u64_string_ok(4) [of slash] by (auto simp: plain_name_def is_absolute_def name_ok_def is_digit_def neq_Nil_conv)
  then show ?thesis using root_link [OF root_entries_of(2), of k me rest PE] t assms by simp
qed

lemma fd_walk: "\<exists>node. lookup_loop (proc_root PE k me) [''self'', ''fd'', n] (proc_root PE k me) ''/proc'' = Some (node, []) \<and> (\<forall>l. node \<noteq> LinkGen l)"
proof -
  let ?p = "tg_tgid (tg_of k me)"
  show ?thesis
  proof (cases "map_of (k_pid_map k) ?p")
    case None
    then show ?thesis using self_step dir_miss root_entries_of(1) [of PE k me ?p] by (simp add: proc_root_entries)
  next
    case (Some t)
    have m: "map_of (root_entries PE k me) (u64_string ?p) = Some (DirGen (proc_pid_entries PE k ?p t))" using Some by (simp add: root_entries_of)
    have f: "map_of (proc_pid_entries PE k ?p t) ''fd'' = Some (DirGen (gen_pid_fd_entries PE k t))"
      by (simp add: proc_pid_entries_def task_entries_def proc_task_common_entries_def)
    have "lookup_loop (proc_root PE k me) [''self'', ''fd'', n] (proc_root PE k me) ''/proc''
      = lookup_loop (proc_root PE k me) [n] (DirGen (gen_pid_fd_entries PE k t)) (''/proc/'' @ u64_string ?p @ ''/fd'')"
      using self_step [of "[''fd'', n]" PE k me] dir_step [OF m, of "proc_root PE k me" "[''fd'', n]" "''/proc''"]
        dir_step [OF f, of "proc_root PE k me" "[n]" "''/proc/'' @ u64_string ?p"] by (simp add: proc_root_entries)
    moreover have "map_of (gen_pid_fd_entries PE k t) n = Some g \<Longrightarrow> \<exists>i l. g = FdLinkGen i l" for g
      by (auto simp: gen_pid_fd_entries_def dest!: map_of_SomeD)
    ultimately show ?thesis using dir_miss dir_step by (cases "map_of (gen_pid_fd_entries PE k t) n") (auto simp: loop_end)
  qed
qed

lemma settles_fd_link: "(g, Symlink l) \<in> set dev_nodes \<Longrightarrow> g \<noteq> ''/dev/fd'' \<Longrightarrow> settles PE k me l"
proof -
  assume "(g, Symlink l) \<in> set dev_nodes" "g \<noteq> ''/dev/fd''"
  then obtain n where n: "l = ''/proc/self/fd/'' @ n" "n \<in> {''0'', ''1'', ''2''}" by (auto simp: dev_nodes_def)
  have p: "ResolvePath root l = make_path ProcPath root l" for root
    using n by (auto simp: ResolvePath_def is_proc_def has_prefix_def strip_slashes_def)
  have "path_names (drop 5 l) = [''self'', ''fd'', n]" using n by (auto simp: path_names_def)
  then obtain node where "lookup PE k me l = Some (node, [])" "\<And>l. node \<noteq> LinkGen l"
    using fd_walk [of PE k me n] by (auto simp: lookup_def Let_def)
  then show "settles PE k me l"
    by (intro settles.settles [of PE k me l]) (auto simp: walk_returns_def goes_on_def p make_path_def)
qed

lemma settles_dev:
  assumes g: "pa_class (ResolvePath (ps_root (ps_of k me)) g) = DevPath" "goes_down g"
    and s: "\<And>e. \<lbrakk>take 2 (path_names g) = [''dev'', ''fd'']; goes_down e; path_names e = ''proc'' # ''self'' # ''fd'' # drop 2 (path_names g)\<rbrakk> \<Longrightarrow> settles PE k me e"
  shows "settles PE k me g"
proof (rule settles.settles)
  let ?p = "pa_guest (ResolvePath (ps_root (ps_of k me)) g)"
  show "walk_returns PE k me g" using g(1) by (simp add: walk_returns_def)
  have gd: "goes_down ?p" "path_names ?p = path_names g" using resolve_class [of "ps_root (ps_of k me)" g] g by simp_all
  fix g' assume on: "goes_on PE k me g g'"
  obtain info escape where d: "dev_lookup k ?p = (info, escape)" by fastforce
  consider (escape) r where "?p = ''/dev/fd'' @ slash # r" "g' = ''/proc/self/fd'' @ slash # r" | (link) "(?p, Symlink g') \<in> set dev_nodes"
    using on d g(1) by (auto simp: goes_on_def dev_lookup_def Let_def has_prefix_append dest!: map_of_SomeD split: option.splits if_splits)
  then show "settles PE k me g'"
  proof cases
    case escape
    have "path_names ?p = path_names ''/dev/fd'' @ path_names r" "path_names g' = path_names ''/proc/self/fd'' @ path_names r"
      unfolding escape by (rule path_names_simps(3))+
    then have n: "path_names g = ''dev'' # ''fd'' # path_names r" "path_names g' = ''proc'' # ''self'' # ''fd'' # path_names r" using gd by (simp_all add: path_names_def)
    have "goes_down g'" using g(2) n by (auto simp: goes_down_def escape is_absolute_def)
    then show ?thesis using s n by simp
  next
    case link
    then show ?thesis
    proof (cases "?p = ''/dev/fd''")
      case True
      then have l: "g' = ''/proc/self/fd''" using link by (auto simp: dev_nodes_def)
      have "path_names g = [''dev'', ''fd'']" using gd(2) True by (simp add: path_names_def)
      then show ?thesis by (intro s) (simp_all add: l path_names_def goes_down_def is_absolute_def)
    qed (use settles_fd_link in blast)
  qed
qed

subsection \<open>Every path\<close>

lemma settles_host: "pa_class (ResolvePath (ps_root (ps_of k me)) g) = HostPath \<Longrightarrow> settles PE k me g"
  by (rule settles.settles) (simp_all add: walk_returns_def goes_on_def)

lemma outside_class: "outside p \<Longrightarrow> pa_class (ResolvePath root p) \<noteq> ProcPath"
  by (auto simp: outside_def ResolvePath_def make_path_def is_proc_def has_prefix_append)

lemma settles_outside: "outside p \<Longrightarrow> settles PE k me p"
proof (cases "pa_class (ResolvePath (ps_root (ps_of k me)) p)")
  case DevPath
  assume "outside p"
  then show ?thesis by (intro settles_dev [OF DevPath]) (auto simp: outside_def)
qed (use settles_host outside_class in blast)+

text \<open>The end of a walk: a path outside, or nothing to go on with.\<close>

lemma settles_walk:
  assumes g: "pa_class (ResolvePath (ps_root (ps_of k me)) g) = ProcPath"
    and l: "lookup PE k me (pa_guest (ResolvePath (ps_root (ps_of k me)) g)) = Some (node, e)" "walk_ok n (node, e)"
    and e: "e \<noteq> [] \<Longrightarrow> settles PE k me e"
  shows "settles PE k me g"
proof (rule settles.settles)
  have t: "outside (resolve_symlink p x)" if "node = LinkGen x" "x \<noteq> []" for p x
    using l(2) that by (auto simp: walk_ok_def leads_out_def resolve_symlink_def resolve_target_def)
  then have np: "\<not> has_prefix ''/proc'' (resolve_symlink p x)" if "node = LinkGen x" "x \<noteq> []" for p x using that by (simp add: outside_def)
  show "walk_returns PE k me g" using l(1) np by (auto simp: walk_returns_def Let_def)
  show "settles PE k me g'" if "goes_on PE k me g g'" for g'
    using that g l(1) t e settles_outside by (auto simp: goes_on_def split: if_splits)
qed

text \<open>Links of the root of /proc.\<close>

lemma root_link_names:
  assumes "path_names p = [''proc'', seg]" "plain_name seg" "\<not> is_absolute l" "l \<noteq> []" "list_all plain_name (path_names l)"
  shows "has_prefix ''/proc'' (resolve_symlink p l)" "path_names (drop 5 (resolve_symlink p l)) = path_names l"
    "path_names (resolve_symlink p l) = ''proc'' # path_names l"
proof -
  have "path_names (under ''/proc'' [seg]) = [''proc'', seg]" using names_under [of "[seg]"] assms(2) by simp
  then have "resolve_symlink p l = resolve_target (under ''/proc'' ([] @ [seg])) l"
    using assms(1,4) by (simp only: resolve_symlink_def resolve_target_def parent_path_def append_Nil) simp
  then show "has_prefix ''/proc'' (resolve_symlink p l)" "path_names (drop 5 (resolve_symlink p l)) = path_names l"
    "path_names (resolve_symlink p l) = ''proc'' # path_names l"
    using relative_target [of "[]" l seg] assms by simp_all
qed

lemma root_links:
  assumes "links_tame PE k" "map_of (root_entries PE k me) seg = Some (LinkGen l)"
  shows "\<not> is_absolute l \<and> l \<noteq> [] \<and> list_all plain_name (path_names l)
    \<and> (\<exists>r. lookup_loop (proc_root PE k me) (path_names l) (proc_root PE k me) ''/proc'' = Some r \<and> walk_ok 0 r)"
proof -
  let ?t = "u64_string (tg_tgid (tg_of k me))" and ?p = "u64_string (t_pid (k_task k me))"
  have pn: "plain_name ?t" "plain_name ?p" "plain_name ''task''" "plain_name ''self''" "plain_name ''mounts''"
    using u64_string_ok by (simp_all add: plain_name_def) (simp_all add: name_ok_def)
  then have tn: "path_names ?t = [?t]" "\<not> is_absolute ?t" "?t \<noteq> []"
    using u64_string_ok(4) [of slash] by (auto simp: plain_name_def is_absolute_def name_ok_def is_digit_def neq_Nil_conv)
  have ts: "path_names (?t @ ''/task/'' @ ?p) = [?t, ''task'', ?p]" "\<not> is_absolute (?t @ ''/task/'' @ ?p)"
    using path_names_simps(3) [of ?t "''task'' @ slash # ?p"] path_names_simps(3) [of "''task''" ?p] tn pn
    by (simp_all add: plain_name_def is_absolute_def)
  have ms: "path_names ''self/mounts'' = [''self'', ''mounts'']" by (simp add: path_names_def)
  have "seg \<in> {''self'', ''thread-self'', ''mounts''}"
    using root_entries_cases [OF assms(2)] assms(2) root_entries_of(1) [of PE k me] by auto
  then consider "l = ?t" | "l = ?t @ ''/task/'' @ ?p" | "l = ''self/mounts''" using assms(2) root_entries_of(2-4) [of PE k me] by auto
  then show ?thesis
  proof cases
    case 1
    then show ?thesis using tn pn pid_returns [OF assms(1), of "[]"] by simp
  next
    case 2
    have "l \<noteq> []" unfolding 2 by simp
    then show ?thesis using ts pn task_returns [OF assms(1), of "[]"] unfolding 2 ts(1) by simp
  next
    case 3
    then show ?thesis using ms pn self_step [of "[''mounts'']" PE k me] mounts_returns [of PE k me _ "[]"] by (simp add: is_absolute_def)
  qed
qed

text \<open>A walk makes a path shorter, and the way through /dev/fd does not make it as long again.\<close>

lemma settles_proc:
  assumes l: "links_tame PE k" and g: "pa_class (ResolvePath (ps_root (ps_of k me)) g) = ProcPath" "goes_down g"
    and s: "\<And>e ns. \<lbrakk>goes_down e; path_names e = ''proc'' # ns; length (path_names e) < length (path_names g)\<rbrakk> \<Longrightarrow> settles PE k me e"
  shows "settles PE k me g"
proof -
  let ?root = "ps_root (ps_of k me)" and ?p = "pa_guest (ResolvePath (ps_root (ps_of k me)) g)"
  let ?segs = "path_names (drop 5 ?p)"
  note n = proc_names [OF g]
  obtain node e where r: "lookup PE k me ?p = Some (node, e)"
    "walk_ok (length ?segs - 1) (node, e) \<or> (\<exists>seg l. ?segs = [seg] \<and> (node, e) = (LinkGen l, []) \<and> map_of (root_entries PE k me) seg = Some (LinkGen l))"
    using lookup_loop_returns [OF l n(2), of me] by (auto simp: lookup_def Let_def)
  from r(2) show ?thesis
  proof
    assume w: "walk_ok (length ?segs - 1) (node, e)"
    show ?thesis
    proof (rule settles_walk [OF g(1) r(1) w])
      assume "e \<noteq> []"
      then obtain rs rest where e: "e = foldl path_append rs rest" "outside rs" "list_all plain_name rest" "length rest < length ?segs - 1"
        using w by (auto simp: walk_ok_def)
      have ed: "goes_down e" "path_names e = path_names rs @ rest" using e append_names_down append_names by (auto simp: outside_def)
      show "settles PE k me e"
      proof (cases "pa_class (ResolvePath ?root e)")
        case ProcPath
        then have "path_names rs = []" using proc_names(1) [OF ProcPath ed(1)] ed(2) e(2) by (cases "path_names rs") (auto simp: outside_def)
        then show ?thesis using s [OF ed(1) proc_names(1) [OF ProcPath ed(1)]] ed(2) e(4) n(1) by simp
      next
        case DevPath
        show ?thesis
        proof (rule settles_dev [OF DevPath ed(1)])
          fix f assume f: "take 2 (path_names e) = [''dev'', ''fd'']" "goes_down f" "path_names f = ''proc'' # ''self'' # ''fd'' # drop 2 (path_names e)"
          have "length (path_names rs) < 2" using f(1) e(2) ed(2) by (cases "path_names rs"; cases "tl (path_names rs)") (auto simp: outside_def)
          then have "length (path_names f) < length (path_names g)" using f(3) ed(2) e(4) n(1) arg_cong [OF f(1), of length] by simp
          then show "settles PE k me f" using s f(2,3) by blast
        qed
      qed (rule settles_host)
    qed
  next
    assume "\<exists>seg l. ?segs = [seg] \<and> (node, e) = (LinkGen l, []) \<and> map_of (root_entries PE k me) seg = Some (LinkGen l)"
    then obtain seg x where x: "?segs = [seg]" "node = LinkGen x" "e = []" "map_of (root_entries PE k me) seg = Some (LinkGen x)" by auto
    note rl = root_links [OF l x(4)]
    let ?t = "resolve_symlink ?p x"
    have "path_names ?p = [''proc'', seg]" using resolve_class [of ?root g] g n(1) x(1) by simp
    note tn = root_link_names [OF this, of x]
    have sp: "plain_name seg" using n(2) x(1) by simp
    have "settles PE k me ?t"
    proof (cases "pa_class (ResolvePath ?root ?t)")
      case ProcPath
      have "goes_down ?t" using rl resolve_target_down by (simp add: resolve_symlink_def)
      from proc_names(1) [OF ProcPath this] tn(3) sp rl have "path_names (drop 5 (pa_guest (ResolvePath ?root ?t))) = path_names x" by simp
      then obtain node' e' where w: "lookup PE k me (pa_guest (ResolvePath ?root ?t)) = Some (node', e')" "walk_ok 0 (node', e')"
        using rl by (auto simp: lookup_def Let_def)
      show ?thesis by (rule settles_walk [OF ProcPath w]) (use w(2) in \<open>simp add: walk_ok_def\<close>)
    next
      case DevPath
      then show ?thesis using tn(1) sp rl by (auto simp: ResolvePath_def make_path_def is_dev_def has_prefix_append split: if_splits)
    qed (rule settles_host)
    moreover have "lookup PE k me ?t \<noteq> None" using tn(2) sp rl by (auto simp: lookup_def Let_def)
    ultimately show ?thesis
      by (intro settles.settles [of PE k me g]) (use r(1) g(1) x in \<open>auto simp: walk_returns_def goes_on_def Let_def\<close>)
  qed
qed

lemma settles_proc_names:
  assumes "links_tame PE k" "goes_down g" "path_names g = ''proc'' # ns"
  shows "settles PE k me g"
  using assms(2,3)
proof (induction "length (path_names g)" arbitrary: g ns rule: less_induct)
  case less
  show ?case
  proof (cases "pa_class (ResolvePath (ps_root (ps_of k me)) g)")
    case ProcPath
    then show ?thesis using settles_proc [OF assms(1) ProcPath less.prems(1)] less by blast
  next
    case DevPath
    then show ?thesis by (rule settles_dev) (use less.prems in simp_all)
  qed (rule settles_host)
qed

lemma settles_down:
  assumes l: "links_tame PE k" and g: "down_or_none g"
  shows "settles PE k me g"
proof (cases "g = []")
  case True
  then show ?thesis by (intro settles_host) (simp add: ResolvePath_def is_proc_def is_dev_def has_prefix_def make_path_def)
next
  case False
  then have d: "goes_down g" using g by simp
  show ?thesis
  proof (cases "pa_class (ResolvePath (ps_root (ps_of k me)) g)")
    case ProcPath
    show ?thesis by (rule settles_proc_names [OF l d proc_names(1) [OF ProcPath d]])
  next
    case DevPath
    show ?thesis by (rule settles_dev [OF DevPath d]) (rule settles_proc_names [OF l])
  qed (rule settles_host)
qed

subsection \<open>A walk that does not return\<close>

text \<open>
  The working directory is named through itself. The states of the walk come back to the link cwd of
  the task with one more name to go each time.
\<close>

definition going_round :: "proc_env \<Rightarrow> kern \<Rightarrow> nat \<Rightarrow> nat \<Rightarrow> string list \<Rightarrow> gen \<Rightarrow> string \<Rightarrow> bool" where
  "going_round PE k me t segs cur p \<longleftrightarrow>
     (let tgid = tg_tgid (tg_of k me); R = proc_root PE k me in
      \<exists>n ns. (segs, cur, p) \<in> {(''self'' # ''cwd'' # n # ns, R, ''/proc''), (''self'' # ''cwd'' # n # ns, LinkGen (u64_string tgid), ''/proc/self''),
        (u64_string tgid # ''cwd'' # n # ns, R, ''/proc''), (''cwd'' # n # ns, DirGen (proc_pid_entries PE k tgid t), ''/proc/'' @ u64_string tgid),
        (''cwd'' # n # ns, LinkGen ''/proc/self/cwd/fd'', ''/proc/'' @ u64_string tgid @ ''/cwd'')})"

lemma never_ends:
  assumes t: "map_of (k_pid_map k) (tg_tgid (tg_of k me)) = Some t" and c: "ps_cwd (ps_of k t) = ''/proc/self/cwd/fd''"
    and r: "lookup_loop R segs cur p = Some r"
  shows "R = proc_root PE k me \<longrightarrow> \<not> going_round PE k me t segs cur p"
proof (rule lookup_loop.raw_induct [OF _ r], intro impI notI, goal_cases)
  case (1 f R segs cur p r)
  let ?p = "tg_tgid (tg_of k me)" let ?t = "u64_string ?p"
  note step = 1(2) and R = 1(3)
  have root: "map_of (root_entries PE k me) ''self'' = Some (LinkGen ?t)" "map_of (root_entries PE k me) ?t = Some (DirGen (proc_pid_entries PE k ?p t))"
    using t by (simp_all add: root_entries_of)
  have cwd: "map_of (proc_pid_entries PE k ?p t) ''cwd'' = Some (LinkGen ''/proc/self/cwd/fd'')"
    using c by (simp add: proc_pid_entries_def task_entries_def proc_task_common_entries_def)
  have res: "resolve_target x ''/proc/self/cwd/fd'' = ''/proc/self/cwd/fd''" for x
    by (simp add: resolve_target_def lexically_normal_def Let_def is_absolute_def path_names_def)
  have tn: "plain_name ?t" "plain_name ''self''" using u64_string_ok by (simp_all add: plain_name_def) (simp add: name_ok_def)
  then have tt: "path_names ?t = [?t]" "\<not> is_absolute ?t" "?t \<noteq> []"
    using u64_string_ok(4) [of slash] by (auto simp: plain_name_def is_absolute_def name_ok_def is_digit_def neq_Nil_conv)
  have self: "has_prefix ''/proc'' (resolve_target ''/proc/self'' ?t)" "path_names (drop 5 (resolve_target ''/proc/self'' ?t)) = [?t]"
    using relative_target [of "[]" ?t "''self''"] tn tt by simp_all
  let ?g = "\<lambda>segs cur p. going_round PE k me t segs cur p"
  have IH: "\<not> ?g segs cur p" if "f R segs cur p = Some r" for segs cur p using 1(1) [OF that] 1(3) by blast
  have g: "?g (''self'' # ''cwd'' # n # ns) R ''/proc''" "?g (''self'' # ''cwd'' # n # ns) (LinkGen ?t) ''/proc/self''"
    "?g (?t # ''cwd'' # n # ns) R ''/proc''" "?g (''cwd'' # n # ns) (DirGen (proc_pid_entries PE k ?p t)) (''/proc/'' @ ?t)"
    "?g (''cwd'' # n # ns) (LinkGen ''/proc/self/cwd/fd'') (''/proc/'' @ ?t @ ''/cwd'')" for n ns
    unfolding going_round_def Let_def 1(3) by blast+
  have names: "path_names ''/self/cwd/fd'' = [''self'', ''cwd'', ''fd'']" by (simp add: path_names_def)
  from 1(4) consider n ns where "segs = ''self'' # ''cwd'' # n # ns" "cur = R" "p = ''/proc''"
    | n ns where "segs = ''self'' # ''cwd'' # n # ns" "cur = LinkGen ?t" "p = ''/proc/self''"
    | n ns where "segs = ?t # ''cwd'' # n # ns" "cur = R" "p = ''/proc''"
    | n ns where "segs = ''cwd'' # n # ns" "cur = DirGen (proc_pid_entries PE k ?p t)" "p = ''/proc/'' @ ?t"
    | n ns where "segs = ''cwd'' # n # ns" "cur = LinkGen ''/proc/self/cwd/fd''" "p = ''/proc/'' @ ?t @ ''/cwd''"
    unfolding going_round_def Let_def 1(3) by blast
  then show False
  proof cases
    case (1 n ns)
    then show False using step root(1) IH g(2) [of n ns] R by (simp add: proc_root_entries)
  next
    case (2 n ns)
    then show False using step self tt(3) IH g(3) [of n ns] by (simp add: Let_def)
  next
    case (3 n ns)
    then show False using step root(2) IH g(4) [of n ns] R by (simp add: proc_root_entries)
  next
    case (4 n ns)
    then show False using step cwd IH g(5) [of n ns] by simp
  next
    case (5 n ns)
    then show False using step IH g(1) [of "''fd''" "n # ns"] names by (simp add: Let_def res has_prefix_def)
  qed
qed

lemma through_cwd:
  assumes t: "map_of (k_pid_map k) (tg_tgid (tg_of k me)) = Some t"
  shows "ps_cwd (ps_of k t) = ''/proc/self'' \<Longrightarrow> lookup PE k me ''/proc/self/cwd/fd'' = Some (DirGen (gen_pid_fd_entries PE k t), [])"
    and "ps_cwd (ps_of k t) = ''/proc/self/cwd/fd'' \<Longrightarrow> lookup PE k me ''/proc/self/cwd/fd'' = None"
proof -
  let ?p = "tg_tgid (tg_of k me)" and ?R = "proc_root PE k me"
  have m: "map_of (root_entries PE k me) (u64_string ?p) = Some (DirGen (proc_pid_entries PE k ?p t))" using t by (simp add: root_entries_of)
  have e: "map_of (proc_pid_entries PE k ?p t) ''cwd'' = Some (LinkGen (ps_cwd (ps_of k t)))"
    "map_of (proc_pid_entries PE k ?p t) ''fd'' = Some (DirGen (gen_pid_fd_entries PE k t))"
    by (simp_all add: proc_pid_entries_def task_entries_def proc_task_common_entries_def)
  have n: "path_names ''/self/cwd/fd'' = [''self'', ''cwd'', ''fd'']" "path_names ''/self'' = [''self'']" by (simp_all add: path_names_def)
  have r: "resolve_target x ''/proc/self'' = ''/proc/self''" for x
    by (simp add: resolve_target_def lexically_normal_def Let_def is_absolute_def path_names_def)
  have into: "lookup_loop ?R (''self'' # seg # rest) ?R ''/proc''
      = lookup_loop ?R (seg # rest) (DirGen (proc_pid_entries PE k ?p t)) (''/proc/'' @ u64_string ?p)" for seg rest
    using self_step [of "seg # rest" PE k me] dir_step [OF m, of ?R "seg # rest" "''/proc''"] by (simp add: proc_root_entries)
  have fd: "lookup_loop ?R [''self'', ''fd''] ?R ''/proc'' = Some (DirGen (gen_pid_fd_entries PE k t), [])"
    using into [of "''fd''" "[]"] dir_step [OF e(2)] by (simp add: loop_end)
  show "lookup PE k me ''/proc/self/cwd/fd'' = Some (DirGen (gen_pid_fd_entries PE k t), [])" if c: "ps_cwd (ps_of k t) = ''/proc/self''"
    using into [of "''cwd''" "[''fd'']"] dir_step [OF e(1)] link_step [of "LinkGen ''/proc/self''" "''/proc/self''"] n fd
    by (simp add: lookup_def Let_def c r has_prefix_def)
  show "lookup PE k me ''/proc/self/cwd/fd'' = None" if c: "ps_cwd (ps_of k t) = ''/proc/self/cwd/fd''"
  proof (rule ccontr)
    assume "lookup PE k me ''/proc/self/cwd/fd'' \<noteq> None"
    then obtain r where "lookup_loop ?R [''self'', ''cwd'', ''fd''] ?R ''/proc'' = Some r" using n by (auto simp: lookup_def Let_def)
    from never_ends [OF t c this] show False by (auto simp: going_round_def Let_def)
  qed
qed

end
