(* ===== verification/Posix_Fd_Props.thy ===== *)
theory Posix_Fd_Props
  imports Posix_Clone
begin

text \<open>
  Descriptor tables: the numbers of a table are distinct and not negative, and the token of a pseudo
  terminal counts the descriptors of its master side in all tables. Every call that changes a table
  keeps this.
\<close>

subsection \<open>Well-formed tables\<close>

definition table_ok :: "(int \<times> nat) list \<Rightarrow> bool" where
  "table_ok m \<longleftrightarrow> distinct (map fst m) \<and> (\<forall>fd \<in> fst ` set m. 0 \<le> fd)"

definition master_uses :: "kern \<Rightarrow> (int \<times> nat) list \<Rightarrow> nat \<Rightarrow> nat" where
  "master_uses k m x = length (filter (\<lambda>(fd, i). fd_master (k_fd k i) = Some x) m)"

definition fds_ok :: "nat set \<Rightarrow> kern \<Rightarrow> bool" where
  "fds_ok P k \<longleftrightarrow> finite P \<and> (\<forall>p \<in> P. table_ok (ps_fds (k_ps k p)))
     \<and> (\<forall>x. k_token k x = (\<Sum>p\<in>P. master_uses k (ps_fds (k_ps k p)) x))"

text \<open>An object number that no table has.\<close>

definition unused :: "nat set \<Rightarrow> kern \<Rightarrow> nat \<Rightarrow> bool" where
  "unused P k j \<longleftrightarrow> (\<forall>p \<in> P. j \<notin> snd ` set (ps_fds (k_ps k p)))"

lemma master_uses_cong: "\<forall>i \<in> snd ` set m. fd_master (k_fd k' i) = fd_master (k_fd k i) \<Longrightarrow> master_uses k' m x = master_uses k m x"
  unfolding master_uses_def by (rule arg_cong [of _ _ length], rule filter_cong) auto

lemma fds_ok_update:
  assumes ok: "fds_ok P k" and p: "p \<in> P" and others: "\<forall>q \<in> P - {p}. ps_fds (k_ps k' q) = ps_fds (k_ps k q)" and t: "table_ok (ps_fds (k_ps k' p))"
    and m: "\<forall>q \<in> P - {p}. \<forall>i \<in> snd ` set (ps_fds (k_ps k q)). fd_master (k_fd k' i) = fd_master (k_fd k i)"
    and n: "\<And>x. k_token k' x + master_uses k (ps_fds (k_ps k p)) x = k_token k x + master_uses k' (ps_fds (k_ps k' p)) x"
  shows "fds_ok P k'"
proof -
  have f: "finite P" using ok by (simp add: fds_ok_def)
  have rest: "(\<Sum>q\<in>P - {p}. master_uses k' (ps_fds (k_ps k' q)) x) = (\<Sum>q\<in>P - {p}. master_uses k (ps_fds (k_ps k q)) x)" for x
    using others m master_uses_cong by (intro sum.cong) auto
  have "k_token k' x = (\<Sum>q\<in>P. master_uses k' (ps_fds (k_ps k' q)) x)" for x
    using n [of x] ok rest [of x] sum.remove [OF f p, of "\<lambda>q. master_uses k (ps_fds (k_ps k q)) x"] sum.remove [OF f p, of "\<lambda>q. master_uses k' (ps_fds (k_ps k' q)) x"]
    by (simp add: fds_ok_def)
  moreover have "table_ok (ps_fds (k_ps k' q))" if "q \<in> P" for q using ok others t that by (cases "q = p") (simp_all add: fds_ok_def)
  ultimately show ?thesis using f by (simp add: fds_ok_def)
qed

subsection \<open>Steps that leave the tables alone\<close>

definition same_fds :: "kern \<Rightarrow> kern \<Rightarrow> bool" where
  "same_fds k k' \<longleftrightarrow> k_ps k' = k_ps k \<and> k_fd k' = k_fd k \<and> k_token k' = k_token k \<and> (\<forall>t. t_ps (k_task k' t) = t_ps (k_task k t))"

lemma same_fds_refl [simp]: "same_fds k k"
  by (simp add: same_fds_def)

lemma same_fds_trans: "same_fds k k1 \<Longrightarrow> same_fds k1 k2 \<Longrightarrow> same_fds k k2"
  by (simp add: same_fds_def)

lemma same_fds_fold: "(\<And>x k. same_fds k (f x k)) \<Longrightarrow> same_fds k (fold f xs k)"
  by (induction xs arbitrary: k) (auto intro: same_fds_trans)

lemma same_fds_ok: "same_fds k k' \<Longrightarrow> fds_ok P k' = fds_ok P k" "same_fds k k' \<Longrightarrow> unused P k' j = unused P k j"
  by (simp_all add: same_fds_def fds_ok_def unused_def master_uses_def)

lemma same_fds_flags [simp]: "same_fds k (or_flags f t k)" "same_fds k (and_flags f t k)" "same_fds k (wakeup b t k)" "same_fds k (kick t k)" "same_fds k (upd_tg g h k)"
  "same_fds k (upd_task t (\<lambda>T. T\<lparr>t_pending := q T\<rparr>) k)"
  by (simp_all add: same_fds_def or_flags_def and_flags_def wakeup_def kick_def upd_tg_def upd_task_def)

lemmas same_fds_steps = same_fds_flags [THEN same_fds_trans [rotated]]

lemma same_fds_queue_nonstop: "same_fds k (queue_nonstop t ev k)"
proof -
  have e: "same_fds k (enqueue_signal t ev k)"
    unfolding enqueue_signal_def by (auto intro!: same_fds_steps)
  have "same_fds k (cont_group g k)" for g
    unfolding cont_group_def by (rule same_fds_trans [OF same_fds_flags(5)], rule same_fds_fold) (auto intro!: same_fds_steps)
  then show ?thesis using e unfolding queue_nonstop_def Let_def by (auto intro!: same_fds_steps)
qed

lemma same_fds_queue_signal: "same_fds k (queue_signal t ev k)"
proof -
  have w: "same_fds k (wake_waiters g k)" for g k
    unfolding wake_waiters_def by (rule same_fds_trans [OF same_fds_flags(5)], rule same_fds_fold) simp
  have n: "same_fds k (notify_parent_sigchld t k)" for k
    unfolding notify_parent_sigchld_def Let_def using w same_fds_trans [OF w same_fds_queue_nonstop] by (simp split: option.splits)
  have "same_fds k (stop_process t sig k)" for sig
  proof -
    let ?g = "t_tg (k_task k t)" let ?k1 = "upd_tg ?g (\<lambda>G. G\<lparr>tg_stopped := True, tg_stop_sig := sig\<rparr>) k"
    have "same_fds k (fold (\<lambda>v k. wakeup False v (or_flags VM_STOPPED v k)) (live_threads ?k1 ?g) ?k1)"
      by (rule same_fds_trans [OF same_fds_flags(5)], rule same_fds_fold) (auto intro!: same_fds_steps)
    then show ?thesis unfolding stop_process_def Let_def by (auto intro: same_fds_trans [OF _ n] same_fds_steps)
  qed
  then show ?thesis using same_fds_queue_nonstop unfolding queue_signal_def Let_def by auto
qed

lemma same_fds_on_close: "same_fds k (fd_on_close t i k)"
proof -
  have d: "same_fds k (deliver_to_ctty_fg t y sig k)" for y sig k
    unfolding deliver_to_ctty_fg_def Let_def by (simp add: same_fds_queue_signal same_fds_fold)
  have "same_fds k (k\<lparr>k_ptmx := x\<rparr>)" for x by (simp add: same_fds_def)
  then have "same_fds k (deliver_to_ctty_fg t y sig (k\<lparr>k_ptmx := x\<rparr>))" for x y sig using d same_fds_trans by blast
  then show ?thesis unfolding fd_on_close_def using d by (simp split: option.splits)
qed

subsection \<open>New descriptors\<close>

lemma first_free_ok: "first_free m n \<notin> fst ` set m \<and> n \<le> first_free m n"
proof (induction m n rule: first_free.induct)
  case (1 m n)
  then show ?case by (cases "n \<in> fst ` set m") (simp_all add: first_free.simps [of m n])
qed

definition one_if :: "bool \<Rightarrow> nat" where
  "one_if b = (if b then 1 else 0)"

lemma master_uses_simps [simp]:
  "master_uses k [] x = 0" "master_uses k ((fd, i) # m) x = one_if (fd_master (k_fd k i) = Some x) + master_uses k m x"
  "master_uses k (m @ m') x = master_uses k m x + master_uses k m' x"
  by (simp_all add: master_uses_def one_if_def)

lemma new_fd_simps [simp]:
  "k_ps (new_fd j F k) = k_ps k" "k_task (new_fd j F k) = k_task k" "k_fd (new_fd j F k) = (k_fd k)(j := F)"
  "k_token (new_fd j F k) x = k_token k x + one_if (fd_master F = Some x)"
  by (auto simp: new_fd_def one_if_def split: option.split)

lemma upd_new_fd: "fd_master (f F) = fd_master F \<Longrightarrow> upd_fd j f (new_fd j F k) = new_fd j (f F) k"
  by (simp add: upd_fd_def new_fd_def)

lemma new_fd_uses: "j \<notin> snd ` set m \<Longrightarrow> master_uses (new_fd j F k) m x = master_uses k m x"
  by (rule master_uses_cong) auto

lemma emplace_ok:
  assumes ok: "fds_ok P k" and t: "t_ps (k_task k t) \<in> P" and j: "unused P k j" and n: "0 \<le> min_fd"
  shows "fds_ok P (snd (emplace_fd t j min_fd (new_fd j F k)))"
proof -
  let ?p = "t_ps (k_task k t)" and ?k' = "snd (emplace_fd t j min_fd (new_fd j F k))"
  have T: "ps_fds (k_ps ?k' q) = (if q = ?p then ps_fds (k_ps k ?p) @ [(first_free (ps_fds (k_ps k ?p)) min_fd, j)] else ps_fds (k_ps k q))" for q
    by (simp add: emplace_fd_def fds_emplace_def Let_def upd_ps_def)
  have K: "k_fd ?k' = (k_fd k)(j := F)" "k_token ?k' x = k_token k x + one_if (fd_master F = Some x)" for x
    by (simp_all add: emplace_fd_def fds_emplace_def Let_def upd_ps_def)
  have "j \<notin> snd ` set (ps_fds (k_ps k ?p))" using j t by (simp add: unused_def)
  then have u: "master_uses ?k' (ps_fds (k_ps k ?p)) x = master_uses k (ps_fds (k_ps k ?p)) x" for x by (intro master_uses_cong) (auto simp: K)
  show ?thesis
  proof (rule fds_ok_update [OF ok t])
    show "table_ok (ps_fds (k_ps ?k' ?p))"
      using ok t n first_free_ok [of "ps_fds (k_ps k ?p)" min_fd] by (auto simp: T table_ok_def fds_ok_def)
  qed (use j u in \<open>auto simp: T K unused_def\<close>)
qed

subsection \<open>Descriptors that go\<close>

lemma fd_release_simps [simp]:
  "k_ps (fd_release i k) = k_ps k" "k_task (fd_release i k) = k_task k" "k_fd (fd_release i k) = k_fd k"
  "k_token (fd_release i k) x = k_token k x - one_if (fd_master (k_fd k i) = Some x)"
  by (auto simp: fd_release_def one_if_def split: option.split)

lemma fold_release [simp]:
  "k_ps (fold fd_release fs k) = k_ps k" "k_task (fold fd_release fs k) = k_task k" "k_fd (fold fd_release fs k) = k_fd k"
  "k_token (fold fd_release fs k) x = k_token k x - length (filter (\<lambda>i. fd_master (k_fd k i) = Some x) fs)"
  by (induction fs arbitrary: k) (simp_all add: one_if_def)

lemma uses_split: "master_uses k m x = master_uses k (filter Q m) x + length (filter (\<lambda>i. fd_master (k_fd k i) = Some x) (map snd (filter (\<lambda>e. \<not> Q e) m)))"
  by (induction m) (auto simp: master_uses_def)

lemma uses_le_token: "fds_ok P k \<Longrightarrow> p \<in> P \<Longrightarrow> master_uses k (ps_fds (k_ps k p)) x \<le> k_token k x"
  by (auto simp: fds_ok_def intro: member_le_sum)

lemma table_ok_filter: "table_ok m \<Longrightarrow> table_ok (filter Q m)"
  by (auto simp: table_ok_def distinct_map_filter)

text \<open>The entries of a table that satisfy Q stay, and the objects of the others are released.\<close>

lemma keep_ok:
  assumes ok: "fds_ok P k" and p: "p \<in> P" and f: "ps_fds (f (k_ps k p)) = filter Q (ps_fds (k_ps k p))"
  shows "fds_ok P (fold fd_release (map snd (filter (\<lambda>e. \<not> Q e) (ps_fds (k_ps k p)))) (upd_ps p f k))"
proof (rule fds_ok_update [OF ok p])
  fix x
  show "k_token (fold fd_release (map snd (filter (\<lambda>e. \<not> Q e) (ps_fds (k_ps k p)))) (upd_ps p f k)) x + master_uses k (ps_fds (k_ps k p)) x
    = k_token k x + master_uses (fold fd_release (map snd (filter (\<lambda>e. \<not> Q e) (ps_fds (k_ps k p)))) (upd_ps p f k))
        (ps_fds (k_ps (fold fd_release (map snd (filter (\<lambda>e. \<not> Q e) (ps_fds (k_ps k p)))) (upd_ps p f k)) p)) x"
    using uses_split [of k "ps_fds (k_ps k p)" x Q] uses_le_token [OF ok p, of x] f by (simp add: upd_ps_def master_uses_def)
qed (use ok p f table_ok_filter in \<open>auto simp: upd_ps_def fds_ok_def\<close>)

lemma gone_single: "\<lbrakk>table_ok m; map_of m fd = Some i\<rbrakk> \<Longrightarrow> filter (\<lambda>e. \<not> (case e of (f, j) \<Rightarrow> f \<noteq> fd)) m = [(fd, i)]"
proof (induction m)
  case (Cons e m)
  have "filter (\<lambda>e. \<not> (case e of (f, j) \<Rightarrow> f \<noteq> fd)) m = []" if "fst e = fd"
    using Cons.prems(1) that by (auto simp: table_ok_def filter_empty_conv image_iff)
  then show ?case using Cons by (cases e) (auto simp: table_ok_def split: if_splits)
qed simp

lemma gone_fd:
  assumes "fds_ok P k" "p \<in> P" "find_fd (k_ps k p) fd = Some i"
  shows "filter (\<lambda>e. \<not> (case e of (f, j) \<Rightarrow> f \<noteq> fd)) (ps_fds (k_ps k p)) = [(fd, i)]"
  using assms by (intro gone_single) (simp_all add: fds_ok_def find_fd_def)

lemma erase_ok:
  assumes ok: "fds_ok P k" and p: "p \<in> P" and i: "find_fd (k_ps k p) fd = Some i"
  shows "fds_ok P (fd_release i (upd_ps p (erase_fd fd) k))"
  using keep_ok [OF ok p, of "erase_fd fd" "\<lambda>(f, j). f \<noteq> fd", unfolded gone_fd [OF assms]] by (simp add: erase_fd_def)

lemma add_ok:
  assumes ok: "fds_ok P k" and p: "p \<in> P" and j: "unused P k j" and fd: "0 \<le> fd" "fd \<notin> fst ` set (ps_fds (k_ps k p))"
  shows "fds_ok P (upd_ps p (put_fd fd j) (new_fd j F k))"
proof -
  let ?k' = "upd_ps p (put_fd fd j) (new_fd j F k)" and ?T = "ps_fds (k_ps k p)"
  have same: "filter (\<lambda>(f, j). f \<noteq> fd) ?T = ?T" using fd(2) by (force simp: filter_id_conv)
  have T: "ps_fds (k_ps ?k' q) = (if q = p then (fd, j) # ?T else ps_fds (k_ps k q))" for q by (simp add: upd_ps_def put_fd_def same)
  have K: "k_fd ?k' = (k_fd k)(j := F)" "k_token ?k' x = k_token k x + one_if (fd_master F = Some x)" for x by (simp_all add: upd_ps_def)
  have "j \<notin> snd ` set ?T" using j p by (simp add: unused_def)
  then have u: "master_uses ?k' ?T x = master_uses k ?T x" for x by (intro master_uses_cong) (auto simp: K)
  show ?thesis
  proof (rule fds_ok_update [OF ok p])
    show "table_ok (ps_fds (k_ps ?k' p))" using ok p fd by (auto simp: T table_ok_def fds_ok_def)
  qed (use j u in \<open>auto simp: T K unused_def\<close>)
qed

lemma unused_erase: "unused P k j \<Longrightarrow> unused P (fd_release i (upd_ps p (erase_fd fd) k)) j"
  by (auto simp: unused_def upd_ps_def erase_fd_def)

lemma put_over_ok:
  assumes ok: "fds_ok P k" and p: "p \<in> P" and j: "unused P k j" and fd: "0 \<le> fd" and i: "find_fd (k_ps k p) fd = Some i"
  shows "fds_ok P (fd_release i (upd_ps p (put_fd fd j) (new_fd j F k)))"
proof -
  let ?k1 = "fd_release i (upd_ps p (erase_fd fd) k)"
  have "one_if (fd_master (k_fd k i) = Some x) \<le> k_token k x" for x
    using uses_le_token [OF ok p, of x] uses_split [of k "ps_fds (k_ps k p)" x "\<lambda>(f, j). f \<noteq> fd", unfolded gone_fd [OF ok p i]]
    by (simp add: one_if_def split: if_splits)
  moreover have "i \<noteq> j" using i j p by (force simp: find_fd_def unused_def dest: map_of_SomeD)
  ultimately have "same_fds (upd_ps p (put_fd fd j) (new_fd j F ?k1)) (fd_release i (upd_ps p (put_fd fd j) (new_fd j F k)))"
    by (auto simp: same_fds_def upd_ps_def put_fd_def erase_fd_def fun_eq_iff)
  moreover have "fds_ok P (upd_ps p (put_fd fd j) (new_fd j F ?k1))"
    by (rule add_ok [OF erase_ok [OF ok p i] p unused_erase [OF j] fd]) (auto simp: upd_ps_def erase_fd_def)
  ultimately show ?thesis by (simp add: same_fds_ok)
qed

subsection \<open>The calls\<close>

lemma clone_ok:
  assumes "fd_clone err j i k = Inr k1"
  shows "\<exists>F. k1 = new_fd j F k"
  using assms by (auto simp: fd_clone_def split: if_splits)

lemma dup_ok:
  assumes "fds_ok P k" "t_ps (k_task k t) \<in> P" "unused P k j"
  shows "fds_ok P (snd (dup_call err j t fd k))"
  using assms clone_ok [of err j _ k] emplace_ok [OF assms, of 0] by (auto simp: dup_call_def split: option.splits sum.splits)

lemma set_cloexec_new: "\<exists>F'. upd_fd j (\<lambda>F. F\<lparr>fd_cloexec := b\<rparr>) (new_fd j F k) = new_fd j F' k"
  by (subst upd_new_fd) auto

lemma dup3_ok:
  assumes ok: "fds_ok P k" "t_ps (k_task k t) \<in> P" "unused P k j"
  shows "fds_ok P (snd (dup3_call err j t fd nfd flags k))"
proof (cases "fd < 0 \<or> nfd < 0 \<or> fd = nfd \<or> flags AND NOT BPF_O_CLOEXEC \<noteq> 0 \<or> find_fd (ps_of k t) fd = None")
  case False
  then obtain i where i: "find_fd (ps_of k t) fd = Some i" by auto
  show ?thesis
  proof (cases "fd_clone err j i k")
    case (Inr k1)
    then obtain F where "k1 = new_fd j F k" using clone_ok by blast
    then obtain F' where F: "(if flags AND BPF_O_CLOEXEC \<noteq> 0 then upd_fd j (\<lambda>F. F\<lparr>fd_cloexec := True\<rparr>) k1 else k1) = new_fd j F' k"
      using set_cloexec_new by metis
    let ?p = "t_ps (k_task k t)" and ?k2 = "new_fd j F' k"
    show ?thesis
    proof (cases "find_fd (k_ps k ?p) nfd")
      case None
      then have "nfd \<notin> fst ` set (ps_fds (k_ps k ?p))" by (simp add: find_fd_def map_of_eq_None_iff)
      then show ?thesis using False i Inr F None add_ok [OF ok, of nfd F'] by (simp add: dup3_call_def Let_def)
    next
      case (Some x)
      let ?k3 = "fd_on_close t x ?k2"
      have s: "same_fds ?k2 ?k3" by (rule same_fds_on_close)
      then have "same_fds (fd_release x (upd_ps ?p (put_fd nfd j) ?k2)) (fd_release x (upd_ps (t_ps (k_task ?k3 t)) (put_fd nfd j) ?k3))"
        by (auto simp: same_fds_def upd_ps_def fun_eq_iff)
      then show ?thesis using False i Inr F Some put_over_ok [OF ok, of nfd x F'] by (simp add: dup3_call_def Let_def same_fds_ok)
    qed
  qed (use False i ok in \<open>simp add: dup3_call_def\<close>)
qed (use ok in \<open>auto simp: dup3_call_def split: option.splits\<close>)

lemma close_ok:
  assumes ok: "fds_ok P k" "t_ps (k_task k t) \<in> P"
  shows "fds_ok P (snd (close_call t fd k))"
proof (cases "find_fd (ps_of k t) fd")
  case (Some i)
  let ?k1 = "fd_on_close t i k"
  have "same_fds (fd_release i (upd_ps (t_ps (k_task k t)) (erase_fd fd) k)) (fd_release i (upd_ps (t_ps (k_task ?k1 t)) (erase_fd fd) ?k1))"
    using same_fds_on_close [of k t i] by (auto simp: same_fds_def upd_ps_def fun_eq_iff)
  then show ?thesis using Some erase_ok [OF ok, of fd i] by (simp add: close_call_def Let_def same_fds_ok)
qed (use ok in \<open>simp add: close_call_def\<close>)

lemma pipe2_ok:
  assumes ok: "fds_ok P k" "t_ps (k_task k t) \<in> P" "unused P k j0" "unused P k j1" "j0 \<noteq> j1"
  shows "fds_ok P (snd (pipe2_call err j0 j1 t flags k))"
proof (cases "err = 0")
  case True
  let ?p = "t_ps (k_task k t)" let ?m = "ps_fds (k_ps k ?p)" let ?F = "host_fd_obj (flags AND BPF_O_CLOEXEC \<noteq> 0)"
  let ?fd0 = "first_free ?m 0" let ?fd1 = "first_free ?m (?fd0 + 1)" let ?k1 = "upd_ps ?p (put_fd ?fd0 j0) (new_fd j0 ?F k)"
  note f0 = first_free_ok [of ?m 0] and f1 = first_free_ok [of ?m "?fd0 + 1"]
  have k1: "fds_ok P ?k1" using add_ok [OF ok(1-3)] f0 by blast
  have "fds_ok P (upd_ps ?p (put_fd ?fd1 j1) (new_fd j1 ?F ?k1))"
    by (rule add_ok [OF k1 ok(2)]) (use ok f0 f1 in \<open>auto simp: unused_def upd_ps_def put_fd_def\<close>)
  moreover have "same_fds (upd_ps ?p (put_fd ?fd1 j1) (new_fd j1 ?F ?k1)) (upd_ps ?p (\<lambda>S. put_fd ?fd1 j1 (put_fd ?fd0 j0 S)) (new_fd j1 ?F (new_fd j0 ?F k)))"
    by (auto simp: same_fds_def upd_ps_def fun_eq_iff)
  ultimately show ?thesis using True by (simp add: pipe2_call_def pipe_pair_def Let_def same_fds_ok)
qed (use ok in \<open>simp add: pipe2_call_def\<close>)

lemma same_table: "\<lbrakk>fds_ok P k; \<And>F. fd_master (f F) = fd_master F\<rbrakk> \<Longrightarrow> fds_ok P (upd_fd i f k)"
  using master_uses_cong [of _ "upd_fd i f k" k] by (simp add: fds_ok_def upd_fd_def)

lemma fcntl_ok:
  assumes ok: "fds_ok P k" "t_ps (k_task k t) \<in> P" "unused P k j" and h: "\<And>i. same_fds k (snd (host i k))"
  shows "fds_ok P (snd (fcntl_table err j t fd cmd arg host k))"
proof -
  have "fds_ok P (snd (emplace_fd t j n k1))" "fds_ok P (snd (emplace_fd t j n (upd_fd j (\<lambda>F. F\<lparr>fd_cloexec := True\<rparr>) k1)))"
    if "fd_clone err j i k = Inr k1" "0 \<le> n" for i k1 n
    using clone_ok [OF that(1)] set_cloexec_new [of j True _ k] emplace_ok [OF ok that(2)] by metis+
  then show ?thesis using ok(1) same_table [OF ok(1)] same_fds_ok(1) [OF h] by (simp add: fcntl_table_def Let_def split: option.splits sum.splits)
qed

lemma eventfd2_ok: "\<lbrakk>fds_ok P k; t_ps (k_task k t) \<in> P; unused P k j\<rbrakk> \<Longrightarrow> fds_ok P (snd (eventfd2_call err j t flags k))"
  using emplace_ok [of P k t j 0] by (simp add: eventfd2_call_def)

lemma signalfd4_ok: "\<lbrakk>fds_ok P k; t_ps (k_task k t) \<in> P; unused P k j\<rbrakk> \<Longrightarrow> fds_ok P (snd (signalfd4_call err j t fd mk flags k))"
  using emplace_ok [of P k t j 0] same_table [of P k] by (auto simp: signalfd4_call_def split: option.splits)

lemma close_some_ok:
  assumes ok: "fds_ok P k" "t_ps (k_task k t) \<in> P" and f: "ps_fds (f (ps_of k t)) = filter Q (ps_fds (ps_of k t))"
    and g: "gone = map snd (filter (\<lambda>e. \<not> Q e) (ps_fds (ps_of k t)))"
  shows "fds_ok P (fold fd_release gone (upd_ps (t_ps (k_task k t)) f (fold (fd_on_close t) gone k)))"
proof -
  let ?k1 = "fold (fd_on_close t) gone k"
  have "same_fds k ?k1" by (rule same_fds_fold) (rule same_fds_on_close)
  then have "same_fds (fold fd_release gone (upd_ps (t_ps (k_task k t)) f k)) (fold fd_release gone (upd_ps (t_ps (k_task k t)) f ?k1))"
    by (auto simp: same_fds_def upd_ps_def fun_eq_iff)
  then show ?thesis using keep_ok [OF ok, of f Q] f g by (simp add: same_fds_ok)
qed

lemma close_all_ok: "\<lbrakk>fds_ok P k; t_ps (k_task k t) \<in> P\<rbrakk> \<Longrightarrow> fds_ok P (close_all t k)"
  using close_some_ok [of P k t "\<lambda>S. S\<lparr>ps_fds := []\<rparr>" "\<lambda>_. False" "map snd (ps_fds (ps_of k t))"] by (simp add: close_all_def Let_def)

lemma close_on_exec_ok: "\<lbrakk>fds_ok P k; t_ps (k_task k t) \<in> P\<rbrakk> \<Longrightarrow> fds_ok P (close_on_exec t k)"
  using close_some_ok [of P k t "\<lambda>S. S\<lparr>ps_fds := filter (\<lambda>(fd, i). \<not> fd_cloexec (k_fd k i)) (ps_fds (ps_of k t))\<rparr>" "\<lambda>(fd, i). \<not> fd_cloexec (k_fd k i)", OF _ _ _ refl]
  by (simp add: close_on_exec_def Let_def case_prod_unfold)

subsection \<open>Opening\<close>

lemma path_open_fds:
  assumes "path_open FE k t g fl mode = Some r"
  shows "k_token k (fe_fresh FE k) = 0 \<longrightarrow> (\<forall>F k1. r = Inr (F, k1) \<longrightarrow> same_fds k k1)"
proof (rule path_open.raw_induct [OF _ assms], intro impI allI, goal_cases)
  case (1 f FE k t g fl mode r F k1)
  have again: "same_fds k k1" if "f FE k t g' fl mode = Some r" for g' using 1(1) [OF that] 1(3,4) by blast
  have h: "same_fds k k'" if "host_open FE k p x m n = Inr (F', k')" for p x m n F' k' using that by (auto simp: host_open_def Let_def split: if_splits)
  have d: "same_fds k k'" if "dev_open FE k t p x m = Inr (F', k')" for p x m F' k'
    using that h 1(3) by (auto simp: dev_open_def dev_ptmx_register_def same_fds_def Let_def fun_eq_iff split: if_splits option.splits sum.splits DevInfo.splits)
  have p: "same_fds k k'" if "proc_open FE k p n x = Inl (Inr (F', k'))" for p n x F' k'
    using that by (cases n) (auto simp: proc_open_def fd_link_open_def exe_link_open_def Let_def split: if_splits option.splits)
  show ?case using 1(2,4) again h d p
    by (auto simp: Let_def bind_eq_Some_conv split: path_class.splits prod.splits if_splits option.splits sum.splits DevInfo.splits)
qed

lemma open_ok:
  assumes ok: "fds_ok P k" "t_ps (k_task k t) \<in> P" "unused P k j" "k_token k (fe_fresh FE k) = 0"
    and r: "path_open FE k t g fl mode = Some (Inr (F, k1))"
  shows "fds_ok P (snd (emplace_fd t j 0 (new_fd j (if c then F\<lparr>fd_cloexec := True\<rparr> else F) k1)))"
proof -
  have s: "same_fds k k1" using path_open_fds [OF r] ok(4) by blast
  then have "t_ps (k_task k1 t) \<in> P" using ok(2) by (simp add: same_fds_def)
  then show ?thesis using emplace_ok [of P k1 t j 0] ok(1,3) same_fds_ok [OF s] by simp
qed

subsection \<open>New processes\<close>

lemma clone_fds_spec:
  "\<lbrakk>clone_fds err j es k = Inr (fds, k1); \<forall>i \<in> snd ` set es. i < j\<rbrakk> \<Longrightarrow>
   map fst fds = map fst es \<and> k_ps k1 = k_ps k \<and> k_task k1 = k_task k \<and> k_me k1 = k_me k \<and> (\<forall>i < j. k_fd k1 i = k_fd k i)
   \<and> (\<forall>x. k_token k1 x = k_token k x + master_uses k1 fds x)"
proof (induction err j es k arbitrary: fds k1 rule: clone_fds.induct)
  case (2 err j fd i es k)
  obtain k2 where k2: "fd_clone (err k) j i k = Inr k2" using 2(2) by (cases "fd_clone (err k) j i k") auto
  obtain fs where fds: "fds = (fd, j) # fs" and r: "clone_fds err (Suc j) es (upd_fd j (\<lambda>F. F\<lparr>fd_cloexec := fd_cloexec (k_fd k i)\<rparr>) k2) = Inr (fs, k1)"
    using 2(2) k2 by (cases "clone_fds err (Suc j) es (upd_fd j (\<lambda>F. F\<lparr>fd_cloexec := fd_cloexec (k_fd k i)\<rparr>) k2)") auto
  obtain F where F: "upd_fd j (\<lambda>F. F\<lparr>fd_cloexec := fd_cloexec (k_fd k i)\<rparr>) k2 = new_fd j F k" using clone_ok [OF k2] set_cloexec_new by metis
  have "\<forall>i \<in> snd ` set es. i < Suc j" using 2(3) by auto
  from 2(1) [OF k2 r this] show ?case unfolding F fds by (auto simp: new_fd_def one_if_def split: option.splits)
qed simp

lemma fork_ok:
  assumes ok: "fds_ok P k" "t_ps (k_task k (k_me k)) \<in> P" "n \<notin> P" and j: "\<And>p i. \<lbrakk>p \<in> P; i \<in> snd ` set (ps_fds (k_ps k p))\<rbrakk> \<Longrightarrow> i < j"
    and c: "clone_fds err j (ps_fds (ps_of k (k_me k))) k = Inr (fds, k1)"
  shows "fds_ok (insert n P) (clone_sys False n fds k1)"
proof -
  let ?k2 = "clone_sys False n fds k1"
  have s: "map fst fds = map fst (ps_fds (ps_of k (k_me k)))" "k_ps k1 = k_ps k" "\<And>i. i < j \<Longrightarrow> k_fd k1 i = k_fd k i"
    "\<And>x. k_token k1 x = k_token k x + master_uses k1 fds x"
    using clone_fds_spec [OF c] j ok(2) by blast+
  have K: "k_fd ?k2 = k_fd k1" "k_token ?k2 = k_token k1" "ps_fds (k_ps ?k2 n) = fds" "q \<noteq> n \<Longrightarrow> k_ps ?k2 q = k_ps k q" for q
    by (simp_all add: clone_sys_def Let_def s(2))
  have old: "master_uses ?k2 (ps_fds (k_ps ?k2 q)) x = master_uses k (ps_fds (k_ps k q)) x" if "q \<in> P" for q x
    using that ok(3) K master_uses_cong [of "ps_fds (k_ps k q)" ?k2 k x] j s(3) by force
  have "table_ok fds = table_ok (ps_fds (ps_of k (k_me k)))" unfolding table_ok_def s(1) set_map [symmetric] ..
  then have "table_ok fds" using ok(1,2) by (simp add: fds_ok_def)
  moreover have "table_ok (ps_fds (k_ps ?k2 q))" if "q \<in> P" for q
  proof -
    have "q \<noteq> n" using that ok(3) by blast
    then show ?thesis using that ok(1) by (simp add: K(4) fds_ok_def)
  qed
  moreover have "(\<Sum>q\<in>P. master_uses ?k2 (ps_fds (k_ps ?k2 q)) x) = k_token k x" for x using ok(1) old by (simp add: fds_ok_def)
  moreover have "master_uses ?k2 fds x = master_uses k1 fds x" for x by (simp add: master_uses_def K)
  ultimately show ?thesis using ok(1,3) K s(4) by (simp add: fds_ok_def)
qed

subsection \<open>Any sequence of calls\<close>

text \<open>
  The calls of the tasks of the processes P that change tables, and every step that leaves the
  descriptors alone. New objects get numbers that no table has, and a new terminal a token that
  nothing uses.
\<close>

inductive fd_step :: "nat set \<times> kern \<Rightarrow> nat set \<times> kern \<Rightarrow> bool" where
  dup: "\<lbrakk>t_ps (k_task k t) \<in> P; unused P k j\<rbrakk> \<Longrightarrow> fd_step (P, k) (P, snd (dup_call err j t fd k))"
| dup3: "\<lbrakk>t_ps (k_task k t) \<in> P; unused P k j\<rbrakk> \<Longrightarrow> fd_step (P, k) (P, snd (dup3_call err j t fd nfd flags k))"
| fcntl: "\<lbrakk>t_ps (k_task k t) \<in> P; unused P k j; \<And>i. same_fds k (snd (host i k))\<rbrakk> \<Longrightarrow> fd_step (P, k) (P, snd (fcntl_table err j t fd cmd arg host k))"
| pipe2: "\<lbrakk>t_ps (k_task k t) \<in> P; unused P k j0; unused P k j1; j0 \<noteq> j1\<rbrakk> \<Longrightarrow> fd_step (P, k) (P, snd (pipe2_call err j0 j1 t flags k))"
| eventfd2: "\<lbrakk>t_ps (k_task k t) \<in> P; unused P k j\<rbrakk> \<Longrightarrow> fd_step (P, k) (P, snd (eventfd2_call err j t flags k))"
| signalfd4: "\<lbrakk>t_ps (k_task k t) \<in> P; unused P k j\<rbrakk> \<Longrightarrow> fd_step (P, k) (P, snd (signalfd4_call err j t fd mk flags k))"
| openat: "\<lbrakk>t_ps (k_task k t) \<in> P; unused P k j; k_token k (fe_fresh FE k) = 0; path_open FE k t g fl mode = Some (Inr (F, k1))\<rbrakk>
     \<Longrightarrow> fd_step (P, k) (P, snd (emplace_fd t j 0 (new_fd j (if c then F\<lparr>fd_cloexec := True\<rparr> else F) k1)))"
| close: "t_ps (k_task k t) \<in> P \<Longrightarrow> fd_step (P, k) (P, snd (close_call t fd k))"
| exec: "t_ps (k_task k t) \<in> P \<Longrightarrow> fd_step (P, k) (P, close_on_exec t k)"
| exit: "t_ps (k_task k t) \<in> P \<Longrightarrow> fd_step (P, k) (P, close_all t k)"
| fork: "\<lbrakk>t_ps (k_task k (k_me k)) \<in> P; n \<notin> P; \<And>p i. \<lbrakk>p \<in> P; i \<in> snd ` set (ps_fds (k_ps k p))\<rbrakk> \<Longrightarrow> i < j;
     clone_fds err j (ps_fds (ps_of k (k_me k))) k = Inr (fds, k1)\<rbrakk> \<Longrightarrow> fd_step (P, k) (insert n P, clone_sys False n fds k1)"
| other: "same_fds k k' \<Longrightarrow> fd_step (P, k) (P, k')"

lemma fd_step_ok: "fd_step S S' \<Longrightarrow> fds_ok (fst S) (snd S) \<Longrightarrow> fds_ok (fst S') (snd S')"
proof (induction rule: fd_step.induct)
  case (fork k P n j err fds k1)
  then show ?case using fork_ok [of P k n j] by simp
qed (simp_all add: dup_ok dup3_ok fcntl_ok pipe2_ok eventfd2_ok signalfd4_ok open_ok close_ok close_on_exec_ok close_all_ok same_fds_ok)

end
