(* ===== verification/Posix_File_Claims.thy ===== *)
theory Posix_File_Claims
  imports Posix_Walk Posix_File_Props Posix_Fd_Props Posix_Machine_Claims
begin

text \<open>
  Properties of paths, of /proc and of descriptors: which paths of the host the guest can name, when
  an operation on a path returns, and what the descriptor tables always satisfy.
\<close>

subsection \<open>The root directory\<close>


definition rooted_kern :: kern where
  "rooted_kern = upd_ps (t_ps (k_task demo_kern 1)) (\<lambda>S. S\<lparr>ps_root := ''/srv'', ps_cwd := ''/home''\<rparr>) demo_kern"

definition secret_files :: file_env where
  "secret_files = demo_files\<lparr>fe_path := (\<lambda>_ p _. if p = ''/etc/passwd'' then (7, []) else (- 2, []))\<rparr>"

lemma secret_out_of_reach: "\<not> in_reach ''/srv'' ''/etc/passwd''"
  by (auto simp: in_reach_def below_def device_path_def dev_nodes_def has_prefix_def path_names_def)


subsection \<open>Walks through /proc\<close>

text \<open>
  C38: every operation on a path returns, when the working directories, programs and open files of
  the tasks lead neither into /proc nor into /dev/fd; the links of pipes and sockets, which name no
  entry, are no harm. The guest may still pass any path, through /dev/fd, /proc/self/root or
  /proc/thread-self, and as often as it likes.
\<close>

theorem path_operations_return:
  assumes "links_tame (fe_proc FE k) k" "paths_ok k (ps_of k t)" and g: "g = guest_abs_path k (ps_of k t) path dirfd"
  shows "(\<exists>r. path_open FE k t g flags mode = Some r) \<and> (\<exists>r. path_call FE k t g op = Some r)"
proof -
  have "down_or_none g" using guest_abs_path_down [OF assms(2)] g by (metis guest_abs_path_def)
  then have "settles (fe_proc FE k) k t g" by (rule settles_down [OF assms(1)])
  then show ?thesis using settles_open [OF _ refl] settles_call [OF _ refl] by blast
qed

lemma demo_tame: "links_tame demo_proc demo_kern"
proof -
  have n: "path_names ''init'' = [''init'']" by (simp add: path_names_def)
  have "lexically_normal ''/init'' = ''/init''" by (simp add: lexically_normal_def n is_absolute_def Let_def)
  then have "leads_out ''/init''" by (simp add: leads_out_def outside_def goes_down_def n is_absolute_def has_prefix_def)
  then show ?thesis using out_simps by (simp add: links_tame_def demo_kern_def)
qed

lemma path_operations_return_witness:
  "\<exists>r. path_call demo_files demo_kern 1 (guest_abs_path demo_kern (ps_of demo_kern 1) ''/proc/self/root/dev/fd/0/cwd'' (- 100)) (Access 0 0) = Some r"
proof -
  have "links_tame (fe_proc demo_files demo_kern) demo_kern" "paths_ok demo_kern (ps_of demo_kern 1)"
    using demo_tame by (simp_all add: demo_files_def paths_ok_def demo_kern_def is_absolute_def)
  from path_operations_return [OF this refl, THEN conjunct2] show ?thesis .
qed

text \<open>
  C39: a working directory that is named through itself makes the walk run forever. A process changes
  to /proc/self and opens cwd/fd, which exists and is remembered as /proc/self/cwd/fd. Once it has
  changed to that directory, opening the current directory, and every operation on it that reads,
  never returns: the link cwd leads to a path through itself, with one name more to go each time.
\<close>

theorem cwd_walk_never_returns:
  assumes t: "find_task k (tg_tgid (tg_of k t)) = Some u" "t_ps (k_task k u) = t_ps (k_task k t)"
    and k1: "k1 = upd_ps (t_ps (k_task k t)) (\<lambda>S. S\<lparr>ps_cwd := ''/proc/self''\<rparr>) k"
  shows "\<exists>F k2. path_open FE k1 t (guest_abs_path k1 (ps_of k1 t) ''cwd/fd'' (- 100)) 0 0 = Some (Inr (F, k1))
    \<and> k2 = upd_ps (t_ps (k_task k t)) (\<lambda>S. S\<lparr>ps_cwd := fd_path F\<rparr>) k1
    \<and> path_open FE k2 t (guest_abs_path k2 (ps_of k2 t) ''.'' (- 100)) flags mode = None
    \<and> (op_modifies op \<or> path_call FE k2 t (guest_abs_path k2 (ps_of k2 t) ''.'' (- 100)) op = None)"
proof -
  let ?d = "''/proc/self/cwd/fd''" let ?k2 = "upd_ps (t_ps (k_task k t)) (\<lambda>S. S\<lparr>ps_cwd := ?d\<rparr>) k1"
  have n: "path_names ''proc/self'' = [''proc'', ''self'']" "path_names ''proc/self/cwd/fd'' = [''proc'', ''self'', ''cwd'', ''fd'']"
    "path_names ''proc/self/cwd/fd/.'' = [''proc'', ''self'', ''cwd'', ''fd'', dot]" by (simp_all add: path_names_def)
  have g1: "guest_abs_path k1 (ps_of k1 t) ''cwd/fd'' (- 100) = ?d"
    by (simp add: guest_abs_path_def base_path_def k1 upd_ps_def lexically_normal_def path_append_def is_absolute_def n Let_def)
  have g2: "guest_abs_path ?k2 (ps_of ?k2 t) ''.'' (- 100) = ?d @ [slash]"
    by (simp add: guest_abs_path_def base_path_def k1 upd_ps_def lexically_normal_def path_append_def is_absolute_def n Let_def)
  have p: "ResolvePath r ?d = make_path ProcPath r ?d" "ResolvePath r (?d @ [slash]) = make_path ProcPath r ?d" for r
    by (simp_all add: ResolvePath_def is_proc_def has_prefix_def strip_slashes_def)
  have l1: "lookup PE k1 t ?d = Some (DirGen (gen_pid_fd_entries PE k1 u), [])" for PE
    by (rule through_cwd(1)) (use t in \<open>auto simp: k1 upd_ps_def find_task_def\<close>)
  have l2: "lookup PE ?k2 t ?d = None" for PE
    by (rule through_cwd(2)) (use t in \<open>auto simp: k1 upd_ps_def find_task_def\<close>)
  have "path_open FE k1 t ?d 0 0 = Some (Inr (virtual_fd ?d (VirtualDir (map (\<lambda>(n, x). (n, gen_dtype x)) (gen_pid_fd_entries (fe_proc FE k1) k1 u)) 0), k1))"
    by (subst path_open.simps) (simp add: p make_path_def l1 proc_open_def)
  moreover have "path_open FE ?k2 t (?d @ [slash]) flags mode = None" "op_modifies op \<or> path_call FE ?k2 t (?d @ [slash]) op = None"
    by (subst path_open.simps, simp only: p make_path_def Let_def, simp add: l2)
       (subst path_call.simps, simp only: p make_path_def Let_def, simp add: l2)
  ultimately show ?thesis using g1 g2 by (auto simp: virtual_fd_def named_fd_def)
qed

lemma cwd_walk_never_returns_witness:
  "\<exists>k. path_open demo_files k 1 (guest_abs_path k (ps_of k 1) ''.'' (- 100)) 0 0 = None"
proof -
  have "find_task demo_kern (tg_tgid (tg_of demo_kern 1)) = Some 1" by (simp add: find_task_def demo_kern_def demo_task_def demo_tg_def)
  from cwd_walk_never_returns [OF this refl refl, of demo_files 0 0] show ?thesis by blast
qed

subsection \<open>Descriptor tables\<close>



end
