(* ===== verification/Spec2Isabelle.thy ===== *)
theory Spec2Isabelle
  imports Core_Props Posix_Memory_Claims Posix_Process_Claims Posix_Futex_Claims Posix_System_Claims Posix_File_Claims
begin

text \<open>
  A verification development for bpfvm, a user-space virtual machine that runs Linux-like programs
  compiled to eBPF. This text names the parts of the program, the theories that model them, what is
  proved, and what is left out. Paths are relative to src/.

  \<^bold>\<open>The program.\<close> A vm object (src/insn.h, src/insn.cpp) interprets one guest thread. It owns a vector
  of mappings (struct memmap, src/elf_loader.h) from guest addresses to host pages, translates every guest access
  through a small TLB, breaks copy-on-write on the first write, keeps call and signal frames on the
  guest's stack, and hands call instructions with a negative number to a SyscallHandler. The handler for
  ordinary programs is PosixSyscall (src/posix): one object per task over state that the tasks share,
  namely thread groups, signal queues, the process table, sessions, descriptor tables and futex
  buckets. A clone makes another vm, either on the same mappings or on a copy that shares the pages
  copy-on-write; every vm runs on a host thread of its own.

  \<^bold>\<open>Conventions.\<close> Machine integers are words of their width. A computation of type option returns None
  where the C++ program has a host fault or undefined behaviour, and in calls that wait, where the rounds given to
  the wait end first. The predicate runs of theory Prelude reads a post-condition in two modes: strict,
  in which the computation must return, and lenient, in which it may fault. Host calls, host
  floating point and other code outside the repository are arguments: Host_Mem takes the success of
  mmap and mprotect from the host state, Soft_Fp a record fpu, and the system calls a record
  posix_env.

  \<^bold>\<open>Memory.\<close> Host_Mem has host pages, faulting loads and stores, control blocks of shared pointers and
  struct memmap with its destructor. Ownership states, over the multiset of the memmaps of all address
  spaces, that each page is released once and each block counts its users (mem_ok), and shows it for
  every operation that creates, shares, splits, steals or drops a memmap. Copy_On_Write is the break
  in vm::mmu_w_slow; Addr_Space the sorted vector with vm::find_map_locked, vm::addmem and vm::unmap;
  Mmu the TLB with vm::mmu and vm::mmu_w, and the machine invariant vm_ok; Guest_Access the effect of
  loads and stores through translated pointers on the byte view of the guest.

  \<^bold>\<open>Execution.\<close> Insn is struct bpf_insn and the two arithmetic units, compared with one reference for
  every width. Frames has vm::push_frame, vm::pop_frame, vm::alloca, vm::deliver_signal and the
  backtrace; Soft_Fp the virtual floating-point instructions; Interp memory instructions, jumps, the
  safepoint, vm::step and vm::run_loop. Frame_Safety introduces the locale syscall_handler, the contract of a
  handler: from a well-formed machine it ends in one and leaves the bytes of other address spaces
  alone. Frame_Safety, Interp_Safety and Machine prove for every such handler that each instruction,
  the safepoint and every run keep the invariant and the isolation, and in strict mode that nothing faults.
  Frame_Props gives the functional behaviour of frames. Core_Props has the properties of these parts.

  \<^bold>\<open>Memory calls.\<close> Posix_Memory is src/posix/memory.cpp. Posix_Memory_Props, Posix_Mmap and
  Posix_Mprotect show its effect on ownership and on the view of the guest; Posix_Memory_Claims holds the
  properties, among them a TLB entry that a failing mprotect leaves behind.

  \<^bold>\<open>The kernel of the guest.\<close> Posix_Kernel is the shared state of src/posix/posix_syscall.h as one
  record kern with objects under numbers. Posix_Signal, Posix_Process, Posix_Futex, Posix_Fd and
  Posix_Poll are the operations of signal.cpp, process.cpp, session.cpp, futex.cpp, fd_ops.cpp and
  the objects of fs.cpp on it. An operation is one step of its task, as the locks of the sources make it;
  an operation that releases its lock while it waits is split into the sections between. The theories
  with the suffix Props and Claims show the invariant of the signal queues, the choice of the next
  signal, that stops and kills reach the whole group, that a wait misses no child and the end of a
  child wakes its parent, and that no futex wake-up is lost.

  \<^bold>\<open>System calls.\<close> Posix_Calls and Posix_Syscall are the members do_* of PosixSyscall on a machine, whose
  handler state is the kernel: arguments in registers, structures in guest memory, the dispatch of
  PosixSyscall::syscall, signal delivery and return, and PosixSyscall::fini. Posix_Calls_Props shows for each
  call that it keeps the machine invariant and the isolation, and thereby that the whole handler
  satisfies the contract of Frame_Safety; the calls that are not modelled are a field of posix_env,
  and the locale other_calls has their contract. Posix_Machine_Claims draws the conclusion for runs
  of a machine with this handler, and has the round trips of sigsetjmp and of signal delivery.

  \<^bold>\<open>Files.\<close> Posix_Path has the absolute path of an argument, the classes of paths, the path of the host under
  the root directory and the table of devices (filesystem.cpp, fs.cpp). Posix_Procfs is the tree of
  /proc with the walk through its links (procfs.cpp). Posix_Files has the virtual methods of class
  Path and class Fd, with the calls of the host as a record file_env, and Posix_File_Calls the system calls on
  them (file_io.cpp, filesystem.cpp). Posix_Held and Posix_File_Props show that these calls keep the machine
  invariant and the isolation while they hold host pointers. Posix_Path_Props and Posix_Procfs_Props
  have the facts on normal paths and on walks; on them rest Posix_Confine, that the guest reaches no path
  of the host outside its root directory, and Posix_Walk, that operations on paths return when
  no link of a task leads back into /proc. Posix_Fd_Props has the invariant of the descriptor tables and its
  preservation by every call that changes them. Posix_File_Claims holds the properties, among
  them a working directory through which the walk never ends.

  \<^bold>\<open>Processes.\<close> Posix_Clone is PosixSyscall::do_clone, and Posix_Clone_Props shows that a fork gives the
  child the parent's view. Posix_System composes machines over one host and one kernel, with the
  steps of any of them, forks and ends in any order, and Posix_System_Claims shows that processes never
  reach each other's memory.

  \<^bold>\<open>Bounds.\<close> The loop of the interpreter and the waits of system calls take a number of rounds. Properties of
  runs do not depend on it: they speak of every chain of steps (reaches, sys_run). The walk through /proc and
  the operations on paths that follow it (lookup_loop, path_open, path_call) may run forever in the
  sources; they are partial functions without fuel, with None for a walk that does not end. The
  other recursions end by themselves.

  \<^bold>\<open>Not modelled.\<close> The just-in-time compilers (src/jit) emit host machine code, whose semantics the
  development does not have; Interp is the interpreter with a compiler that declines. The linker
  (src/elf_linker.cpp, src/ld_main.cpp) and the LLVM passes (src/passes) run at build time on object
  files and LLVM IR. The debugger stub (src/gdb_server.cpp) appears as the hooks of the handler record
  only. Sockets and epoll (src/posix/socket.cpp) and the pseudo terminal of the host (src/pty.cpp)
  mostly pass through to the host. The loader of ELF files (src/elf_loader.cpp), the start of the program
  (src/main.cpp) and do_execveat with exec_common, which call it, are left out: a machine starts with the mappings that
  loading gives. Data races between threads that share an address space are outside the model, in which
  every step is atomic.
\<close>

end
